(* ===== verification/Prelude.thy ===== *)
theory Prelude
  imports Main "HOL-Library.Word"
begin

text \<open>
  The vocabulary every component shares: the identifiers of \<^verbatim>\<open>include/MCConstants.h\<close> and
  \<^verbatim>\<open>include/MCShared.h\<close>, the ways a run of McMini can stop early (\<open>mc_error\<close>), the result type
  with its sequencing operator \<open>bindR\<close>, and generic lemmas on results and lists.

  Thread ids and object ids are 64-bit in the code and only ever small array indices; they are
  \<open>nat\<close> here.  Machine addresses (\<^verbatim>\<open>void *\<close>, \<^verbatim>\<open>pthread_mutex_t *\<close>, \<^verbatim>\<open>pthread_t\<close>) are compared and never
  computed with; they are \<open>nat\<close> too.  Counters that wrap are \<open>32 word\<close> or \<open>64 word\<close>.
\<close>

section \<open>Identifiers and constants\<close>

type_synonym tid = nat
type_synonym objid = nat
type_synonym sysid = nat
type_synonym u32 = "32 word"
type_synonym u64 = "64 word"

definition TID_MAIN_THREAD :: tid where
  "TID_MAIN_THREAD = 0"

definition MAX_TOTAL_THREADS_IN_PROGRAM :: nat where
  "MAX_TOTAL_THREADS_IN_PROGRAM = 20"

definition MAX_TOTAL_VISIBLE_OBJECTS_IN_PROGRAM :: nat where
  "MAX_TOTAL_VISIBLE_OBJECTS_IN_PROGRAM = 10000"

definition MC_STATE_CONFIG_MAX_TRANSITIONS_DEPTH_LIMIT_DEFAULT :: nat where
  "MC_STATE_CONFIG_MAX_TRANSITIONS_DEPTH_LIMIT_DEFAULT = 1500"

definition LLOCK_INCREASED_MAX_TRANSITIONS_DEPTH :: nat where
  "LLOCK_INCREASED_MAX_TRANSITIONS_DEPTH = 5"

section \<open>Early exits and results\<close>

text \<open>
  \<open>AssertFailed\<close> is a failed \<^verbatim>\<open>MC_ASSERT\<close>/\<^verbatim>\<open>assert\<close>; \<open>Fatal\<close> is \<^verbatim>\<open>MC_FATAL\<close> or a failed
  \<^verbatim>\<open>MC_FATAL_ON_FAIL\<close> (\<^verbatim>\<open>abort()\<close>); \<open>UndefinedBehavior\<close> is \<^verbatim>\<open>mc_report_undefined_behavior\<close>, which stops
  McMini with a message; \<open>StopModelChecking\<close> is \<^verbatim>\<open>mc_stop_model_checking(EXIT_FAILURE)\<close>;
  \<open>RuntimeError\<close> and \<open>InvalidArgument\<close> are the C++ exceptions the code throws;
  \<open>OutOfBounds\<close> and \<open>NullDereference\<close> stand for C++ accesses that leave an array or follow a null
  pointer, \<open>UninitializedRead\<close> for the use of a variable that was never assigned.
\<close>

datatype mc_error =
    AssertFailed
  | Fatal
  | UndefinedBehavior
  | StopModelChecking
  | RuntimeError
  | InvalidArgument
  | OutOfBounds
  | NullDereference
  | UninitializedRead

type_synonym 'a result = "mc_error + 'a"

text \<open>The operators are generic in the reason to stop: the search has more reasons than \<open>mc_error\<close>.\<close>

definition bindR :: "'e + 'a \<Rightarrow> ('a \<Rightarrow> 'e + 'b) \<Rightarrow> 'e + 'b" where
  "bindR r f = (case r of Inl e \<Rightarrow> Inl e | Inr x \<Rightarrow> f x)"

definition guardR :: "'e \<Rightarrow> bool \<Rightarrow> 'e + 'a \<Rightarrow> 'e + 'a" where
  "guardR e b r = (if b then r else Inl e)"

named_theorems result_simps "unfolding of the result operators"

lemma bindR_Inl [simp]: "bindR (Inl e) f = Inl e"
  and bindR_Inr [simp]: "bindR (Inr x) f = f x"
  by (simp_all add: bindR_def)

lemma bindR_eq_Inr: "bindR r f = Inr y \<longleftrightarrow> (\<exists>x. r = Inr x \<and> f x = Inr y)"
  by (cases r) simp_all

lemma bindR_eq_Inl: "bindR r f = Inl e \<longleftrightarrow> r = Inl e \<or> (\<exists>x. r = Inr x \<and> f x = Inl e)"
  by (cases r) simp_all

lemma bindR_assoc: "bindR (bindR r f) g = bindR r (\<lambda>x. bindR (f x) g)"
  by (cases r) simp_all

lemma bindR_Inr_right [simp]: "bindR r Inr = r"
  by (cases r) simp_all

lemma guardR_True [simp]: "guardR e True r = r"
  and guardR_False [simp]: "guardR e False r = Inl e"
  by (simp_all add: guardR_def)

lemma guardR_eq_Inr: "guardR e b r = Inr y \<longleftrightarrow> b \<and> r = Inr y"
  by (simp add: guardR_def)

declare bindR_eq_Inr [result_simps] bindR_eq_Inl [result_simps] guardR_eq_Inr [result_simps]

lemma bindR_cong [fundef_cong]:
  "r = r' \<Longrightarrow> (\<And>x. r' = Inr x \<Longrightarrow> f x = f' x) \<Longrightarrow> bindR r f = bindR r' f'"
  by (cases r') auto

text \<open>Running a step function over a list of inputs, stopping at the first error.\<close>

fun foldR :: "('a \<Rightarrow> 's \<Rightarrow> 'e + 's) \<Rightarrow> 'a list \<Rightarrow> 's \<Rightarrow> 'e + 's" where
  "foldR f [] s = Inr s"
| "foldR f (x # xs) s = bindR (f x s) (foldR f xs)"

lemma foldR_Nil_fun [simp]: "foldR f [] = Inr"
  by (rule ext) simp

lemma foldR_append: "foldR f (xs @ ys) s = bindR (foldR f xs s) (foldR f ys)"
  by (induction xs arbitrary: s) (auto simp: bindR_def split: sum.splits)

lemma foldR_snoc: "foldR f (xs @ [x]) s = bindR (foldR f xs s) (f x)"
  by (cases "foldR f xs s") (simp_all add: foldR_append)

lemma foldR_invariant:
  assumes "foldR f xs s = Inr s'" and "P s"
    and "\<And>x s s'. x \<in> set xs \<Longrightarrow> P s \<Longrightarrow> f x s = Inr s' \<Longrightarrow> P s'"
  shows "P s'"
  using assms
proof (induction xs arbitrary: s)
  case Nil
  then show ?case by simp
next
  case (Cons x xs)
  from Cons.prems(1) obtain t where t: "f x s = Inr t" "foldR f xs t = Inr s'"
    by (auto simp: bindR_eq_Inr)
  have "P t" using Cons.prems(2,3) t(1) by auto
  then show ?case using Cons.IH [OF t(2)] Cons.prems(3) by (meson list.set_intros(2))
qed

lemma foldR_visit:
  assumes "foldR f xs s = Inr s'" and "x \<in> set xs"
  obtains us vs u u' where "foldR f us s = Inr u" and "f x u = Inr u'" and "foldR f vs u' = Inr s'"
proof -
  from assms(2) obtain us vs where xs: "xs = us @ x # vs" by (meson split_list)
  from assms(1) show thesis
    by (auto simp: xs foldR_append bindR_eq_Inr intro: that)
qed

text \<open>A reflexive and transitive relation that every step respects holds from start to end.\<close>

lemma foldR_relation:
  assumes "foldR f xs s = Inr s'" and "R s s"
    and "\<And>x u u'. R s u \<Longrightarrow> f x u = Inr u' \<Longrightarrow> R u u'"
    and "\<And>u v w. R u v \<Longrightarrow> R v w \<Longrightarrow> R u w"
  shows "R s s'"
  by (rule foldR_invariant [OF assms(1), where P = "R s"]) (use assms(2-4) in blast)+

section \<open>Lists\<close>

lemma all_drop_nth: "(\<forall>x \<in> set (drop n xs). P x) \<longleftrightarrow> (\<forall>k. n \<le> k \<and> k < length xs \<longrightarrow> P (xs ! k))"
proof
  assume all: "\<forall>x \<in> set (drop n xs). P x"
  show "\<forall>k. n \<le> k \<and> k < length xs \<longrightarrow> P (xs ! k)"
  proof (intro allI impI)
    fix k
    assume k: "n \<le> k \<and> k < length xs"
    then have "drop n xs ! (k - n) = xs ! k" "k - n < length (drop n xs)" by auto
    then show "P (xs ! k)" using all nth_mem by metis
  qed
qed (auto simp: in_set_conv_nth)

text \<open>
  \<^verbatim>\<open>std::find\<close> followed by \<^verbatim>\<open>erase\<close> is \<^const>\<open>remove1\<close>; the erase-remove idiom is \<^const>\<open>removeAll\<close>.
  A \<^verbatim>\<open>std::queue\<close> is a list with its front at the head.
\<close>

lemma nth_append_last [simp]: "(xs @ [x]) ! length xs = x"
  by simp

lemma take_Suc_snoc: "k < length xs \<Longrightarrow> take (Suc k) xs = take k xs @ [xs ! k]"
  by (rule take_Suc_conv_app_nth)

lemma distinct_remove1_set: "distinct xs \<Longrightarrow> set (remove1 x xs) = set xs - {x}"
  by simp

lemma hd_notin_tl: "distinct (x # xs) \<Longrightarrow> x \<notin> set xs"
  by simp

end
