(* ===== verification/MutexObj.thy ===== *)
theory MutexObj
  imports Prelude
begin

text \<open>
  \<^verbatim>\<open>MCMutex\<close> (\<^verbatim>\<open>include/objects/MCMutex.h\<close>, \<^verbatim>\<open>src/objects/MCMutex.cpp\<close>): the shadow of a
  \<^verbatim>\<open>pthread_mutex_t\<close>.  The shadow has no owner: \<^verbatim>\<open>lock\<close> ignores its argument.
  Every visible object carries the id the object store gives it (\<^verbatim>\<open>MCVisibleObject::id\<close>).
\<close>

datatype mutex_state = mutex_undefined | mutex_unlocked | mutex_locked | mutex_destroyed

record mcmutex =
  mutex_id :: objid
  mutex_sys :: sysid
  mutex_state :: mutex_state

definition newMCMutex :: "sysid \<Rightarrow> mcmutex" where
  "newMCMutex sys = \<lparr>mutex_id = 0, mutex_sys = sys, mutex_state = mutex_undefined\<rparr>"

definition MCMutex_eq :: "mcmutex \<Rightarrow> mcmutex \<Rightarrow> bool" where
  "MCMutex_eq m n \<longleftrightarrow> mutex_sys m = mutex_sys n"

definition MCMutex_isLocked :: "mcmutex \<Rightarrow> bool" where
  "MCMutex_isLocked m \<longleftrightarrow> mutex_state m = mutex_locked"

definition MCMutex_isUnlocked :: "mcmutex \<Rightarrow> bool" where
  "MCMutex_isUnlocked m \<longleftrightarrow> mutex_state m = mutex_unlocked"

definition MCMutex_isDestroyed :: "mcmutex \<Rightarrow> bool" where
  "MCMutex_isDestroyed m \<longleftrightarrow> mutex_state m = mutex_destroyed"

definition MCMutex_lock :: "tid \<Rightarrow> mcmutex \<Rightarrow> mcmutex" where
  "MCMutex_lock newOwner m = m\<lparr>mutex_state := mutex_locked\<rparr>"

definition MCMutex_unlock :: "mcmutex \<Rightarrow> mcmutex" where
  "MCMutex_unlock m = m\<lparr>mutex_state := mutex_unlocked\<rparr>"

definition MCMutex_init :: "mcmutex \<Rightarrow> mcmutex" where
  "MCMutex_init m = m\<lparr>mutex_state := mutex_unlocked\<rparr>"

definition MCMutex_deinit :: "mcmutex \<Rightarrow> mcmutex" where
  "MCMutex_deinit m = m\<lparr>mutex_state := mutex_undefined\<rparr>"

definition MCMutex_canAcquire :: "tid \<Rightarrow> mcmutex \<Rightarrow> bool" where
  "MCMutex_canAcquire t m \<longleftrightarrow> MCMutex_isUnlocked m"

text \<open>Facts about the identity of the object, which no operation changes.\<close>

named_theorems mutex_simps "unfolding of the mutex operations"

lemmas mutex_defs [mutex_simps] =
  MCMutex_eq_def MCMutex_isLocked_def MCMutex_isUnlocked_def MCMutex_isDestroyed_def
  MCMutex_lock_def MCMutex_unlock_def MCMutex_init_def MCMutex_deinit_def MCMutex_canAcquire_def

lemma mutex_keeps_identity [simp]:
  "mutex_id (MCMutex_lock t m) = mutex_id m" "mutex_sys (MCMutex_lock t m) = mutex_sys m"
  "mutex_id (MCMutex_unlock m) = mutex_id m" "mutex_sys (MCMutex_unlock m) = mutex_sys m"
  "mutex_id (MCMutex_init m) = mutex_id m" "mutex_sys (MCMutex_init m) = mutex_sys m"
  "mutex_id (MCMutex_deinit m) = mutex_id m" "mutex_sys (MCMutex_deinit m) = mutex_sys m"
  by (simp_all add: mutex_simps)

text \<open>A thread that acquired the mutex excludes every other thread until it is unlocked.\<close>

lemma mutex_lock_excludes: "\<not> MCMutex_canAcquire u (MCMutex_lock t m)"
  by (simp add: mutex_simps)

lemma mutex_unlock_admits: "MCMutex_canAcquire u (MCMutex_unlock m)"
  by (simp add: mutex_simps)

lemma mutex_lock_unlock: "MCMutex_isUnlocked m \<Longrightarrow> MCMutex_unlock (MCMutex_lock t m) = m"
  by (simp add: mutex_simps)

end
