(* ===== verification/ThreadObj.thy ===== *)
theory ThreadObj
  imports Prelude
begin

text \<open>
  \<^verbatim>\<open>MCThread\<close> (\<^verbatim>\<open>include/objects/MCThread.h\<close>, \<^verbatim>\<open>src/objects/MCThread.cpp\<close>) and
  \<^verbatim>\<open>MCGlobalVariable\<close> (\<^verbatim>\<open>include/objects/MCGlobalVariable.h\<close>, \<^verbatim>\<open>src/objects/MCGlobalVariable.cpp\<close>).
  The start routine and its argument are addresses that McMini stores and never calls.
\<close>

section \<open>Threads\<close>

datatype thread_state = embryo | alive | sleeping | dead

record mcthread =
  thread_id :: objid
  thread_tid :: tid
  thread_arg :: nat
  thread_startRoutine :: nat
  thread_sys :: sysid
  thread_state :: thread_state

definition newMCThread :: "tid \<Rightarrow> nat \<Rightarrow> nat \<Rightarrow> sysid \<Rightarrow> mcthread" where
  "newMCThread t arg routine sys =
     \<lparr>thread_id = 0, thread_tid = t, thread_arg = arg, thread_startRoutine = routine,
      thread_sys = sys, thread_state = embryo\<rparr>"

definition MCThread_enabled :: "mcthread \<Rightarrow> bool" where
  "MCThread_enabled th \<longleftrightarrow> thread_state th = alive"

definition MCThread_isAlive :: "mcthread \<Rightarrow> bool" where
  "MCThread_isAlive th \<longleftrightarrow> thread_state th = alive \<or> thread_state th = sleeping"

definition MCThread_isDead :: "mcthread \<Rightarrow> bool" where
  "MCThread_isDead th \<longleftrightarrow> thread_state th = dead"

definition MCThread_awaken :: "mcthread \<Rightarrow> mcthread" where
  "MCThread_awaken th = th\<lparr>thread_state := alive\<rparr>"

definition MCThread_die :: "mcthread \<Rightarrow> mcthread" where
  "MCThread_die th = th\<lparr>thread_state := dead\<rparr>"

definition MCThread_sleep :: "mcthread \<Rightarrow> mcthread" where
  "MCThread_sleep th = th\<lparr>thread_state := sleeping\<rparr>"

definition MCThread_spawn :: "mcthread \<Rightarrow> mcthread" where
  "MCThread_spawn th = th\<lparr>thread_state := alive\<rparr>"

definition MCThread_despawn :: "mcthread \<Rightarrow> mcthread" where
  "MCThread_despawn th = th\<lparr>thread_state := embryo\<rparr>"

definition MCThread_regenerate :: "mcthread \<Rightarrow> mcthread" where
  "MCThread_regenerate th = th\<lparr>thread_state := alive\<rparr>"

named_theorems thread_simps "unfolding of the thread operations"

lemmas thread_defs [thread_simps] =
  MCThread_enabled_def MCThread_isAlive_def MCThread_isDead_def MCThread_awaken_def
  MCThread_die_def MCThread_sleep_def MCThread_spawn_def MCThread_despawn_def
  MCThread_regenerate_def

lemma thread_keeps_identity [simp]:
  "thread_id (MCThread_die th) = thread_id th" "thread_tid (MCThread_die th) = thread_tid th"
  "thread_id (MCThread_spawn th) = thread_id th" "thread_tid (MCThread_spawn th) = thread_tid th"
  "thread_id (MCThread_regenerate th) = thread_id th"
  "thread_tid (MCThread_regenerate th) = thread_tid th"
  "thread_id (MCThread_awaken th) = thread_id th" "thread_tid (MCThread_awaken th) = thread_tid th"
  "thread_id (MCThread_sleep th) = thread_id th" "thread_tid (MCThread_sleep th) = thread_tid th"
  "thread_id (MCThread_despawn th) = thread_id th"
  "thread_tid (MCThread_despawn th) = thread_tid th"
  by (simp_all add: thread_simps)

lemma thread_die_regenerate:
  "thread_state th = alive \<Longrightarrow> MCThread_regenerate (MCThread_die th) = th"
  by (simp add: thread_simps)

section \<open>Global variables\<close>

record mcglobal =
  global_id :: objid
  global_addr :: sysid
  global_val :: u64

definition newMCGlobalVariable :: "sysid \<Rightarrow> u64 \<Rightarrow> mcglobal" where
  "newMCGlobalVariable a v = \<lparr>global_id = 0, global_addr = a, global_val = v\<rparr>"

definition MCGlobalVariable_eq :: "mcglobal \<Rightarrow> mcglobal \<Rightarrow> bool" where
  "MCGlobalVariable_eq g h \<longleftrightarrow> global_addr g = global_addr h"

end
