(* ===== verification/SemaphoreObj.thy ===== *)
theory SemaphoreObj
  imports Prelude
begin

text \<open>
  \<^verbatim>\<open>MCSemaphore\<close> (\<^verbatim>\<open>include/objects/MCSemaphore.h\<close>, \<^verbatim>\<open>src/objects/MCSemaphore.cpp\<close>).  The count and
  the number of allowed spurious wakeups are \<^verbatim>\<open>unsigned int\<close>; the waiting queue is a \<^verbatim>\<open>deque\<close>.
  \<^verbatim>\<open>std::find(...) == begin()\<close> holds of the first element and of the empty queue, where \<^verbatim>\<open>begin()\<close>
  and \<^verbatim>\<open>end()\<close> coincide.
\<close>

datatype sem_state = sem_undefined | sem_initialized | sem_destroyed

record mcsem =
  sem_id :: objid
  sem_sys :: sysid
  sem_count :: u32
  sem_state :: sem_state
  sem_spuriousWakeupCount :: u32
  sem_waitingQueue :: "tid list"

definition newMCSemaphore :: "sysid \<Rightarrow> u32 \<Rightarrow> mcsem" where
  "newMCSemaphore sys n =
     \<lparr>sem_id = 0, sem_sys = sys, sem_count = n, sem_state = sem_undefined,
      sem_spuriousWakeupCount = 0, sem_waitingQueue = []\<rparr>"

definition MCSemaphore_eq :: "mcsem \<Rightarrow> mcsem \<Rightarrow> bool" where
  "MCSemaphore_eq s r \<longleftrightarrow> sem_sys s = sem_sys r"

definition MCSemaphore_isDestroyed :: "mcsem \<Rightarrow> bool" where
  "MCSemaphore_isDestroyed s \<longleftrightarrow> sem_state s = sem_destroyed"

definition MCSemaphore_wouldBlockIfWaitedOn :: "mcsem \<Rightarrow> bool" where
  "MCSemaphore_wouldBlockIfWaitedOn s \<longleftrightarrow> sem_count s \<le> 0"

definition preferSpuriousWakeupsWhenPossible :: bool where
  "preferSpuriousWakeupsWhenPossible = True"

definition MCSemaphore_threadCanExitWithSpuriousWakeup :: "tid \<Rightarrow> mcsem \<Rightarrow> bool" where
  "MCSemaphore_threadCanExitWithSpuriousWakeup t s \<longleftrightarrow> sem_spuriousWakeupCount s > 0"

text \<open>The position \<^verbatim>\<open>std::find\<close> returns: the index of the first occurrence, or the length.\<close>

fun find_index :: "tid \<Rightarrow> tid list \<Rightarrow> nat" where
  "find_index t [] = 0"
| "find_index t (u # q) = (if u = t then 0 else Suc (find_index t q))"

definition MCSemaphore_threadCanExitBasedOnSleepPosition :: "tid \<Rightarrow> mcsem \<Rightarrow> bool" where
  "MCSemaphore_threadCanExitBasedOnSleepPosition t s \<longleftrightarrow> find_index t (sem_waitingQueue s) = 0"

definition MCSemaphore_threadCanExit :: "tid \<Rightarrow> mcsem \<Rightarrow> bool" where
  "MCSemaphore_threadCanExit t s \<longleftrightarrow>
     \<not> MCSemaphore_wouldBlockIfWaitedOn s \<and> MCSemaphore_threadCanExitBasedOnSleepPosition t s"

definition MCSemaphore_leaveWaitingQueue :: "tid \<Rightarrow> mcsem \<Rightarrow> mcsem" where
  "MCSemaphore_leaveWaitingQueue t s =
     (let s' = s\<lparr>sem_waitingQueue := remove1 t (sem_waitingQueue s)\<rparr> in
      if MCSemaphore_threadCanExitWithSpuriousWakeup t s' then
        if MCSemaphore_threadCanExitBasedOnSleepPosition t s' then
          if preferSpuriousWakeupsWhenPossible
          then s'\<lparr>sem_spuriousWakeupCount := sem_spuriousWakeupCount s' - 1\<rparr> else s'
        else s'\<lparr>sem_spuriousWakeupCount := sem_spuriousWakeupCount s' - 1\<rparr>
      else s')"

definition MCSemaphore_enterWaitingQueue :: "tid \<Rightarrow> mcsem \<Rightarrow> mcsem" where
  "MCSemaphore_enterWaitingQueue t s = s\<lparr>sem_waitingQueue := sem_waitingQueue s @ [t]\<rparr>"

definition MCSemaphore_deinit :: "mcsem \<Rightarrow> mcsem" where
  "MCSemaphore_deinit s = s\<lparr>sem_state := sem_undefined\<rparr>"

definition MCSemaphore_init :: "mcsem \<Rightarrow> mcsem" where
  "MCSemaphore_init s = s\<lparr>sem_state := sem_initialized\<rparr>"

definition MCSemaphore_post :: "mcsem \<Rightarrow> mcsem" where
  "MCSemaphore_post s = s\<lparr>sem_count := sem_count s + 1\<rparr>"

definition MCSemaphore_wait :: "mcsem \<Rightarrow> mcsem" where
  "MCSemaphore_wait s = (if sem_count s > 0 then s\<lparr>sem_count := sem_count s - 1\<rparr> else s)"

named_theorems sem_simps "unfolding of the semaphore operations"

lemmas sem_defs [sem_simps] =
  MCSemaphore_eq_def MCSemaphore_isDestroyed_def MCSemaphore_wouldBlockIfWaitedOn_def
  preferSpuriousWakeupsWhenPossible_def MCSemaphore_threadCanExitWithSpuriousWakeup_def
  MCSemaphore_threadCanExitBasedOnSleepPosition_def MCSemaphore_threadCanExit_def
  MCSemaphore_leaveWaitingQueue_def MCSemaphore_enterWaitingQueue_def MCSemaphore_deinit_def
  MCSemaphore_init_def MCSemaphore_post_def MCSemaphore_wait_def

section \<open>Counting and first-in-first-out order\<close>

lemma find_index_0: "find_index t q = 0 \<longleftrightarrow> q = [] \<or> hd q = t"
  by (cases q) auto

lemma canExit_iff:
  "MCSemaphore_threadCanExit t s \<longleftrightarrow>
     sem_count s \<noteq> 0 \<and> (sem_waitingQueue s = [] \<or> hd (sem_waitingQueue s) = t)"
  by (simp add: sem_simps find_index_0)

lemma sem_post_count:
  "unat (sem_count s) < 2 ^ 32 - 1 \<Longrightarrow> unat (sem_count (MCSemaphore_post s)) = Suc (unat (sem_count s))"
  by (simp add: sem_simps unat_word_ariths)

lemma sem_wait_count: "unat (sem_count (MCSemaphore_wait s)) = unat (sem_count s) - 1"
  by (cases "sem_count s = 0") (auto simp: sem_simps unat_minus_one word_neq_0_conv [symmetric])

lemma sem_wait_post:
  "sem_count s \<noteq> - 1 \<Longrightarrow> MCSemaphore_wait (MCSemaphore_post s) = s"
  by (auto simp: sem_simps word_neq_0_conv eq_neg_iff_add_eq_0)

lemma sem_queue_post_wait [simp]:
  "sem_waitingQueue (MCSemaphore_post s) = sem_waitingQueue s"
  "sem_waitingQueue (MCSemaphore_wait s) = sem_waitingQueue s"
  "sem_spuriousWakeupCount (MCSemaphore_post s) = sem_spuriousWakeupCount s"
  "sem_spuriousWakeupCount (MCSemaphore_wait s) = sem_spuriousWakeupCount s"
  by (simp_all add: sem_simps)

lemma sem_keeps_identity [simp]:
  "sem_id (MCSemaphore_post s) = sem_id s" "sem_sys (MCSemaphore_post s) = sem_sys s"
  "sem_id (MCSemaphore_wait s) = sem_id s" "sem_sys (MCSemaphore_wait s) = sem_sys s"
  "sem_id (MCSemaphore_init s) = sem_id s" "sem_sys (MCSemaphore_init s) = sem_sys s"
  "sem_id (MCSemaphore_deinit s) = sem_id s" "sem_sys (MCSemaphore_deinit s) = sem_sys s"
  "sem_id (MCSemaphore_enterWaitingQueue t s) = sem_id s"
  "sem_sys (MCSemaphore_enterWaitingQueue t s) = sem_sys s"
  "sem_id (MCSemaphore_leaveWaitingQueue t s) = sem_id s"
  "sem_sys (MCSemaphore_leaveWaitingQueue t s) = sem_sys s"
  by (simp_all add: sem_simps Let_def)

lemma sem_leave_no_spurious:
  "sem_spuriousWakeupCount s = 0 \<Longrightarrow>
     MCSemaphore_leaveWaitingQueue t s = s\<lparr>sem_waitingQueue := remove1 t (sem_waitingQueue s)\<rparr>"
  by (simp add: sem_simps Let_def)

lemma sem_leave_enter_empty:
  "sem_spuriousWakeupCount s = 0 \<Longrightarrow> sem_waitingQueue s = [] \<Longrightarrow>
     MCSemaphore_leaveWaitingQueue t (MCSemaphore_enterWaitingQueue t s) = s"
  by (simp add: sem_simps Let_def)

end
