(* ===== verification/CondPolicy.thy ===== *)
theory CondPolicy
  imports Prelude
begin

text \<open>
  How a condition variable chooses which waiters may leave: \<^verbatim>\<open>WakeGroup\<close> and the policy classes under
  \<^verbatim>\<open>include/misc/cond\<close> and \<^verbatim>\<open>src/misc/cond\<close>.  The class hierarchy is a hierarchy of extensible records
  (\<^verbatim>\<open>Default\<close> \<open>\<rightarrow>\<close> \<^verbatim>\<open>SingleGroup\<close> \<open>\<rightarrow>\<close> \<^verbatim>\<open>Arbitrary\<close>/\<^verbatim>\<open>Ordered\<close>, and \<^verbatim>\<open>Default\<close> \<open>\<rightarrow>\<close>
  \<^verbatim>\<open>GLibc\<close>), an overridden method calls its parent's on the same record, and \<open>policy\<close> with its
  dispatchers is the virtual call.  \<open>wakeup_policy\<close> states what a policy promises.
\<close>

section \<open>Wake groups and the default policy\<close>

type_synonym wake_group = "tid list"

definition WakeGroup_contains :: "tid \<Rightarrow> wake_group \<Rightarrow> bool" where
  "WakeGroup_contains t wg \<longleftrightarrow> t \<in> set wg"

definition WakeGroup_remove_candidate_thread :: "tid \<Rightarrow> wake_group \<Rightarrow> wake_group" where
  "WakeGroup_remove_candidate_thread t wg = removeAll t wg"

record default_policy =
  broadcast_eligible_threads :: "tid set"
  wake_groups :: "wake_group list"

definition Default_receive_broadcast_message :: "'a default_policy_scheme \<Rightarrow> 'a default_policy_scheme" where
  "Default_receive_broadcast_message p =
     p\<lparr>broadcast_eligible_threads :=
         broadcast_eligible_threads p \<union> (\<Union>wg \<in> set (wake_groups p). set wg),
       wake_groups := []\<rparr>"

definition Default_has_waiters :: "'a default_policy_scheme \<Rightarrow> bool" where
  "Default_has_waiters p \<longleftrightarrow> broadcast_eligible_threads p \<noteq> {} \<or> wake_groups p \<noteq> []"

definition Default_thread_can_exit :: "tid \<Rightarrow> 'a default_policy_scheme \<Rightarrow> bool" where
  "Default_thread_can_exit t p \<longleftrightarrow>
     t \<in> broadcast_eligible_threads p \<or> list_ex (WakeGroup_contains t) (wake_groups p)"

text \<open>\<^verbatim>\<open>find_if\<close> followed by \<^verbatim>\<open>erase\<close>: drop the first group that satisfies the predicate.\<close>

fun erase_first :: "('a \<Rightarrow> bool) \<Rightarrow> 'a list \<Rightarrow> 'a list" where
  "erase_first P [] = []"
| "erase_first P (x # xs) = (if P x then xs else x # erase_first P xs)"

definition Default_wake_thread ::
  "tid \<Rightarrow> 'a default_policy_scheme \<Rightarrow> 'a default_policy_scheme result" where
  "Default_wake_thread t p =
     bindR
       (if t \<in> broadcast_eligible_threads p
        then Inr (p\<lparr>broadcast_eligible_threads := broadcast_eligible_threads p - {t}\<rparr>)
        else guardR AssertFailed (list_ex (WakeGroup_contains t) (wake_groups p))
               (Inr (p\<lparr>wake_groups := erase_first (WakeGroup_contains t) (wake_groups p)\<rparr>)))
       (\<lambda>p'. Inr (p'\<lparr>wake_groups := map (WakeGroup_remove_candidate_thread t) (wake_groups p')\<rparr>))"

section \<open>The single-group policies\<close>

record single_group_policy = default_policy +
  wait_queue :: "tid list"

definition newSingleGroupPolicy :: single_group_policy where
  "newSingleGroupPolicy = \<lparr>broadcast_eligible_threads = {}, wake_groups = [], wait_queue = []\<rparr>"

definition SingleGroup_receive_broadcast_message ::
  "single_group_policy \<Rightarrow> single_group_policy" where
  "SingleGroup_receive_broadcast_message p =
     (let p' = Default_receive_broadcast_message p in
      p'\<lparr>broadcast_eligible_threads := broadcast_eligible_threads p' \<union> set (wait_queue p'),
         wake_groups := []\<rparr>)"

definition SingleGroup_wake_thread :: "tid \<Rightarrow> single_group_policy \<Rightarrow> single_group_policy result" where
  "SingleGroup_wake_thread t p =
     bindR (Default_wake_thread t p)
       (\<lambda>p'. Inr (p'\<lparr>wait_queue := remove1 t (wait_queue p')\<rparr>))"

definition SingleGroup_add_waiter :: "tid \<Rightarrow> single_group_policy \<Rightarrow> single_group_policy" where
  "SingleGroup_add_waiter t p = p\<lparr>wait_queue := wait_queue p @ [t]\<rparr>"

definition SingleGroup_has_waiters :: "single_group_policy \<Rightarrow> bool" where
  "SingleGroup_has_waiters p \<longleftrightarrow> wait_queue p \<noteq> []"

definition Arbitrary_receive_signal_message :: "single_group_policy \<Rightarrow> single_group_policy" where
  "Arbitrary_receive_signal_message p =
     (if wait_queue p \<noteq> [] then p\<lparr>wake_groups := wake_groups p @ [wait_queue p]\<rparr> else p)"

definition Arbitrary_has_waiters :: "single_group_policy \<Rightarrow> bool" where
  "Arbitrary_has_waiters p \<longleftrightarrow> wait_queue p \<noteq> []"

datatype wake_order = fifo | lifo

definition Ordered_receive_signal_message ::
  "wake_order \<Rightarrow> single_group_policy \<Rightarrow> single_group_policy" where
  "Ordered_receive_signal_message ord p =
     (if wait_queue p \<noteq> [] then
        (case ord of
           fifo \<Rightarrow> p\<lparr>wait_queue := tl (wait_queue p),
                     wake_groups := wake_groups p @ [[hd (wait_queue p)]]\<rparr>
         | lifo \<Rightarrow> p\<lparr>wait_queue := butlast (wait_queue p),
                     wake_groups := wake_groups p @ [[last (wait_queue p)]]\<rparr>)
      else p)"

section \<open>The GLibc policy\<close>

record glibc_policy = default_policy +
  group1 :: "tid list"
  group2 :: "tid list"

definition newGLibcPolicy :: glibc_policy where
  "newGLibcPolicy =
     \<lparr>broadcast_eligible_threads = {}, wake_groups = [], group1 = [], group2 = []\<rparr>"

definition GLibc_receive_broadcast_message :: "glibc_policy \<Rightarrow> glibc_policy" where
  "GLibc_receive_broadcast_message p =
     (let p' = Default_receive_broadcast_message p in
      p'\<lparr>broadcast_eligible_threads :=
           broadcast_eligible_threads p' \<union> set (group1 p') \<union> set (group2 p'),
         group1 := [], group2 := []\<rparr>)"

definition GLibc_receive_signal_message :: "glibc_policy \<Rightarrow> glibc_policy" where
  "GLibc_receive_signal_message p =
     (let p' = (if group1 p = [] then p\<lparr>group1 := group2 p, group2 := []\<rparr> else p) in
      if group1 p' \<noteq> [] then p'\<lparr>wake_groups := wake_groups p' @ [group1 p']\<rparr> else p')"

text \<open>
  Both searches of \<^verbatim>\<open>wake_thread\<close> run over the empty range from \<^verbatim>\<open>begin()\<close> to \<^verbatim>\<open>begin()\<close>, so they
  return \<^verbatim>\<open>begin()\<close>, which is \<^verbatim>\<open>end()\<close> exactly when the group is empty; erasing \<^verbatim>\<open>end()\<close> is
  \<open>OutOfBounds\<close>.
\<close>

definition GLibc_wake_thread :: "tid \<Rightarrow> glibc_policy \<Rightarrow> glibc_policy result" where
  "GLibc_wake_thread t p =
     bindR (Default_wake_thread t p)
       (\<lambda>p'. if group1 p' = [] then Inl OutOfBounds
             else guardR AssertFailed (group2 p' = []) (Inr p'))"

definition GLibc_add_waiter :: "tid \<Rightarrow> glibc_policy \<Rightarrow> glibc_policy" where
  "GLibc_add_waiter t p = p\<lparr>group2 := group2 p @ [t]\<rparr>"

definition GLibc_has_waiters :: "glibc_policy \<Rightarrow> bool" where
  "GLibc_has_waiters p \<longleftrightarrow> group1 p \<noteq> [] \<or> group2 p \<noteq> []"

section \<open>Virtual dispatch\<close>

datatype policy =
    ArbitraryPolicy single_group_policy
  | OrderedPolicy wake_order single_group_policy
  | GLibcPolicy glibc_policy

definition receive_signal_message :: "policy \<Rightarrow> policy" where
  "receive_signal_message q = (case q of
      ArbitraryPolicy p \<Rightarrow> ArbitraryPolicy (Arbitrary_receive_signal_message p)
    | OrderedPolicy ord p \<Rightarrow> OrderedPolicy ord (Ordered_receive_signal_message ord p)
    | GLibcPolicy p \<Rightarrow> GLibcPolicy (GLibc_receive_signal_message p))"

definition receive_broadcast_message :: "policy \<Rightarrow> policy" where
  "receive_broadcast_message q = (case q of
      ArbitraryPolicy p \<Rightarrow> ArbitraryPolicy (SingleGroup_receive_broadcast_message p)
    | OrderedPolicy ord p \<Rightarrow> OrderedPolicy ord (SingleGroup_receive_broadcast_message p)
    | GLibcPolicy p \<Rightarrow> GLibcPolicy (GLibc_receive_broadcast_message p))"

definition thread_can_exit :: "tid \<Rightarrow> policy \<Rightarrow> bool" where
  "thread_can_exit t q = (case q of
      ArbitraryPolicy p \<Rightarrow> Default_thread_can_exit t p
    | OrderedPolicy ord p \<Rightarrow> Default_thread_can_exit t p
    | GLibcPolicy p \<Rightarrow> Default_thread_can_exit t p)"

definition wake_thread :: "tid \<Rightarrow> policy \<Rightarrow> policy result" where
  "wake_thread t q = (case q of
      ArbitraryPolicy p \<Rightarrow> bindR (SingleGroup_wake_thread t p) (\<lambda>p'. Inr (ArbitraryPolicy p'))
    | OrderedPolicy ord p \<Rightarrow> bindR (SingleGroup_wake_thread t p) (\<lambda>p'. Inr (OrderedPolicy ord p'))
    | GLibcPolicy p \<Rightarrow> bindR (GLibc_wake_thread t p) (\<lambda>p'. Inr (GLibcPolicy p')))"

definition add_waiter :: "tid \<Rightarrow> policy \<Rightarrow> policy" where
  "add_waiter t q = (case q of
      ArbitraryPolicy p \<Rightarrow> ArbitraryPolicy (SingleGroup_add_waiter t p)
    | OrderedPolicy ord p \<Rightarrow> OrderedPolicy ord (SingleGroup_add_waiter t p)
    | GLibcPolicy p \<Rightarrow> GLibcPolicy (GLibc_add_waiter t p))"

definition has_waiters :: "policy \<Rightarrow> bool" where
  "has_waiters q = (case q of
      ArbitraryPolicy p \<Rightarrow> Arbitrary_has_waiters p
    | OrderedPolicy ord p \<Rightarrow> SingleGroup_has_waiters p
    | GLibcPolicy p \<Rightarrow> GLibc_has_waiters p)"

named_theorems policy_simps "unfolding of the wakeup policies"

lemmas policy_defs [policy_simps] =
  WakeGroup_contains_def WakeGroup_remove_candidate_thread_def
  Default_receive_broadcast_message_def Default_has_waiters_def Default_thread_can_exit_def
  Default_wake_thread_def SingleGroup_receive_broadcast_message_def SingleGroup_wake_thread_def
  SingleGroup_add_waiter_def SingleGroup_has_waiters_def Arbitrary_receive_signal_message_def
  Arbitrary_has_waiters_def Ordered_receive_signal_message_def
  GLibc_receive_broadcast_message_def GLibc_receive_signal_message_def GLibc_wake_thread_def
  GLibc_add_waiter_def GLibc_has_waiters_def

lemmas policy_dispatch =
  receive_signal_message_def receive_broadcast_message_def thread_can_exit_def wake_thread_def
  add_waiter_def has_waiters_def

section \<open>What a policy promises\<close>

text \<open>
  \<open>waiting\<close> are the threads put to sleep and not yet woken; \<open>pardoned\<close> those a broadcast has
  released for good.
\<close>

locale wakeup_policy =
  fixes inv :: "'p \<Rightarrow> bool"
    and waiting :: "'p \<Rightarrow> tid set"
    and pardoned :: "'p \<Rightarrow> tid set"
    and can_exit :: "tid \<Rightarrow> 'p \<Rightarrow> bool"
    and add :: "tid \<Rightarrow> 'p \<Rightarrow> 'p"
    and signal :: "'p \<Rightarrow> 'p"
    and broadcast :: "'p \<Rightarrow> 'p"
    and wake :: "tid \<Rightarrow> 'p \<Rightarrow> 'p result"
  assumes exit_waiting: "inv p \<Longrightarrow> can_exit t p \<Longrightarrow> t \<in> waiting p"
    and pardoned_exit: "inv p \<Longrightarrow> t \<in> pardoned p \<Longrightarrow> can_exit t p"
    and add_law: "inv p \<Longrightarrow> t \<notin> waiting p \<Longrightarrow> inv (add t p) \<and> waiting (add t p) = insert t (waiting p)
      \<and> pardoned (add t p) = pardoned p \<and> (\<forall>u. can_exit u (add t p) \<longleftrightarrow> can_exit u p)"
    and signal_law: "inv p \<Longrightarrow> inv (signal p) \<and> waiting (signal p) = waiting p
      \<and> pardoned (signal p) = pardoned p \<and> (\<forall>u. can_exit u p \<longrightarrow> can_exit u (signal p))"
    and broadcast_law: "inv p \<Longrightarrow> inv (broadcast p) \<and> waiting (broadcast p) = waiting p
      \<and> pardoned (broadcast p) = waiting p"
    and wake_law: "inv p \<Longrightarrow> can_exit t p \<Longrightarrow> \<exists>p'. wake t p = Inr p' \<and> inv p'
      \<and> waiting p' = waiting p - {t} \<and> pardoned p' = pardoned p - {t}"
    and wake_refused: "inv p \<Longrightarrow> \<not> can_exit t p \<Longrightarrow> wake t p = Inl AssertFailed"
    and one_signal_one_thread: "inv p \<Longrightarrow> \<forall>u. \<not> can_exit u p \<Longrightarrow> wake t (signal p) = Inr p' \<Longrightarrow>
      \<not> can_exit u p'"
begin

text \<open>After a broadcast the pardoned threads leave in whatever order they are scheduled.\<close>

lemma pardoned_leave:
  assumes "inv p" and "distinct ts" and "set ts \<subseteq> pardoned p"
  shows "\<exists>p'. foldR wake ts p = Inr p' \<and> inv p' \<and> waiting p' = waiting p - set ts
    \<and> pardoned p' = pardoned p - set ts"
  using assms
proof (induction ts arbitrary: p)
  case Nil
  then show ?case by simp
next
  case (Cons t ts)
  have "can_exit t p" using Cons.prems pardoned_exit by simp
  with Cons.prems(1) obtain q where q: "wake t p = Inr q" "inv q" "waiting q = waiting p - {t}"
      "pardoned q = pardoned p - {t}"
    using wake_law by blast
  have "set ts \<subseteq> pardoned q" "distinct ts" using Cons.prems(2,3) q(4) by auto
  from Cons.IH [OF q(2) this(2,1)] show ?case
    using q by auto
qed

lemma broadcast_releases_all:
  assumes "inv p" and "distinct ts" and "set ts = waiting p"
  shows "\<exists>p'. foldR wake ts (broadcast p) = Inr p' \<and> inv p' \<and> waiting p' = {}"
proof -
  have "inv (broadcast p)" "pardoned (broadcast p) = waiting p" "waiting (broadcast p) = waiting p"
    using broadcast_law assms(1) by auto
  from pardoned_leave [OF this(1) assms(2)] this(2,3) show ?thesis using assms(3) by auto
qed

lemma signal_wakes_at_most_one:
  assumes "inv p" and "\<forall>u. \<not> can_exit u p" and "wake t (signal p) = Inr p'"
  shows "t \<in> waiting p \<and> wake u p' = Inl AssertFailed"
proof -
  have s: "inv (signal p)" "waiting (signal p) = waiting p" using signal_law assms(1) by auto
  have can: "can_exit t (signal p)" using wake_refused [OF s(1), of t] assms(3) by fastforce
  then have "inv p'" using wake_law [OF s(1) can] assms(3) by simp
  then show ?thesis
    using exit_waiting [OF s(1) can] s(2) one_signal_one_thread [OF assms] wake_refused by simp
qed

end

text \<open>A fair policy lets a signal release somebody whenever somebody is still blocked.\<close>

locale fair_wakeup_policy = wakeup_policy +
  assumes signal_progress: "inv p \<Longrightarrow> t \<in> waiting p \<Longrightarrow> \<not> can_exit t p \<Longrightarrow>
    \<exists>u \<in> waiting p. \<not> can_exit u p \<and> can_exit u (signal p)"
begin

lemma signals_until_free:
  assumes "inv p" and "t \<in> waiting p"
  shows "\<exists>u. can_exit u (signal p)"
  using assms signal_progress signal_law by (cases "can_exit t p") blast+

end

section \<open>The single-group policies keep the promise\<close>

lemma set_erase_first: "set (erase_first P xs) \<subseteq> set xs"
  by (induction xs) auto

lemma erase_first_last: "\<forall>y \<in> set xs. \<not> P y \<Longrightarrow> P x \<Longrightarrow> erase_first P (xs @ [x]) = xs"
  by (induction xs) auto

lemma erase_first_members:
  assumes "\<forall>g \<in> set gs. length g \<le> 1"
  shows "(\<Union>g \<in> set gs. set g) - {t} = (\<Union>g \<in> set (erase_first (\<lambda>g. t \<in> set g) gs). set g) - {t}"
  using assms
proof (induction gs)
  case (Cons g gs)
  then show ?case by (cases g) auto
qed simp

definition blocked_by_none :: "'a default_policy_scheme \<Rightarrow> bool" where
  "blocked_by_none p \<longleftrightarrow> broadcast_eligible_threads p = {} \<and> (\<forall>g \<in> set (wake_groups p). g = [])"

lemma nobody_can_exit: "(\<forall>u. \<not> Default_thread_can_exit u p) \<longleftrightarrow> blocked_by_none p"
  by (simp add: Default_thread_can_exit_def WakeGroup_contains_def list_ex_iff blocked_by_none_def)
     (metis all_not_in_conv set_empty empty_iff list.set(1))

text \<open>Waking the only thread a fresh group admits leaves nobody released.\<close>

lemma wake_from_last_group:
  assumes "blocked_by_none p" and "SingleGroup_wake_thread t 
    (p\<lparr>wait_queue := q, wake_groups := wake_groups p @ [g]\<rparr>) = Inr p'"
  shows "blocked_by_none p'"
proof -
  have none: "\<forall>g \<in> set (wake_groups p). t \<notin> set g" and el: "broadcast_eligible_threads p = {}"
    using assms(1) by (auto simp: blocked_by_none_def)
  from assms(2) el none have "t \<in> set g"
    by (auto simp: SingleGroup_wake_thread_def Default_wake_thread_def result_simps list_ex_iff
        WakeGroup_contains_def)
  then have "erase_first (WakeGroup_contains t) (wake_groups p @ [g]) = wake_groups p"
    using none by (simp add: erase_first_last WakeGroup_contains_def)
  then show ?thesis
    using assms el
    by (fastforce simp: SingleGroup_wake_thread_def Default_wake_thread_def result_simps
        blocked_by_none_def WakeGroup_remove_candidate_thread_def)
qed

definition arbitrary_inv :: "single_group_policy \<Rightarrow> bool" where
  "arbitrary_inv p \<longleftrightarrow> distinct (wait_queue p)
     \<and> broadcast_eligible_threads p \<subseteq> set (wait_queue p)
     \<and> (\<forall>g \<in> set (wake_groups p). set g \<subseteq> set (wait_queue p))"

definition arbitrary_waiting :: "single_group_policy \<Rightarrow> tid set" where
  "arbitrary_waiting p = set (wait_queue p)"

lemma arbitrary_wake:
  assumes "arbitrary_inv p" and "Default_thread_can_exit t p"
  shows "\<exists>p'. SingleGroup_wake_thread t p = Inr p' \<and> arbitrary_inv p'
    \<and> arbitrary_waiting p' = arbitrary_waiting p - {t}
    \<and> broadcast_eligible_threads p' = broadcast_eligible_threads p - {t}"
proof (cases "t \<in> broadcast_eligible_threads p")
  case True
  then show ?thesis
    using assms(1)
    by (fastforce simp: SingleGroup_wake_thread_def Default_wake_thread_def arbitrary_inv_def
        arbitrary_waiting_def WakeGroup_remove_candidate_thread_def)
next
  case False
  then have "list_ex (WakeGroup_contains t) (wake_groups p)"
    using assms(2) by (simp add: Default_thread_can_exit_def)
  moreover have "\<forall>g \<in> set (erase_first (WakeGroup_contains t) (wake_groups p)).
      set g \<subseteq> set (wait_queue p)"
    using assms(1) set_erase_first by (fastforce simp: arbitrary_inv_def)
  ultimately show ?thesis
    using assms(1) False
    by (auto simp: SingleGroup_wake_thread_def Default_wake_thread_def arbitrary_inv_def
        arbitrary_waiting_def WakeGroup_remove_candidate_thread_def)
qed

lemma wake_refused_default:
  "\<not> Default_thread_can_exit t p \<Longrightarrow> SingleGroup_wake_thread t p = Inl AssertFailed"
  by (simp add: Default_thread_can_exit_def SingleGroup_wake_thread_def Default_wake_thread_def)

interpretation arbitrary: fair_wakeup_policy arbitrary_inv arbitrary_waiting
    broadcast_eligible_threads Default_thread_can_exit SingleGroup_add_waiter
    Arbitrary_receive_signal_message SingleGroup_receive_broadcast_message SingleGroup_wake_thread
proof unfold_locales
  fix p t
  assume "arbitrary_inv p" "Default_thread_can_exit t p"
  then show "t \<in> arbitrary_waiting p"
    by (auto simp: arbitrary_inv_def arbitrary_waiting_def Default_thread_can_exit_def
        WakeGroup_contains_def list_ex_iff)
  from \<open>arbitrary_inv p\<close> \<open>Default_thread_can_exit t p\<close>
  show "\<exists>p'. SingleGroup_wake_thread t p = Inr p' \<and> arbitrary_inv p'
      \<and> arbitrary_waiting p' = arbitrary_waiting p - {t}
      \<and> broadcast_eligible_threads p' = broadcast_eligible_threads p - {t}"
    by (rule arbitrary_wake)
next
  fix p :: single_group_policy and t
  assume "t \<in> broadcast_eligible_threads p"
  then show "Default_thread_can_exit t p" by (simp add: Default_thread_can_exit_def)
next
  fix p t
  assume "arbitrary_inv p" "t \<notin> arbitrary_waiting p"
  then show "arbitrary_inv (SingleGroup_add_waiter t p)
      \<and> arbitrary_waiting (SingleGroup_add_waiter t p) = insert t (arbitrary_waiting p)
      \<and> broadcast_eligible_threads (SingleGroup_add_waiter t p) = broadcast_eligible_threads p
      \<and> (\<forall>u. Default_thread_can_exit u (SingleGroup_add_waiter t p) \<longleftrightarrow> Default_thread_can_exit u p)"
    by (auto simp: arbitrary_inv_def arbitrary_waiting_def SingleGroup_add_waiter_def
        Default_thread_can_exit_def)
next
  fix p
  assume "arbitrary_inv p"
  then show "arbitrary_inv (Arbitrary_receive_signal_message p)
      \<and> arbitrary_waiting (Arbitrary_receive_signal_message p) = arbitrary_waiting p
      \<and> broadcast_eligible_threads (Arbitrary_receive_signal_message p) = broadcast_eligible_threads p
      \<and> (\<forall>u. Default_thread_can_exit u p \<longrightarrow>
            Default_thread_can_exit u (Arbitrary_receive_signal_message p))"
    by (auto simp: arbitrary_inv_def arbitrary_waiting_def Arbitrary_receive_signal_message_def
        Default_thread_can_exit_def)
  from \<open>arbitrary_inv p\<close>
  show "arbitrary_inv (SingleGroup_receive_broadcast_message p)
      \<and> arbitrary_waiting (SingleGroup_receive_broadcast_message p) = arbitrary_waiting p
      \<and> broadcast_eligible_threads (SingleGroup_receive_broadcast_message p) = arbitrary_waiting p"
    by (auto simp: arbitrary_inv_def arbitrary_waiting_def SingleGroup_receive_broadcast_message_def
        Default_receive_broadcast_message_def Let_def)
next
  fix p :: single_group_policy and t
  assume "\<not> Default_thread_can_exit t p"
  then show "SingleGroup_wake_thread t p = Inl AssertFailed" by (rule wake_refused_default)
next
  fix p :: single_group_policy and t p' u
  assume "\<forall>u. \<not> Default_thread_can_exit u p"
    and "SingleGroup_wake_thread t (Arbitrary_receive_signal_message p) = Inr p'"
  then show "\<not> Default_thread_can_exit u p'"
    using wake_from_last_group [of p t "wait_queue p" "wait_queue p" p'] wake_refused_default [of t p]
    by (auto simp: nobody_can_exit [symmetric] Arbitrary_receive_signal_message_def split: if_splits)
next
  fix p t
  assume "arbitrary_inv p" "t \<in> arbitrary_waiting p" "\<not> Default_thread_can_exit t p"
  then show "\<exists>u \<in> arbitrary_waiting p. \<not> Default_thread_can_exit u p
      \<and> Default_thread_can_exit u (Arbitrary_receive_signal_message p)"
    by (intro bexI [of _ t])
       (auto simp: arbitrary_waiting_def Arbitrary_receive_signal_message_def
        Default_thread_can_exit_def WakeGroup_contains_def)
qed

definition ordered_inv :: "single_group_policy \<Rightarrow> bool" where
  "ordered_inv p \<longleftrightarrow> distinct (wait_queue p) \<and> (\<forall>g \<in> set (wake_groups p). length g \<le> 1)"

definition ordered_waiting :: "single_group_policy \<Rightarrow> tid set" where
  "ordered_waiting p = set (wait_queue p) \<union> broadcast_eligible_threads p
     \<union> (\<Union>g \<in> set (wake_groups p). set g)"

lemma ordered_signal:
  "\<exists>g q. Ordered_receive_signal_message ord p =
      (if wait_queue p = [] then p else p\<lparr>wait_queue := q, wake_groups := wake_groups p @ [[g]]\<rparr>)
     \<and> (wait_queue p \<noteq> [] \<longrightarrow> set (wait_queue p) = insert g (set q)
        \<and> (distinct (wait_queue p) \<longrightarrow> distinct q))"
proof (cases ord)
  case fifo
  then show ?thesis
    by (cases "wait_queue p") (auto simp: Ordered_receive_signal_message_def)
next
  case lifo
  then show ?thesis
    by (cases "wait_queue p" rule: rev_cases) (auto simp: Ordered_receive_signal_message_def)
qed

lemma ordered_wake:
  assumes "ordered_inv p" and "Default_thread_can_exit t p"
  shows "\<exists>p'. SingleGroup_wake_thread t p = Inr p' \<and> ordered_inv p'
    \<and> ordered_waiting p' = ordered_waiting p - {t}
    \<and> broadcast_eligible_threads p' = broadcast_eligible_threads p - {t}"
proof (cases "t \<in> broadcast_eligible_threads p")
  case True
  then show ?thesis
    using assms(1)
    by (auto simp: SingleGroup_wake_thread_def Default_wake_thread_def ordered_inv_def
        ordered_waiting_def WakeGroup_remove_candidate_thread_def
        intro: le_trans [OF length_removeAll_less_eq])
next
  case False
  then have "list_ex (WakeGroup_contains t) (wake_groups p)"
    using assms(2) by (simp add: Default_thread_can_exit_def)
  moreover have "\<forall>g \<in> set (erase_first (WakeGroup_contains t) (wake_groups p)). length g \<le> 1"
    using assms(1) set_erase_first by (fastforce simp: ordered_inv_def)
  moreover have "(\<Union>g \<in> set (wake_groups p). set g) - {t} =
      (\<Union>g \<in> set (erase_first (WakeGroup_contains t) (wake_groups p)). set g) - {t}"
    using erase_first_members [of "wake_groups p" t] assms(1)
    by (simp add: ordered_inv_def WakeGroup_contains_def [abs_def])
  ultimately show ?thesis
    using assms(1) False
    by (auto simp: SingleGroup_wake_thread_def Default_wake_thread_def ordered_inv_def
        ordered_waiting_def WakeGroup_remove_candidate_thread_def
        intro: le_trans [OF length_removeAll_less_eq])
qed


interpretation ordered: wakeup_policy ordered_inv ordered_waiting broadcast_eligible_threads
    Default_thread_can_exit SingleGroup_add_waiter "Ordered_receive_signal_message ord"
    SingleGroup_receive_broadcast_message SingleGroup_wake_thread for ord
proof unfold_locales
  fix p t
  assume "ordered_inv p" "Default_thread_can_exit t p"
  then show "t \<in> ordered_waiting p"
    by (auto simp: ordered_waiting_def Default_thread_can_exit_def WakeGroup_contains_def list_ex_iff)
  from \<open>ordered_inv p\<close> \<open>Default_thread_can_exit t p\<close>
  show "\<exists>p'. SingleGroup_wake_thread t p = Inr p' \<and> ordered_inv p'
      \<and> ordered_waiting p' = ordered_waiting p - {t}
      \<and> broadcast_eligible_threads p' = broadcast_eligible_threads p - {t}"
    by (rule ordered_wake)
next
  fix p :: single_group_policy and t
  assume "t \<in> broadcast_eligible_threads p"
  then show "Default_thread_can_exit t p" by (simp add: Default_thread_can_exit_def)
next
  fix p t
  assume "ordered_inv p" "t \<notin> ordered_waiting p"
  then show "ordered_inv (SingleGroup_add_waiter t p)
      \<and> ordered_waiting (SingleGroup_add_waiter t p) = insert t (ordered_waiting p)
      \<and> broadcast_eligible_threads (SingleGroup_add_waiter t p) = broadcast_eligible_threads p
      \<and> (\<forall>u. Default_thread_can_exit u (SingleGroup_add_waiter t p) \<longleftrightarrow> Default_thread_can_exit u p)"
    by (auto simp: ordered_inv_def ordered_waiting_def SingleGroup_add_waiter_def
        Default_thread_can_exit_def)
next
  fix p
  assume inv: "ordered_inv p"
  then show "ordered_inv (Ordered_receive_signal_message ord p)
      \<and> ordered_waiting (Ordered_receive_signal_message ord p) = ordered_waiting p
      \<and> broadcast_eligible_threads (Ordered_receive_signal_message ord p) = broadcast_eligible_threads p
      \<and> (\<forall>u. Default_thread_can_exit u p \<longrightarrow>
            Default_thread_can_exit u (Ordered_receive_signal_message ord p))"
    using ordered_signal [of ord p]
    by (cases "wait_queue p = []")
       (auto simp: ordered_inv_def ordered_waiting_def Default_thread_can_exit_def)
  from inv show "ordered_inv (SingleGroup_receive_broadcast_message p)
      \<and> ordered_waiting (SingleGroup_receive_broadcast_message p) = ordered_waiting p
      \<and> broadcast_eligible_threads (SingleGroup_receive_broadcast_message p) = ordered_waiting p"
    by (auto simp: ordered_inv_def ordered_waiting_def SingleGroup_receive_broadcast_message_def
        Default_receive_broadcast_message_def Let_def)
next
  fix p :: single_group_policy and t
  assume "\<not> Default_thread_can_exit t p"
  then show "SingleGroup_wake_thread t p = Inl AssertFailed" by (rule wake_refused_default)
next
  fix p :: single_group_policy and t p' u
  assume none: "\<forall>u. \<not> Default_thread_can_exit u p"
    and wake: "SingleGroup_wake_thread t (Ordered_receive_signal_message ord p) = Inr p'"
  then have "wait_queue p \<noteq> []"
    using wake_refused_default [of t p] by (auto simp: Ordered_receive_signal_message_def)
  then obtain g q where "Ordered_receive_signal_message ord p =
      p\<lparr>wait_queue := q, wake_groups := wake_groups p @ [[g]]\<rparr>"
    using ordered_signal [of ord p] by auto
  then have "blocked_by_none p'"
    using wake_from_last_group [of p t "[g]" q p'] none wake by (simp add: nobody_can_exit)
  then show "\<not> Default_thread_can_exit u p'" by (simp add: nobody_can_exit [symmetric])
qed

end
