(* ===== verification/CondVar.thy ===== *)
theory CondVar
  imports CondPolicy
begin

text \<open>
  \<^verbatim>\<open>mcmini::ConditionVariable\<close> (\<^verbatim>\<open>include/objects/MCConditionVariable.h\<close>,
  \<^verbatim>\<open>src/objects/MCConditionVariable.cpp\<close>).  The mutex a condition variable is bound to is a
  \<^verbatim>\<open>shared_ptr\<close> to an object of the store: its object id, \<open>None\<close> for the null pointer.
\<close>

datatype cond_state = cond_undefined | cond_initialized | cond_destroyed

record mccond =
  cond_id :: objid
  cond_sys :: sysid
  cond_state :: cond_state
  cond_numRemainingSpuriousWakeups :: u32
  cond_policy :: policy
  cond_mutex :: "objid option"

definition newMCConditionVariable :: "sysid \<Rightarrow> policy \<Rightarrow> mccond" where
  "newMCConditionVariable sys pol =
     \<lparr>cond_id = 0, cond_sys = sys, cond_state = cond_undefined,
      cond_numRemainingSpuriousWakeups = 0, cond_policy = pol, cond_mutex = None\<rparr>"

definition MCConditionVariable_eq :: "mccond \<Rightarrow> mccond \<Rightarrow> bool" where
  "MCConditionVariable_eq c d \<longleftrightarrow> cond_sys c = cond_sys d"

definition MCConditionVariable_isInitialized :: "mccond \<Rightarrow> bool" where
  "MCConditionVariable_isInitialized c \<longleftrightarrow> cond_state c = cond_initialized"

definition MCConditionVariable_isDestroyed :: "mccond \<Rightarrow> bool" where
  "MCConditionVariable_isDestroyed c \<longleftrightarrow> cond_state c = cond_destroyed"

definition MCConditionVariable_initialize :: "mccond \<Rightarrow> mccond" where
  "MCConditionVariable_initialize c = c\<lparr>cond_state := cond_initialized\<rparr>"

definition MCConditionVariable_destroy :: "mccond \<Rightarrow> mccond" where
  "MCConditionVariable_destroy c = c\<lparr>cond_state := cond_destroyed\<rparr>"

definition MCConditionVariable_addWaiter :: "tid \<Rightarrow> mccond \<Rightarrow> mccond" where
  "MCConditionVariable_addWaiter t c = c\<lparr>cond_policy := add_waiter t (cond_policy c)\<rparr>"

definition MCConditionVariable_hasWaiters :: "mccond \<Rightarrow> bool" where
  "MCConditionVariable_hasWaiters c \<longleftrightarrow> has_waiters (cond_policy c)"

definition MCConditionVariable_removeWaiter :: "tid \<Rightarrow> mccond \<Rightarrow> mccond result" where
  "MCConditionVariable_removeWaiter t c =
     bindR (wake_thread t (cond_policy c)) (\<lambda>pol.
       let c' = c\<lparr>cond_policy := pol\<rparr> in
       Inr (if cond_numRemainingSpuriousWakeups c' > 0
            then c'\<lparr>cond_numRemainingSpuriousWakeups := cond_numRemainingSpuriousWakeups c' - 1\<rparr>
            else c'))"

definition MCConditionVariable_waiterCanExit :: "tid \<Rightarrow> mccond \<Rightarrow> bool" where
  "MCConditionVariable_waiterCanExit t c \<longleftrightarrow>
     cond_numRemainingSpuriousWakeups c > 0 \<or> thread_can_exit t (cond_policy c)"

definition MCConditionVariable_sendSignalMessage :: "mccond \<Rightarrow> mccond" where
  "MCConditionVariable_sendSignalMessage c =
     c\<lparr>cond_policy := receive_signal_message (cond_policy c)\<rparr>"

definition MCConditionVariable_sendBroadcastMessage :: "mccond \<Rightarrow> mccond" where
  "MCConditionVariable_sendBroadcastMessage c =
     c\<lparr>cond_policy := receive_broadcast_message (cond_policy c)\<rparr>"

named_theorems cond_simps "unfolding of the condition variable operations"

lemmas cond_defs [cond_simps] =
  MCConditionVariable_eq_def MCConditionVariable_isInitialized_def
  MCConditionVariable_isDestroyed_def MCConditionVariable_initialize_def
  MCConditionVariable_destroy_def MCConditionVariable_addWaiter_def
  MCConditionVariable_hasWaiters_def MCConditionVariable_removeWaiter_def
  MCConditionVariable_waiterCanExit_def MCConditionVariable_sendSignalMessage_def
  MCConditionVariable_sendBroadcastMessage_def

lemma cond_keeps_identity [simp]:
  "cond_id (MCConditionVariable_initialize c) = cond_id c"
  "cond_sys (MCConditionVariable_initialize c) = cond_sys c"
  "cond_id (MCConditionVariable_addWaiter t c) = cond_id c"
  "cond_sys (MCConditionVariable_addWaiter t c) = cond_sys c"
  "cond_id (MCConditionVariable_sendSignalMessage c) = cond_id c"
  "cond_sys (MCConditionVariable_sendSignalMessage c) = cond_sys c"
  "cond_id (MCConditionVariable_sendBroadcastMessage c) = cond_id c"
  "cond_sys (MCConditionVariable_sendBroadcastMessage c) = cond_sys c"
  by (simp_all add: cond_simps)

lemma removeWaiter_keeps_identity:
  "MCConditionVariable_removeWaiter t c = Inr c' \<Longrightarrow> cond_id c' = cond_id c \<and> cond_sys c' = cond_sys c"
  by (auto simp: cond_simps result_simps Let_def split: if_splits)

end
