(* ===== verification/BarrierObj.thy ===== *)
theory BarrierObj
  imports Prelude
begin

text \<open>
  \<^verbatim>\<open>MCBarrier\<close> (\<^verbatim>\<open>include/objects/MCBarrier.h\<close>, \<^verbatim>\<open>src/objects/MCBarrier.cpp\<close>): two sets of waiting
  threads that take turns.  The user-written copy constructor copies the shadow and the object id
  only, so a copy starts with empty sets and odd parity.
\<close>

datatype barrier_state = barrier_undefined | barrier_initialized | barrier_destroyed

record mcbarrier =
  barrier_id :: objid
  barrier_sys :: sysid
  barrier_waitCount :: u32
  barrier_state :: barrier_state
  threadsWaitingOnBarrierOdd :: "tid set"
  threadsWaitingOnBarrierEven :: "tid set"
  barrier_isEven :: bool

definition newMCBarrier :: "sysid \<Rightarrow> u32 \<Rightarrow> mcbarrier" where
  "newMCBarrier sys n =
     \<lparr>barrier_id = 0, barrier_sys = sys, barrier_waitCount = n, barrier_state = barrier_undefined,
      threadsWaitingOnBarrierOdd = {}, threadsWaitingOnBarrierEven = {}, barrier_isEven = False\<rparr>"

definition MCBarrier_copy :: "mcbarrier \<Rightarrow> mcbarrier" where
  "MCBarrier_copy b =
     \<lparr>barrier_id = barrier_id b, barrier_sys = barrier_sys b,
      barrier_waitCount = barrier_waitCount b, barrier_state = barrier_state b,
      threadsWaitingOnBarrierOdd = {}, threadsWaitingOnBarrierEven = {}, barrier_isEven = False\<rparr>"

definition MCBarrier_eq :: "mcbarrier \<Rightarrow> mcbarrier \<Rightarrow> bool" where
  "MCBarrier_eq b c \<longleftrightarrow> barrier_sys b = barrier_sys c"

definition MCBarrier_deinit :: "mcbarrier \<Rightarrow> mcbarrier" where
  "MCBarrier_deinit b = b\<lparr>barrier_state := barrier_undefined\<rparr>"

definition MCBarrier_init :: "mcbarrier \<Rightarrow> mcbarrier" where
  "MCBarrier_init b = b\<lparr>barrier_state := barrier_initialized\<rparr>"

definition MCBarrier_isWaitingOnBarrier :: "tid \<Rightarrow> mcbarrier \<Rightarrow> bool" where
  "MCBarrier_isWaitingOnBarrier t b \<longleftrightarrow>
     t \<in> threadsWaitingOnBarrierEven b \<or> t \<in> threadsWaitingOnBarrierOdd b"

definition MCBarrier_hasEvenParity :: "tid \<Rightarrow> mcbarrier \<Rightarrow> bool" where
  "MCBarrier_hasEvenParity t b \<longleftrightarrow> t \<in> threadsWaitingOnBarrierEven b"

definition MCBarrier_waitingSetForParity :: "mcbarrier \<Rightarrow> tid set" where
  "MCBarrier_waitingSetForParity b =
     (if barrier_isEven b then threadsWaitingOnBarrierEven b else threadsWaitingOnBarrierOdd b)"

definition MCBarrier_wait :: "tid \<Rightarrow> mcbarrier \<Rightarrow> mcbarrier" where
  "MCBarrier_wait t b =
     (if MCBarrier_isWaitingOnBarrier t b then b
      else
        let b' = (if barrier_isEven b
                  then b\<lparr>threadsWaitingOnBarrierEven := insert t (threadsWaitingOnBarrierEven b)\<rparr>
                  else b\<lparr>threadsWaitingOnBarrierOdd := insert t (threadsWaitingOnBarrierOdd b)\<rparr>)
        in if card (MCBarrier_waitingSetForParity b') = unat (barrier_waitCount b')
           then b'\<lparr>barrier_isEven := \<not> barrier_isEven b'\<rparr> else b')"

definition MCBarrier_leave :: "tid \<Rightarrow> mcbarrier \<Rightarrow> mcbarrier" where
  "MCBarrier_leave t b =
     b\<lparr>threadsWaitingOnBarrierOdd := threadsWaitingOnBarrierOdd b - {t},
       threadsWaitingOnBarrierEven := threadsWaitingOnBarrierEven b - {t}\<rparr>"

definition MCBarrier_wouldBlockIfWaitedOn :: "tid \<Rightarrow> mcbarrier \<Rightarrow> bool" where
  "MCBarrier_wouldBlockIfWaitedOn t b \<longleftrightarrow>
     (if MCBarrier_isWaitingOnBarrier t b then
        (if MCBarrier_hasEvenParity t b = barrier_isEven b
         then card (MCBarrier_waitingSetForParity b) < unat (barrier_waitCount b)
         else False)
      else card (MCBarrier_waitingSetForParity b) < unat (barrier_waitCount b))"

named_theorems barrier_simps "unfolding of the barrier operations"

lemmas barrier_defs [barrier_simps] =
  MCBarrier_eq_def MCBarrier_copy_def MCBarrier_deinit_def MCBarrier_init_def
  MCBarrier_isWaitingOnBarrier_def MCBarrier_hasEvenParity_def MCBarrier_waitingSetForParity_def
  MCBarrier_wait_def MCBarrier_leave_def MCBarrier_wouldBlockIfWaitedOn_def

lemma barrier_keeps_identity [simp]:
  "barrier_id (MCBarrier_wait t b) = barrier_id b" "barrier_sys (MCBarrier_wait t b) = barrier_sys b"
  "barrier_id (MCBarrier_init b) = barrier_id b" "barrier_sys (MCBarrier_init b) = barrier_sys b"
  "barrier_id (MCBarrier_deinit b) = barrier_id b" "barrier_sys (MCBarrier_deinit b) = barrier_sys b"
  "barrier_id (MCBarrier_copy b) = barrier_id b" "barrier_sys (MCBarrier_copy b) = barrier_sys b"
  by (simp_all add: barrier_simps Let_def)

section \<open>One round of a barrier\<close>

text \<open>The state of an odd round that \<open>T\<close> has joined so far.\<close>

definition odd_round :: "tid set \<Rightarrow> mcbarrier \<Rightarrow> bool" where
  "odd_round T b \<longleftrightarrow> threadsWaitingOnBarrierOdd b = T \<and> threadsWaitingOnBarrierEven b = {}
     \<and> finite T \<and> barrier_isEven b = (card T = unat (barrier_waitCount b))"

lemma odd_round_wait:
  assumes "odd_round T b" and "t \<notin> T" and "card T < unat (barrier_waitCount b)"
  shows "odd_round (insert t T) (MCBarrier_wait t b)"
    and "barrier_waitCount (MCBarrier_wait t b) = barrier_waitCount b"
  using assms by (auto simp: odd_round_def MCBarrier_wait_def MCBarrier_isWaitingOnBarrier_def
      MCBarrier_waitingSetForParity_def Let_def)

lemma odd_round_fold:
  assumes "odd_round T b" and "distinct ts" and "set ts \<inter> T = {}"
    and "card T + length ts \<le> unat (barrier_waitCount b)"
  shows "odd_round (T \<union> set ts) (fold MCBarrier_wait ts b)
    \<and> barrier_waitCount (fold MCBarrier_wait ts b) = barrier_waitCount b"
  using assms
proof (induction ts arbitrary: T b)
  case Nil
  then show ?case by simp
next
  case (Cons t ts)
  have t: "t \<notin> T" "card T < unat (barrier_waitCount b)" using Cons.prems by auto
  note step = odd_round_wait [OF Cons.prems(1) t]
  have "finite T" using Cons.prems(1) by (simp add: odd_round_def)
  then have "card (insert t T) + length ts \<le> unat (barrier_waitCount (MCBarrier_wait t b))"
    using Cons.prems(4) t(1) step(2) by simp
  moreover have "set ts \<inter> insert t T = {}" "distinct ts" using Cons.prems by auto
  ultimately show ?case using Cons.IH [OF step(1)] step(2) by simp
qed

lemma odd_round_blocks:
  assumes "odd_round T b" and "unat (barrier_waitCount b) > 0" and "card T \<le> unat (barrier_waitCount b)"
    and "t \<in> T"
  shows "MCBarrier_wouldBlockIfWaitedOn t b \<longleftrightarrow> card T < unat (barrier_waitCount b)"
  using assms
  by (auto simp: odd_round_def MCBarrier_wouldBlockIfWaitedOn_def MCBarrier_isWaitingOnBarrier_def
      MCBarrier_hasEvenParity_def MCBarrier_waitingSetForParity_def)

lemma odd_round_again:
  assumes "odd_round T b" and "t \<in> T"
  shows "MCBarrier_wait t b = b"
  using assms by (simp add: odd_round_def MCBarrier_wait_def MCBarrier_isWaitingOnBarrier_def)

lemma odd_round_new: "unat n > 0 \<Longrightarrow> odd_round {} (newMCBarrier sys n)"
  by (simp add: odd_round_def newMCBarrier_def)

text \<open>The distinct threads \<open>ts\<close> of the first round.\<close>

lemma first_round:
  assumes "distinct ts" and "0 < length ts" and "length ts \<le> unat n"
    and "b = fold MCBarrier_wait ts (newMCBarrier sys n)"
  shows "odd_round (set ts) b" and "barrier_waitCount b = n"
proof -
  have "unat n > 0" using assms(2,3) by linarith
  from odd_round_fold [OF odd_round_new [OF this] assms(1), of sys] assms(3)
  show "odd_round (set ts) b" "barrier_waitCount b = n"
    by (simp_all add: assms(4) newMCBarrier_def)
qed

lemma first_round_blocks:
  assumes "distinct ts" and "0 < length ts" and "length ts \<le> unat n" and "t \<in> set ts"
    and "b = fold MCBarrier_wait ts (newMCBarrier sys n)"
  shows "MCBarrier_wouldBlockIfWaitedOn t b \<longleftrightarrow> length ts < unat n"
  using odd_round_blocks [OF first_round(1) [OF assms(1-3,5)]] first_round(2) [OF assms(1-3,5)] assms(2-4)
    distinct_card [OF assms(1)] by simp

end
