(* ===== verification/QueuedLock.thy ===== *)
theory QueuedLock
  imports Prelude
begin

text \<open>
  The contract that the reader/writer locks of McMini share: a thread first queues up in some mode
  (reader, writer, ...), acquires the lock in that mode when the lock admits it, and releases it.
  The locale states the laws a lock promises; the lemmas in it follow any sequence of operations
  that respects the protocol of the wrappers (\<^verbatim>\<open>mc_pthread_rwlock_rdlock\<close> and its siblings post an
  enqueue and then a lock operation).  \<open>RWLockObj\<close> and \<open>RWWLockObj\<close> interpret it.
\<close>

datatype 'm lock_op = Enqueue 'm tid | Acquire 'm tid | Release tid

locale queued_lock =
  fixes inv :: "'l \<Rightarrow> bool"
    and can_acquire :: "'m \<Rightarrow> tid \<Rightarrow> 'l \<Rightarrow> bool"
    and enqueue :: "'m \<Rightarrow> tid \<Rightarrow> 'l \<Rightarrow> 'l"
    and acquire :: "'m \<Rightarrow> tid \<Rightarrow> 'l \<Rightarrow> 'l result"
    and release :: "tid \<Rightarrow> 'l \<Rightarrow> 'l result"
    and queued :: "'m \<Rightarrow> 'l \<Rightarrow> tid list"
    and holders :: "'m \<Rightarrow> 'l \<Rightarrow> tid list"
    and shared :: "'m \<Rightarrow> bool"
  assumes enqueue_inv: "inv l \<Longrightarrow> \<forall>m'. t \<notin> set (queued m' l) \<Longrightarrow> inv (enqueue m t l)"
    and acquire_ok: "inv l \<Longrightarrow> t \<in> set (queued m l) \<Longrightarrow> can_acquire m t l \<Longrightarrow>
      \<exists>l'. acquire m t l = Inr l' \<and> inv l' \<and> t \<in> set (holders m l')"
    and release_ok: "inv l \<Longrightarrow> t \<in> set (holders m l) \<Longrightarrow> \<exists>l'. release t l = Inr l' \<and> inv l'"
    and exclusion: "inv l \<Longrightarrow> t \<in> set (holders m l) \<Longrightarrow> u \<in> set (holders m' l) \<Longrightarrow>
      t \<noteq> u \<or> m \<noteq> m' \<Longrightarrow> shared m \<and> shared m'"
    and progress: "inv l \<Longrightarrow> \<forall>m. holders m l = [] \<Longrightarrow> t \<in> set (queued m l) \<Longrightarrow>
      \<exists>m' u. u \<in> set (queued m' l) \<and> can_acquire m' u l"
begin

text \<open>One operation, taken only where the protocol allows it.\<close>

definition allowed :: "'m lock_op \<Rightarrow> 'l \<Rightarrow> bool" where
  "allowed a l = (case a of
      Enqueue m t \<Rightarrow> \<forall>m'. t \<notin> set (queued m' l)
    | Acquire m t \<Rightarrow> t \<in> set (queued m l) \<and> can_acquire m t l
    | Release t \<Rightarrow> \<exists>m. t \<in> set (holders m l))"

definition perform :: "'m lock_op \<Rightarrow> 'l \<Rightarrow> 'l result" where
  "perform a l = (case a of
      Enqueue m t \<Rightarrow> Inr (enqueue m t l)
    | Acquire m t \<Rightarrow> acquire m t l
    | Release t \<Rightarrow> release t l)"

text \<open>A sequence that respects the protocol at every step it gets to.\<close>

fun protocol :: "'m lock_op list \<Rightarrow> 'l \<Rightarrow> bool" where
  "protocol [] l = True"
| "protocol (a # as) l =
     (allowed a l \<and> (case perform a l of Inl e \<Rightarrow> True | Inr l' \<Rightarrow> protocol as l'))"

lemma perform_ok: "inv l \<Longrightarrow> allowed a l \<Longrightarrow> \<exists>l'. perform a l = Inr l' \<and> inv l'"
  using enqueue_inv acquire_ok release_ok
  by (cases a) (fastforce simp: allowed_def perform_def)+

lemma protocol_safe:
  assumes "inv l" and "protocol as l"
  shows "\<exists>l'. foldR perform as l = Inr l' \<and> inv l'"
  using assms
proof (induction "as" arbitrary: l)
  case Nil
  then show ?case by simp
next
  case (Cons a as)
  from perform_ok [of l a] Cons.prems obtain l1 where "perform a l = Inr l1" "inv l1"
    by auto
  with Cons show ?case by simp
qed

lemma protocol_exclusive:
  assumes "inv l" and "protocol as l" and "foldR perform as l = Inr l'"
    and "t \<in> set (holders m l')" and "u \<in> set (holders m' l')" and "t \<noteq> u \<or> m \<noteq> m'"
  shows "shared m \<and> shared m'"
  using protocol_safe [OF assms(1,2)] assms(3-6) exclusion by auto

lemma protocol_progress:
  assumes "inv l" and "protocol as l" and "foldR perform as l = Inr l'"
    and "\<forall>m. holders m l' = []" and "t \<in> set (queued m l')"
  shows "\<exists>m' u. allowed (Acquire m' u) l'"
  using protocol_safe [OF assms(1,2)] progress assms(3-5) by (fastforce simp: allowed_def)

end

section \<open>Interleavings of queues\<close>

text \<open>
  The acquisition queue of a lock is an interleaving of its mode queues: \<^const>\<open>shuffles\<close> of the
  library.  Appending to the end and taking from the front keep it one.
\<close>

lemma shuffles_snoc_left: "zs \<in> shuffles xs ys \<Longrightarrow> zs @ [a] \<in> shuffles (xs @ [a]) ys"
proof (induction xs ys arbitrary: zs rule: shuffles.induct)
  case (3 x xs y ys)
  from "3.prems" consider zs' where "zs = x # zs'" "zs' \<in> shuffles xs (y # ys)"
    | zs' where "zs = y # zs'" "zs' \<in> shuffles (x # xs) ys"
    by auto
  then show ?case
    using "3.IH" by cases auto
next
  case (1 ys)
  then have "zs = ys" by simp
  then show ?case by (induction ys arbitrary: zs) (auto simp: Cons_in_shuffles_iff)
qed simp_all

lemma shuffles_snoc_right: "zs \<in> shuffles xs ys \<Longrightarrow> zs @ [a] \<in> shuffles xs (ys @ [a])"
  using shuffles_snoc_left [of zs ys xs a] by (simp add: shuffles_commutes)

lemma shuffles_front_left:
  "a # zs \<in> shuffles (a # xs) ys \<Longrightarrow> a \<notin> set ys \<Longrightarrow> zs \<in> shuffles xs ys"
  by (auto simp: Cons_in_shuffles_iff)

lemma shuffles_front_right:
  "a # zs \<in> shuffles xs (a # ys) \<Longrightarrow> a \<notin> set xs \<Longrightarrow> zs \<in> shuffles xs ys"
  by (auto simp: Cons_in_shuffles_iff)

lemma shuffles_front_cases:
  "a # zs \<in> shuffles xs ys \<Longrightarrow> (xs \<noteq> [] \<and> hd xs = a) \<or> (ys \<noteq> [] \<and> hd ys = a)"
  by (auto simp: Cons_in_shuffles_iff)

text \<open>What \<^verbatim>\<open>queue.front()\<close> reads; on an empty queue, where C++ leaves it undefined, nothing.\<close>

definition queue_front :: "tid list \<Rightarrow> tid option" where
  "queue_front q = (case q of [] \<Rightarrow> None | t # _ \<Rightarrow> Some t)"

lemma queue_front_Some [simp]: "queue_front q = Some t \<longleftrightarrow> (\<exists>q'. q = t # q')"
  by (cases q) (auto simp: queue_front_def)

end
