(* ===== verification/RWLockObj.thy ===== *)
theory RWLockObj
  imports QueuedLock
begin

text \<open>
  \<^verbatim>\<open>MCRWLock\<close> (\<^verbatim>\<open>include/objects/MCRWLock.h\<close>, \<^verbatim>\<open>src/objects/MCRWLock.cpp\<close>): three queues of
  waiting threads and the active readers and writer.  A failed \<^verbatim>\<open>MC_ASSERT\<close> is \<open>AssertFailed\<close>;
  \<^verbatim>\<open>front()\<close> of an empty queue reads as no thread (\<open>queue_front\<close>), and the invariant
  \<open>rwlock_wf\<close> shows that the threads that ask are always queued.
\<close>

datatype rwlock_state =
  rw_undefined | rw_unlocked | rw_reader_owned | rw_writer_owned | rw_destroyed

datatype rwlock_type = rw_writer_preferred | rw_reader_preferred | rw_no_preference

record mcrwlock =
  rw_id :: objid
  rw_sys :: sysid
  rw_state :: rwlock_state
  rw_active_writer :: "tid option"
  rw_active_readers :: "tid list"
  rw_reader_queue :: "tid list"
  rw_writer_queue :: "tid list"
  rw_acquire_queue :: "tid list"
  rw_type :: rwlock_type

definition newMCRWLock :: "sysid \<Rightarrow> rwlock_type \<Rightarrow> mcrwlock" where
  "newMCRWLock sys ty =
     \<lparr>rw_id = 0, rw_sys = sys, rw_state = rw_undefined, rw_active_writer = None,
      rw_active_readers = [], rw_reader_queue = [], rw_writer_queue = [], rw_acquire_queue = [],
      rw_type = ty\<rparr>"

definition MCRWLock_eq :: "mcrwlock \<Rightarrow> mcrwlock \<Rightarrow> bool" where
  "MCRWLock_eq l k \<longleftrightarrow> rw_sys l = rw_sys k"

definition MCRWLock_hasEnqueuedWriters :: "mcrwlock \<Rightarrow> bool" where
  "MCRWLock_hasEnqueuedWriters l \<longleftrightarrow> rw_writer_queue l \<noteq> []"

definition MCRWLock_hasEnqueuedReaders :: "mcrwlock \<Rightarrow> bool" where
  "MCRWLock_hasEnqueuedReaders l \<longleftrightarrow> rw_reader_queue l \<noteq> []"

definition MCRWLock_isReaderLocked :: "mcrwlock \<Rightarrow> bool" where
  "MCRWLock_isReaderLocked l \<longleftrightarrow> rw_active_readers l \<noteq> []"

definition MCRWLock_isWriterLocked :: "mcrwlock \<Rightarrow> bool" where
  "MCRWLock_isWriterLocked l \<longleftrightarrow> rw_active_writer l \<noteq> None"

definition MCRWLock_isUnlocked :: "mcrwlock \<Rightarrow> bool" where
  "MCRWLock_isUnlocked l \<longleftrightarrow> \<not> MCRWLock_isWriterLocked l \<and> \<not> MCRWLock_isReaderLocked l"

definition MCRWLock_isDestroyed :: "mcrwlock \<Rightarrow> bool" where
  "MCRWLock_isDestroyed l \<longleftrightarrow> rw_state l = rw_destroyed"

definition MCRWLock_canAcquireAsReader :: "tid \<Rightarrow> mcrwlock \<Rightarrow> bool" where
  "MCRWLock_canAcquireAsReader t l \<longleftrightarrow>
     (if rw_type l = rw_writer_preferred \<and> MCRWLock_hasEnqueuedWriters l then False
      else if rw_type l = rw_no_preference
      then \<not> MCRWLock_isWriterLocked l \<and> queue_front (rw_acquire_queue l) = Some t
      else \<not> MCRWLock_isWriterLocked l \<and> queue_front (rw_reader_queue l) = Some t)"

definition MCRWLock_canAcquireAsWriter :: "tid \<Rightarrow> mcrwlock \<Rightarrow> bool" where
  "MCRWLock_canAcquireAsWriter t l \<longleftrightarrow>
     (if rw_type l = rw_reader_preferred \<and> MCRWLock_hasEnqueuedReaders l then False
      else if rw_type l = rw_no_preference
      then MCRWLock_isUnlocked l \<and> queue_front (rw_acquire_queue l) = Some t
      else MCRWLock_isUnlocked l \<and> queue_front (rw_writer_queue l) = Some t)"

definition MCRWLock_reader_lock :: "tid \<Rightarrow> mcrwlock \<Rightarrow> mcrwlock result" where
  "MCRWLock_reader_lock t l =
     (let l' = l\<lparr>rw_active_readers := rw_active_readers l @ [t]\<rparr> in
      guardR AssertFailed (rw_reader_queue l' \<noteq> [])
      (guardR AssertFailed (rw_acquire_queue l' \<noteq> [])
      (guardR AssertFailed (queue_front (rw_reader_queue l') = Some t)
       (Inr (l'\<lparr>rw_reader_queue := tl (rw_reader_queue l'),
                rw_acquire_queue := tl (rw_acquire_queue l')\<rparr>)))))"

definition MCRWLock_writer_lock :: "tid \<Rightarrow> mcrwlock \<Rightarrow> mcrwlock result" where
  "MCRWLock_writer_lock t l =
     guardR AssertFailed (rw_active_writer l = None)
     (guardR AssertFailed (rw_writer_queue l \<noteq> [])
     (guardR AssertFailed (queue_front (rw_writer_queue l) = Some t)
     (guardR OutOfBounds (rw_acquire_queue l \<noteq> [])
      (Inr (l\<lparr>rw_writer_queue := tl (rw_writer_queue l),
              rw_acquire_queue := tl (rw_acquire_queue l),
              rw_active_writer := Some t\<rparr>)))))"

definition MCRWLock_enqueue_as_reader :: "tid \<Rightarrow> mcrwlock \<Rightarrow> mcrwlock" where
  "MCRWLock_enqueue_as_reader t l =
     l\<lparr>rw_reader_queue := rw_reader_queue l @ [t], rw_acquire_queue := rw_acquire_queue l @ [t]\<rparr>"

definition MCRWLock_enqueue_as_writer :: "tid \<Rightarrow> mcrwlock \<Rightarrow> mcrwlock" where
  "MCRWLock_enqueue_as_writer t l =
     l\<lparr>rw_writer_queue := rw_writer_queue l @ [t], rw_acquire_queue := rw_acquire_queue l @ [t]\<rparr>"

definition MCRWLock_unlock :: "tid \<Rightarrow> mcrwlock \<Rightarrow> mcrwlock result" where
  "MCRWLock_unlock t l =
     (case rw_active_writer l of
        Some w \<Rightarrow> guardR AssertFailed (w = t)
                    (guardR AssertFailed (MCRWLock_isWriterLocked l)
                      (Inr (l\<lparr>rw_active_writer := None\<rparr>)))
      | None \<Rightarrow>
          if rw_active_readers l \<noteq> [] then
            guardR AssertFailed (MCRWLock_isReaderLocked l)
            (guardR AssertFailed (t \<in> set (rw_active_readers l))
              (Inr (l\<lparr>rw_active_readers := remove1 t (rw_active_readers l)\<rparr>)))
          else Inl Fatal)"

definition MCRWLock_init :: "mcrwlock \<Rightarrow> mcrwlock" where
  "MCRWLock_init l = l\<lparr>rw_state := rw_unlocked\<rparr>"

definition MCRWLock_deinit :: "mcrwlock \<Rightarrow> mcrwlock" where
  "MCRWLock_deinit l = l\<lparr>rw_state := rw_destroyed\<rparr>"

named_theorems rwlock_simps "unfolding of the reader/writer lock operations"

lemmas rwlock_defs [rwlock_simps] =
  MCRWLock_eq_def MCRWLock_hasEnqueuedWriters_def MCRWLock_hasEnqueuedReaders_def
  MCRWLock_isReaderLocked_def MCRWLock_isWriterLocked_def MCRWLock_isUnlocked_def
  MCRWLock_isDestroyed_def MCRWLock_canAcquireAsReader_def MCRWLock_canAcquireAsWriter_def
  MCRWLock_reader_lock_def MCRWLock_writer_lock_def MCRWLock_enqueue_as_reader_def
  MCRWLock_enqueue_as_writer_def MCRWLock_unlock_def MCRWLock_init_def MCRWLock_deinit_def

lemma rwlock_keeps_identity [simp]:
  "rw_id (MCRWLock_init l) = rw_id l" "rw_sys (MCRWLock_init l) = rw_sys l"
  "rw_id (MCRWLock_enqueue_as_reader t l) = rw_id l"
  "rw_sys (MCRWLock_enqueue_as_reader t l) = rw_sys l"
  "rw_id (MCRWLock_enqueue_as_writer t l) = rw_id l"
  "rw_sys (MCRWLock_enqueue_as_writer t l) = rw_sys l"
  by (simp_all add: rwlock_simps)

lemma rwlock_result_keeps_identity:
  "MCRWLock_reader_lock t l = Inr l' \<Longrightarrow> rw_id l' = rw_id l \<and> rw_sys l' = rw_sys l"
  "MCRWLock_writer_lock t l = Inr l' \<Longrightarrow> rw_id l' = rw_id l \<and> rw_sys l' = rw_sys l"
  "MCRWLock_unlock t l = Inr l' \<Longrightarrow> rw_id l' = rw_id l \<and> rw_sys l' = rw_sys l"
  by (auto simp: rwlock_simps result_simps Let_def split: option.splits if_splits)

section \<open>The invariant: interleaved queues and exclusive writers\<close>

definition rwlock_wf :: "mcrwlock \<Rightarrow> bool" where
  "rwlock_wf l \<longleftrightarrow> rw_type l = rw_no_preference
     \<and> rw_acquire_queue l \<in> shuffles (rw_reader_queue l) (rw_writer_queue l)
     \<and> set (rw_reader_queue l) \<inter> set (rw_writer_queue l) = {}
     \<and> distinct (rw_reader_queue l) \<and> distinct (rw_writer_queue l)
     \<and> (rw_active_writer l \<noteq> None \<longrightarrow> rw_active_readers l = [])"

lemma rwlock_wf_new: "rwlock_wf (newMCRWLock sys rw_no_preference)"
  by (simp add: rwlock_wf_def newMCRWLock_def)

datatype rw_mode = AsReader | AsWriter

definition rw_enqueue :: "rw_mode \<Rightarrow> tid \<Rightarrow> mcrwlock \<Rightarrow> mcrwlock" where
  "rw_enqueue m t l = (case m of AsReader \<Rightarrow> MCRWLock_enqueue_as_reader t l
                               | AsWriter \<Rightarrow> MCRWLock_enqueue_as_writer t l)"

definition rw_can_acquire :: "rw_mode \<Rightarrow> tid \<Rightarrow> mcrwlock \<Rightarrow> bool" where
  "rw_can_acquire m t l = (case m of AsReader \<Rightarrow> MCRWLock_canAcquireAsReader t l
                                   | AsWriter \<Rightarrow> MCRWLock_canAcquireAsWriter t l)"

definition rw_acquire :: "rw_mode \<Rightarrow> tid \<Rightarrow> mcrwlock \<Rightarrow> mcrwlock result" where
  "rw_acquire m t l = (case m of AsReader \<Rightarrow> MCRWLock_reader_lock t l
                               | AsWriter \<Rightarrow> MCRWLock_writer_lock t l)"

definition rw_queued :: "rw_mode \<Rightarrow> mcrwlock \<Rightarrow> tid list" where
  "rw_queued m l = (case m of AsReader \<Rightarrow> rw_reader_queue l | AsWriter \<Rightarrow> rw_writer_queue l)"

definition rw_holders :: "rw_mode \<Rightarrow> mcrwlock \<Rightarrow> tid list" where
  "rw_holders m l = (case m of AsReader \<Rightarrow> rw_active_readers l
     | AsWriter \<Rightarrow> (case rw_active_writer l of None \<Rightarrow> [] | Some w \<Rightarrow> [w]))"

definition rw_shared :: "rw_mode \<Rightarrow> bool" where
  "rw_shared m \<longleftrightarrow> m = AsReader"

lemma all_rw_mode: "(\<forall>m. P m) \<longleftrightarrow> P AsReader \<and> P AsWriter"
  by (metis rw_mode.exhaust)

lemma ex_rw_mode: "(\<exists>m. P m) \<longleftrightarrow> P AsReader \<or> P AsWriter"
  by (metis rw_mode.exhaust)

lemma rw_enqueue_wf:
  assumes "rwlock_wf l" and "\<forall>m. t \<notin> set (rw_queued m l)"
  shows "rwlock_wf (rw_enqueue m t l)"
  using assms shuffles_snoc_left shuffles_snoc_right
  by (cases m)
     (auto simp: rwlock_wf_def rw_enqueue_def rw_queued_def all_rw_mode
       MCRWLock_enqueue_as_reader_def MCRWLock_enqueue_as_writer_def)

lemma rw_reader_lock_ok:
  assumes wf: "rwlock_wf l" and q: "t \<in> set (rw_reader_queue l)"
    and can: "MCRWLock_canAcquireAsReader t l"
  shows "\<exists>l'. MCRWLock_reader_lock t l = Inr l' \<and> rwlock_wf l' \<and> t \<in> set (rw_active_readers l')"
proof -
  from can wf obtain q' where a: "rw_acquire_queue l = t # q'" and nw: "rw_active_writer l = None"
    by (auto simp: rwlock_simps rwlock_wf_def split: if_splits)
  have notw: "t \<notin> set (rw_writer_queue l)" using wf q by (auto simp: rwlock_wf_def)
  with wf a obtain r where r: "rw_reader_queue l = t # r"
    by (fastforce simp: rwlock_wf_def Cons_in_shuffles_iff neq_Nil_conv)
  have "q' \<in> shuffles r (rw_writer_queue l)"
    using wf a r notw shuffles_front_left [of t q' r] by (simp add: rwlock_wf_def)
  then show ?thesis
    using wf a r nw by (auto simp: MCRWLock_reader_lock_def Let_def rwlock_wf_def guardR_def)
qed

lemma rw_writer_lock_ok:
  assumes wf: "rwlock_wf l" and q: "t \<in> set (rw_writer_queue l)"
    and can: "MCRWLock_canAcquireAsWriter t l"
  shows "\<exists>l'. MCRWLock_writer_lock t l = Inr l' \<and> rwlock_wf l' \<and> rw_active_writer l' = Some t"
proof -
  from can wf obtain q' where a: "rw_acquire_queue l = t # q'" and nw: "rw_active_writer l = None"
    and nr: "rw_active_readers l = []"
    by (auto simp: rwlock_simps rwlock_wf_def split: if_splits)
  have notr: "t \<notin> set (rw_reader_queue l)" using wf q by (auto simp: rwlock_wf_def)
  with wf a obtain w where w: "rw_writer_queue l = t # w"
    by (fastforce simp: rwlock_wf_def Cons_in_shuffles_iff neq_Nil_conv)
  have "q' \<in> shuffles (rw_reader_queue l) w"
    using wf a w notr shuffles_front_right [of t q' _ w] by (simp add: rwlock_wf_def)
  then show ?thesis
    using wf a w nw nr by (auto simp: MCRWLock_writer_lock_def rwlock_wf_def guardR_def)
qed

lemma rw_unlock_ok:
  assumes "rwlock_wf l" and "t \<in> set (rw_holders m l)"
  shows "\<exists>l'. MCRWLock_unlock t l = Inr l' \<and> rwlock_wf l'"
  using assms
  by (cases m) (auto simp: rwlock_simps rwlock_wf_def rw_holders_def guardR_def split: option.splits)

lemma rw_progress:
  assumes wf: "rwlock_wf l" and free: "\<forall>m. rw_holders m l = []" and q: "t \<in> set (rw_queued m l)"
  shows "\<exists>m' u. u \<in> set (rw_queued m' l) \<and> rw_can_acquire m' u l"
proof -
  have ne: "rw_acquire_queue l \<noteq> []"
    using wf q by (cases m) (auto simp: rwlock_wf_def rw_queued_def dest: set_shuffles)
  then obtain u a' where u: "rw_acquire_queue l = u # a'" by (cases "rw_acquire_queue l") auto
  then have "u \<in> set (rw_queued AsReader l) \<or> u \<in> set (rw_queued AsWriter l)"
    using wf by (auto simp: rwlock_wf_def rw_queued_def Cons_in_shuffles_iff dest: hd_in_set)
  moreover have "rw_can_acquire AsReader u l" and "rw_can_acquire AsWriter u l"
    using free wf u
    by (auto simp: all_rw_mode rw_holders_def rw_can_acquire_def rwlock_simps rwlock_wf_def
        split: option.splits)
  ultimately show ?thesis by blast
qed

interpretation rw: queued_lock rwlock_wf rw_can_acquire rw_enqueue rw_acquire MCRWLock_unlock
    rw_queued rw_holders rw_shared
proof unfold_locales
  fix l t and m :: rw_mode
  assume "rwlock_wf l" "\<forall>m'. t \<notin> set (rw_queued m' l)"
  then show "rwlock_wf (rw_enqueue m t l)" by (rule rw_enqueue_wf)
next
  fix l t m
  assume "rwlock_wf l" "t \<in> set (rw_queued m l)" "rw_can_acquire m t l"
  then show "\<exists>l'. rw_acquire m t l = Inr l' \<and> rwlock_wf l' \<and> t \<in> set (rw_holders m l')"
    using rw_reader_lock_ok rw_writer_lock_ok
    by (cases m) (fastforce simp: rw_queued_def rw_can_acquire_def rw_acquire_def rw_holders_def)+
next
  fix l t m
  assume "rwlock_wf l" "t \<in> set (rw_holders m l)"
  then show "\<exists>l'. MCRWLock_unlock t l = Inr l' \<and> rwlock_wf l'" by (rule rw_unlock_ok)
next
  fix l t u m m'
  assume "rwlock_wf l" "t \<in> set (rw_holders m l)" "u \<in> set (rw_holders m' l)" "t \<noteq> u \<or> m \<noteq> m'"
  then show "rw_shared m \<and> rw_shared m'"
    by (cases m; cases m'; cases "rw_active_writer l")
       (auto simp: rw_holders_def rw_shared_def rwlock_wf_def)
next
  fix l t m
  assume "rwlock_wf l" "\<forall>m. rw_holders m l = []" "t \<in> set (rw_queued m l)"
  then show "\<exists>m' u. u \<in> set (rw_queued m' l) \<and> rw_can_acquire m' u l" by (rule rw_progress)
qed


section \<open>Sequences of operations\<close>

text \<open>The protocol of the wrappers, written out over the lock.\<close>

definition rw_allowed :: "rw_mode lock_op \<Rightarrow> mcrwlock \<Rightarrow> bool" where
  "rw_allowed a l = (case a of
      Enqueue m t \<Rightarrow> t \<notin> set (rw_queued AsReader l) \<and> t \<notin> set (rw_queued AsWriter l)
    | Acquire m t \<Rightarrow> t \<in> set (rw_queued m l) \<and> rw_can_acquire m t l
    | Release t \<Rightarrow> t \<in> set (rw_holders AsReader l) \<or> t \<in> set (rw_holders AsWriter l))"

definition rw_perform :: "rw_mode lock_op \<Rightarrow> mcrwlock \<Rightarrow> mcrwlock result" where
  "rw_perform a l = (case a of
      Enqueue m t \<Rightarrow> Inr (rw_enqueue m t l)
    | Acquire m t \<Rightarrow> rw_acquire m t l
    | Release t \<Rightarrow> MCRWLock_unlock t l)"

fun rw_protocol :: "rw_mode lock_op list \<Rightarrow> mcrwlock \<Rightarrow> bool" where
  "rw_protocol [] l = True"
| "rw_protocol (a # as) l =
     (rw_allowed a l \<and> (case rw_perform a l of Inl e \<Rightarrow> True | Inr l' \<Rightarrow> rw_protocol as l'))"

lemma rw_allowed_eq: "rw.allowed a l = rw_allowed a l"
  by (cases a) (auto simp: rw.allowed_def rw_allowed_def all_rw_mode ex_rw_mode)

lemma rw_perform_eq: "rw.perform = rw_perform"
  by (intro ext) (simp add: rw.perform_def rw_perform_def split: lock_op.split)

lemma rw_protocol_eq: "rw.protocol as l = rw_protocol as l"
  by (induction "as" arbitrary: l) (simp_all add: rw_allowed_eq rw_perform_eq split: sum.split)

lemmas rw_protocol_facts =
  rw.protocol_safe [unfolded rw_protocol_eq rw_perform_eq]
  rw.protocol_exclusive [unfolded rw_protocol_eq rw_perform_eq]
  rw.protocol_progress [unfolded rw_protocol_eq rw_perform_eq rw_allowed_eq]

end
