(* ===== verification/RWWLockObj.thy ===== *)
theory RWWLockObj
  imports QueuedLock
begin

text \<open>
  \<^verbatim>\<open>MCRWWLock\<close> (\<^verbatim>\<open>include/objects/MCRWWLock.h\<close>, \<^verbatim>\<open>src/objects/MCRWWLock.cpp\<close>): a lock with one
  class of readers and two classes of writers, with the conventions of \<open>RWLockObj\<close>.
\<close>

datatype rwwlock_state =
  rww_undefined | rww_unlocked | rww_reader_owned | rww_writer1_owned | rww_writer2_owned
| rww_destroyed

datatype rwwlock_type =
  rww_writer1_preferred | rww_writer2_preferred | rww_reader_preferred | rww_no_preference

record mcrwwlock =
  rww_id :: objid
  rww_sys :: sysid
  rww_state :: rwwlock_state
  rww_active_writer1 :: "tid option"
  rww_active_writer2 :: "tid option"
  rww_active_readers :: "tid list"
  rww_reader_queue :: "tid list"
  rww_writer1_queue :: "tid list"
  rww_writer2_queue :: "tid list"
  rww_acquire_queue :: "tid list"
  rww_type :: rwwlock_type

definition newMCRWWLock :: "sysid \<Rightarrow> rwwlock_type \<Rightarrow> mcrwwlock" where
  "newMCRWWLock sys ty =
     \<lparr>rww_id = 0, rww_sys = sys, rww_state = rww_undefined, rww_active_writer1 = None,
      rww_active_writer2 = None, rww_active_readers = [], rww_reader_queue = [],
      rww_writer1_queue = [], rww_writer2_queue = [], rww_acquire_queue = [], rww_type = ty\<rparr>"

definition MCRWWLock_eq :: "mcrwwlock \<Rightarrow> mcrwwlock \<Rightarrow> bool" where
  "MCRWWLock_eq l k \<longleftrightarrow> rww_sys l = rww_sys k"

definition MCRWWLock_hasEnqueuedType1Writers :: "mcrwwlock \<Rightarrow> bool" where
  "MCRWWLock_hasEnqueuedType1Writers l \<longleftrightarrow> rww_writer1_queue l \<noteq> []"

definition MCRWWLock_hasEnqueuedType2Writers :: "mcrwwlock \<Rightarrow> bool" where
  "MCRWWLock_hasEnqueuedType2Writers l \<longleftrightarrow> rww_writer2_queue l \<noteq> []"

definition MCRWWLock_hasEnqueuedReaders :: "mcrwwlock \<Rightarrow> bool" where
  "MCRWWLock_hasEnqueuedReaders l \<longleftrightarrow> rww_reader_queue l \<noteq> []"

definition MCRWWLock_isReaderLocked :: "mcrwwlock \<Rightarrow> bool" where
  "MCRWWLock_isReaderLocked l \<longleftrightarrow> rww_active_readers l \<noteq> []"

definition MCRWWLock_isWriter1Locked :: "mcrwwlock \<Rightarrow> bool" where
  "MCRWWLock_isWriter1Locked l \<longleftrightarrow> rww_active_writer1 l \<noteq> None"

definition MCRWWLock_isWriter2Locked :: "mcrwwlock \<Rightarrow> bool" where
  "MCRWWLock_isWriter2Locked l \<longleftrightarrow> rww_active_writer2 l \<noteq> None"

definition MCRWWLock_isWriterLocked :: "mcrwwlock \<Rightarrow> bool" where
  "MCRWWLock_isWriterLocked l \<longleftrightarrow> MCRWWLock_isWriter1Locked l \<or> MCRWWLock_isWriter2Locked l"

definition MCRWWLock_isUnlocked :: "mcrwwlock \<Rightarrow> bool" where
  "MCRWWLock_isUnlocked l \<longleftrightarrow> \<not> MCRWWLock_isWriterLocked l \<and> \<not> MCRWWLock_isReaderLocked l"

definition MCRWWLock_isDestroyed :: "mcrwwlock \<Rightarrow> bool" where
  "MCRWWLock_isDestroyed l \<longleftrightarrow> rww_state l = rww_destroyed"

definition MCRWWLock_canAcquireAsReader :: "tid \<Rightarrow> mcrwwlock \<Rightarrow> bool" where
  "MCRWWLock_canAcquireAsReader t l \<longleftrightarrow>
     (if rww_type l = rww_writer1_preferred \<and> MCRWWLock_hasEnqueuedType1Writers l then False
      else if rww_type l = rww_writer2_preferred \<and> MCRWWLock_hasEnqueuedType2Writers l then False
      else if rww_type l = rww_no_preference
      then \<not> MCRWWLock_isWriterLocked l \<and> queue_front (rww_acquire_queue l) = Some t
      else \<not> MCRWWLock_isWriterLocked l \<and> queue_front (rww_reader_queue l) = Some t)"

definition MCRWWLock_canAcquireAsWriter1 :: "tid \<Rightarrow> mcrwwlock \<Rightarrow> bool" where
  "MCRWWLock_canAcquireAsWriter1 t l \<longleftrightarrow>
     (if rww_type l = rww_writer2_preferred \<and> MCRWWLock_hasEnqueuedType2Writers l then False
      else if rww_type l = rww_reader_preferred \<and> MCRWWLock_hasEnqueuedReaders l then False
      else if rww_type l = rww_no_preference
      then MCRWWLock_isUnlocked l \<and> queue_front (rww_acquire_queue l) = Some t
      else MCRWWLock_isUnlocked l \<and> queue_front (rww_writer1_queue l) = Some t)"

definition MCRWWLock_canAcquireAsWriter2 :: "tid \<Rightarrow> mcrwwlock \<Rightarrow> bool" where
  "MCRWWLock_canAcquireAsWriter2 t l \<longleftrightarrow>
     (if rww_type l = rww_writer1_preferred \<and> MCRWWLock_hasEnqueuedType1Writers l then False
      else if rww_type l = rww_reader_preferred \<and> MCRWWLock_hasEnqueuedReaders l then False
      else if rww_type l = rww_no_preference
      then MCRWWLock_isUnlocked l \<and> queue_front (rww_acquire_queue l) = Some t
      else MCRWWLock_isUnlocked l \<and> queue_front (rww_writer2_queue l) = Some t)"

definition MCRWWLock_reader_lock :: "tid \<Rightarrow> mcrwwlock \<Rightarrow> mcrwwlock result" where
  "MCRWWLock_reader_lock t l =
     (let l' = l\<lparr>rww_active_readers := rww_active_readers l @ [t]\<rparr> in
      guardR AssertFailed (rww_reader_queue l' \<noteq> [])
      (guardR AssertFailed (rww_acquire_queue l' \<noteq> [])
      (guardR AssertFailed (queue_front (rww_reader_queue l') = Some t)
       (Inr (l'\<lparr>rww_reader_queue := tl (rww_reader_queue l'),
                rww_acquire_queue := tl (rww_acquire_queue l')\<rparr>)))))"

definition MCRWWLock_writer1_lock :: "tid \<Rightarrow> mcrwwlock \<Rightarrow> mcrwwlock result" where
  "MCRWWLock_writer1_lock t l =
     guardR AssertFailed (rww_active_writer1 l = None)
     (guardR AssertFailed (rww_writer1_queue l \<noteq> [])
     (guardR AssertFailed (queue_front (rww_writer1_queue l) = Some t)
     (guardR OutOfBounds (rww_acquire_queue l \<noteq> [])
      (Inr (l\<lparr>rww_writer1_queue := tl (rww_writer1_queue l),
              rww_acquire_queue := tl (rww_acquire_queue l),
              rww_active_writer1 := Some t\<rparr>)))))"

definition MCRWWLock_writer2_lock :: "tid \<Rightarrow> mcrwwlock \<Rightarrow> mcrwwlock result" where
  "MCRWWLock_writer2_lock t l =
     guardR AssertFailed (rww_active_writer2 l = None)
     (guardR AssertFailed (rww_writer2_queue l \<noteq> [])
     (guardR AssertFailed (queue_front (rww_writer2_queue l) = Some t)
     (guardR OutOfBounds (rww_acquire_queue l \<noteq> [])
      (Inr (l\<lparr>rww_writer2_queue := tl (rww_writer2_queue l),
              rww_acquire_queue := tl (rww_acquire_queue l),
              rww_active_writer2 := Some t\<rparr>)))))"

definition MCRWWLock_enqueue_as_reader :: "tid \<Rightarrow> mcrwwlock \<Rightarrow> mcrwwlock" where
  "MCRWWLock_enqueue_as_reader t l =
     l\<lparr>rww_reader_queue := rww_reader_queue l @ [t],
       rww_acquire_queue := rww_acquire_queue l @ [t]\<rparr>"

definition MCRWWLock_enqueue_as_writer1 :: "tid \<Rightarrow> mcrwwlock \<Rightarrow> mcrwwlock" where
  "MCRWWLock_enqueue_as_writer1 t l =
     l\<lparr>rww_writer1_queue := rww_writer1_queue l @ [t],
       rww_acquire_queue := rww_acquire_queue l @ [t]\<rparr>"

definition MCRWWLock_enqueue_as_writer2 :: "tid \<Rightarrow> mcrwwlock \<Rightarrow> mcrwwlock" where
  "MCRWWLock_enqueue_as_writer2 t l =
     l\<lparr>rww_writer2_queue := rww_writer2_queue l @ [t],
       rww_acquire_queue := rww_acquire_queue l @ [t]\<rparr>"

definition MCRWWLock_unlock :: "tid \<Rightarrow> mcrwwlock \<Rightarrow> mcrwwlock result" where
  "MCRWWLock_unlock t l =
     (case rww_active_writer1 l of
        Some w \<Rightarrow> guardR AssertFailed (w = t) (Inr (l\<lparr>rww_active_writer1 := None\<rparr>))
      | None \<Rightarrow>
        (case rww_active_writer2 l of
           Some w \<Rightarrow> guardR AssertFailed (w = t) (Inr (l\<lparr>rww_active_writer2 := None\<rparr>))
         | None \<Rightarrow>
            if rww_active_readers l \<noteq> [] then
              guardR AssertFailed (MCRWWLock_isReaderLocked l)
              (guardR AssertFailed (t \<in> set (rww_active_readers l))
                (Inr (l\<lparr>rww_active_readers := remove1 t (rww_active_readers l)\<rparr>)))
            else Inl Fatal))"

definition MCRWWLock_init :: "mcrwwlock \<Rightarrow> mcrwwlock" where
  "MCRWWLock_init l = l\<lparr>rww_state := rww_unlocked\<rparr>"

definition MCRWWLock_deinit :: "mcrwwlock \<Rightarrow> mcrwwlock" where
  "MCRWWLock_deinit l = l\<lparr>rww_state := rww_destroyed\<rparr>"

named_theorems rwwlock_simps "unfolding of the double-writer lock operations"

lemmas rwwlock_defs [rwwlock_simps] =
  MCRWWLock_eq_def MCRWWLock_hasEnqueuedType1Writers_def MCRWWLock_hasEnqueuedType2Writers_def
  MCRWWLock_hasEnqueuedReaders_def MCRWWLock_isReaderLocked_def MCRWWLock_isWriter1Locked_def
  MCRWWLock_isWriter2Locked_def MCRWWLock_isWriterLocked_def MCRWWLock_isUnlocked_def
  MCRWWLock_isDestroyed_def MCRWWLock_canAcquireAsReader_def MCRWWLock_canAcquireAsWriter1_def
  MCRWWLock_canAcquireAsWriter2_def MCRWWLock_reader_lock_def MCRWWLock_writer1_lock_def
  MCRWWLock_writer2_lock_def MCRWWLock_enqueue_as_reader_def MCRWWLock_enqueue_as_writer1_def
  MCRWWLock_enqueue_as_writer2_def MCRWWLock_unlock_def MCRWWLock_init_def MCRWWLock_deinit_def

lemma rwwlock_keeps_identity [simp]:
  "rww_id (MCRWWLock_init l) = rww_id l" "rww_sys (MCRWWLock_init l) = rww_sys l"
  "rww_id (MCRWWLock_enqueue_as_reader t l) = rww_id l"
  "rww_sys (MCRWWLock_enqueue_as_reader t l) = rww_sys l"
  "rww_id (MCRWWLock_enqueue_as_writer1 t l) = rww_id l"
  "rww_sys (MCRWWLock_enqueue_as_writer1 t l) = rww_sys l"
  "rww_id (MCRWWLock_enqueue_as_writer2 t l) = rww_id l"
  "rww_sys (MCRWWLock_enqueue_as_writer2 t l) = rww_sys l"
  by (simp_all add: rwwlock_simps)

lemma rwwlock_result_keeps_identity:
  "MCRWWLock_reader_lock t l = Inr l' \<Longrightarrow> rww_id l' = rww_id l \<and> rww_sys l' = rww_sys l"
  "MCRWWLock_writer1_lock t l = Inr l' \<Longrightarrow> rww_id l' = rww_id l \<and> rww_sys l' = rww_sys l"
  "MCRWWLock_writer2_lock t l = Inr l' \<Longrightarrow> rww_id l' = rww_id l \<and> rww_sys l' = rww_sys l"
  "MCRWWLock_unlock t l = Inr l' \<Longrightarrow> rww_id l' = rww_id l \<and> rww_sys l' = rww_sys l"
  by (auto simp: rwwlock_simps result_simps Let_def split: option.splits if_splits)

section \<open>The invariant\<close>

text \<open>The acquisition queue interleaves the readers with an interleaving of the writers.\<close>

definition interleaved3 :: "tid list \<Rightarrow> tid list \<Rightarrow> tid list \<Rightarrow> tid list \<Rightarrow> bool" where
  "interleaved3 a r w1 w2 \<longleftrightarrow> (\<exists>ws \<in> shuffles w1 w2. a \<in> shuffles r ws)"

lemma interleaved3_snoc:
  assumes "interleaved3 a r w1 w2"
  shows "interleaved3 (a @ [t]) (r @ [t]) w1 w2" and "interleaved3 (a @ [t]) r (w1 @ [t]) w2"
    and "interleaved3 (a @ [t]) r w1 (w2 @ [t])"
  using assms shuffles_snoc_left shuffles_snoc_right unfolding interleaved3_def by meson+

definition rwwlock_wf :: "mcrwwlock \<Rightarrow> bool" where
  "rwwlock_wf l \<longleftrightarrow> rww_type l = rww_no_preference
     \<and> interleaved3 (rww_acquire_queue l) (rww_reader_queue l)
         (rww_writer1_queue l) (rww_writer2_queue l)
     \<and> set (rww_reader_queue l) \<inter> set (rww_writer1_queue l) = {}
     \<and> set (rww_reader_queue l) \<inter> set (rww_writer2_queue l) = {}
     \<and> set (rww_writer1_queue l) \<inter> set (rww_writer2_queue l) = {}
     \<and> distinct (rww_reader_queue l) \<and> distinct (rww_writer1_queue l)
     \<and> distinct (rww_writer2_queue l)
     \<and> (rww_active_writer1 l \<noteq> None \<longrightarrow> rww_active_writer2 l = None \<and> rww_active_readers l = [])
     \<and> (rww_active_writer2 l \<noteq> None \<longrightarrow> rww_active_readers l = [])"

lemma rwwlock_wf_new: "rwwlock_wf (newMCRWWLock sys rww_no_preference)"
  by (simp add: rwwlock_wf_def newMCRWWLock_def interleaved3_def)

datatype rww_mode = RwwReader | RwwWriter1 | RwwWriter2

lemma ex_rww_mode: "(\<exists>m. P m) \<longleftrightarrow> P RwwReader \<or> P RwwWriter1 \<or> P RwwWriter2"
  by (metis rww_mode.exhaust)

definition rww_enqueue :: "rww_mode \<Rightarrow> tid \<Rightarrow> mcrwwlock \<Rightarrow> mcrwwlock" where
  "rww_enqueue m t l = (case m of RwwReader \<Rightarrow> MCRWWLock_enqueue_as_reader t l
     | RwwWriter1 \<Rightarrow> MCRWWLock_enqueue_as_writer1 t l
     | RwwWriter2 \<Rightarrow> MCRWWLock_enqueue_as_writer2 t l)"

definition rww_can_acquire :: "rww_mode \<Rightarrow> tid \<Rightarrow> mcrwwlock \<Rightarrow> bool" where
  "rww_can_acquire m t l = (case m of RwwReader \<Rightarrow> MCRWWLock_canAcquireAsReader t l
     | RwwWriter1 \<Rightarrow> MCRWWLock_canAcquireAsWriter1 t l
     | RwwWriter2 \<Rightarrow> MCRWWLock_canAcquireAsWriter2 t l)"

definition rww_acquire :: "rww_mode \<Rightarrow> tid \<Rightarrow> mcrwwlock \<Rightarrow> mcrwwlock result" where
  "rww_acquire m t l = (case m of RwwReader \<Rightarrow> MCRWWLock_reader_lock t l
     | RwwWriter1 \<Rightarrow> MCRWWLock_writer1_lock t l
     | RwwWriter2 \<Rightarrow> MCRWWLock_writer2_lock t l)"

definition rww_queued :: "rww_mode \<Rightarrow> mcrwwlock \<Rightarrow> tid list" where
  "rww_queued m l = (case m of RwwReader \<Rightarrow> rww_reader_queue l
     | RwwWriter1 \<Rightarrow> rww_writer1_queue l | RwwWriter2 \<Rightarrow> rww_writer2_queue l)"

definition rww_holders :: "rww_mode \<Rightarrow> mcrwwlock \<Rightarrow> tid list" where
  "rww_holders m l = (case m of RwwReader \<Rightarrow> rww_active_readers l
     | RwwWriter1 \<Rightarrow> (case rww_active_writer1 l of None \<Rightarrow> [] | Some w \<Rightarrow> [w])
     | RwwWriter2 \<Rightarrow> (case rww_active_writer2 l of None \<Rightarrow> [] | Some w \<Rightarrow> [w]))"

definition rww_shared :: "rww_mode \<Rightarrow> bool" where
  "rww_shared m \<longleftrightarrow> m = RwwReader"

lemma all_rww_mode: "(\<forall>m. P m) \<longleftrightarrow> P RwwReader \<and> P RwwWriter1 \<and> P RwwWriter2"
  by (metis rww_mode.exhaust)

lemma rww_enqueue_wf:
  assumes "rwwlock_wf l" and "\<forall>m. t \<notin> set (rww_queued m l)"
  shows "rwwlock_wf (rww_enqueue m t l)"
  using assms interleaved3_snoc
  by (cases m)
     (auto simp: rwwlock_wf_def rww_enqueue_def rww_queued_def all_rww_mode
       MCRWWLock_enqueue_as_reader_def MCRWWLock_enqueue_as_writer1_def
       MCRWWLock_enqueue_as_writer2_def)

lemma shuffles_notin: "ws \<in> shuffles xs ys \<Longrightarrow> t \<notin> set xs \<Longrightarrow> t \<notin> set ys \<Longrightarrow> t \<notin> set ws"
  by (auto dest: set_shuffles)

lemma shuffles_front_of:
  "t # q \<in> shuffles xs ys \<Longrightarrow> t \<notin> set ys \<Longrightarrow> \<exists>xs'. xs = t # xs' \<and> q \<in> shuffles xs' ys"
  by (auto simp: Cons_in_shuffles_iff neq_Nil_conv)

lemma rww_reader_lock_ok:
  assumes wf: "rwwlock_wf l" and q: "t \<in> set (rww_reader_queue l)"
    and can: "MCRWWLock_canAcquireAsReader t l"
  shows "\<exists>l'. MCRWWLock_reader_lock t l = Inr l' \<and> rwwlock_wf l' \<and> t \<in> set (rww_active_readers l')"
proof -
  from wf obtain ws where ws: "ws \<in> shuffles (rww_writer1_queue l) (rww_writer2_queue l)"
      "rww_acquire_queue l \<in> shuffles (rww_reader_queue l) ws"
    by (auto simp: rwwlock_wf_def interleaved3_def)
  from can wf obtain q' where a: "rww_acquire_queue l = t # q'"
    and nw: "rww_active_writer1 l = None" "rww_active_writer2 l = None"
    by (auto simp: rwwlock_simps rwwlock_wf_def split: if_splits)
  have "t \<notin> set ws" using wf q ws shuffles_notin by (fastforce simp: rwwlock_wf_def)
  with ws a obtain r where r: "rww_reader_queue l = t # r" "q' \<in> shuffles r ws"
    using shuffles_front_of by metis
  then show ?thesis
    using wf ws a nw by (auto simp: MCRWWLock_reader_lock_def Let_def rwwlock_wf_def guardR_def interleaved3_def)
qed

lemma rww_writer1_lock_ok:
  assumes wf: "rwwlock_wf l" and q: "t \<in> set (rww_writer1_queue l)"
    and can: "MCRWWLock_canAcquireAsWriter1 t l"
  shows "\<exists>l'. MCRWWLock_writer1_lock t l = Inr l' \<and> rwwlock_wf l' \<and> rww_active_writer1 l' = Some t"
proof -
  from wf obtain ws where ws: "ws \<in> shuffles (rww_writer1_queue l) (rww_writer2_queue l)"
      "rww_acquire_queue l \<in> shuffles (rww_reader_queue l) ws"
    by (auto simp: rwwlock_wf_def interleaved3_def)
  from can wf obtain q' where a: "rww_acquire_queue l = t # q'"
    and nw: "rww_active_writer1 l = None" "rww_active_writer2 l = None" "rww_active_readers l = []"
    by (auto simp: rwwlock_simps rwwlock_wf_def split: if_splits)
  have "t \<notin> set (rww_reader_queue l)" and w2: "t \<notin> set (rww_writer2_queue l)"
    using wf q by (auto simp: rwwlock_wf_def)
  with ws a obtain ws' where ws': "ws = t # ws'" "q' \<in> shuffles (rww_reader_queue l) ws'"
    using shuffles_front_of by (metis shuffles_commutes)
  with ws w2 obtain w where "rww_writer1_queue l = t # w" "ws' \<in> shuffles w (rww_writer2_queue l)"
    using shuffles_front_of by metis
  then show ?thesis
    using wf ws' a nw by (auto simp: MCRWWLock_writer1_lock_def rwwlock_wf_def guardR_def interleaved3_def)
qed

lemma rww_writer2_lock_ok:
  assumes wf: "rwwlock_wf l" and q: "t \<in> set (rww_writer2_queue l)"
    and can: "MCRWWLock_canAcquireAsWriter2 t l"
  shows "\<exists>l'. MCRWWLock_writer2_lock t l = Inr l' \<and> rwwlock_wf l' \<and> rww_active_writer2 l' = Some t"
proof -
  from wf obtain ws where ws: "ws \<in> shuffles (rww_writer1_queue l) (rww_writer2_queue l)"
      "rww_acquire_queue l \<in> shuffles (rww_reader_queue l) ws"
    by (auto simp: rwwlock_wf_def interleaved3_def)
  from can wf obtain q' where a: "rww_acquire_queue l = t # q'"
    and nw: "rww_active_writer1 l = None" "rww_active_writer2 l = None" "rww_active_readers l = []"
    by (auto simp: rwwlock_simps rwwlock_wf_def split: if_splits)
  have "t \<notin> set (rww_reader_queue l)" and w1: "t \<notin> set (rww_writer1_queue l)"
    using wf q by (auto simp: rwwlock_wf_def)
  with ws a obtain ws' where ws': "ws = t # ws'" "q' \<in> shuffles (rww_reader_queue l) ws'"
    using shuffles_front_of by (metis shuffles_commutes)
  with ws w1 obtain w where "rww_writer2_queue l = t # w" "ws' \<in> shuffles (rww_writer1_queue l) w"
    using shuffles_front_of by (metis shuffles_commutes)
  then show ?thesis
    using wf ws' a nw by (auto simp: MCRWWLock_writer2_lock_def rwwlock_wf_def guardR_def interleaved3_def)
qed

lemma rww_unlock_ok:
  assumes "rwwlock_wf l" and "t \<in> set (rww_holders m l)"
  shows "\<exists>l'. MCRWWLock_unlock t l = Inr l' \<and> rwwlock_wf l'"
  using assms
  by (cases m)
     (auto simp: MCRWWLock_unlock_def MCRWWLock_isReaderLocked_def rwwlock_wf_def rww_holders_def
       guardR_def split: option.splits)

lemma rww_progress:
  assumes wf: "rwwlock_wf l" and free: "\<forall>m. rww_holders m l = []" and q: "t \<in> set (rww_queued m l)"
  shows "\<exists>m' u. u \<in> set (rww_queued m' l) \<and> rww_can_acquire m' u l"
proof -
  have set: "set (rww_acquire_queue l) =
      set (rww_reader_queue l) \<union> set (rww_writer1_queue l) \<union> set (rww_writer2_queue l)"
    using wf by (auto simp: rwwlock_wf_def interleaved3_def dest!: set_shuffles)
  then have "rww_acquire_queue l \<noteq> []"
    using q by (cases m) (auto simp: rww_queued_def)
  then obtain u a' where u: "rww_acquire_queue l = u # a'" by (cases "rww_acquire_queue l") auto
  then have "\<exists>m'. u \<in> set (rww_queued m' l)"
    using set by (auto simp: rww_queued_def split: rww_mode.splits)
  moreover have "rww_can_acquire m' u l" for m'
    using free wf u
    by (cases m') (auto simp: all_rww_mode rww_holders_def rww_can_acquire_def rwwlock_simps
        rwwlock_wf_def split: option.splits)
  ultimately show ?thesis by blast
qed

interpretation rww: queued_lock rwwlock_wf rww_can_acquire rww_enqueue rww_acquire
    MCRWWLock_unlock rww_queued rww_holders rww_shared
proof unfold_locales
  fix l t and m :: rww_mode
  assume "rwwlock_wf l" "\<forall>m'. t \<notin> set (rww_queued m' l)"
  then show "rwwlock_wf (rww_enqueue m t l)" by (rule rww_enqueue_wf)
next
  fix l t m
  assume "rwwlock_wf l" "t \<in> set (rww_queued m l)" "rww_can_acquire m t l"
  then show "\<exists>l'. rww_acquire m t l = Inr l' \<and> rwwlock_wf l' \<and> t \<in> set (rww_holders m l')"
    using rww_reader_lock_ok rww_writer1_lock_ok rww_writer2_lock_ok
    by (cases m) (fastforce simp: rww_queued_def rww_can_acquire_def rww_acquire_def rww_holders_def)+
next
  fix l t m
  assume "rwwlock_wf l" "t \<in> set (rww_holders m l)"
  then show "\<exists>l'. MCRWWLock_unlock t l = Inr l' \<and> rwwlock_wf l'" by (rule rww_unlock_ok)
next
  fix l t u m m'
  assume "rwwlock_wf l" "t \<in> set (rww_holders m l)" "u \<in> set (rww_holders m' l)" "t \<noteq> u \<or> m \<noteq> m'"
  then show "rww_shared m \<and> rww_shared m'"
    by (cases m; cases m'; cases "rww_active_writer1 l"; cases "rww_active_writer2 l")
       (auto simp: rww_holders_def rww_shared_def rwwlock_wf_def)
next
  fix l t m
  assume "rwwlock_wf l" "\<forall>m. rww_holders m l = []" "t \<in> set (rww_queued m l)"
  then show "\<exists>m' u. u \<in> set (rww_queued m' l) \<and> rww_can_acquire m' u l" by (rule rww_progress)
qed


section \<open>Sequences of operations\<close>

text \<open>The protocol of the wrappers, written out over the lock.\<close>

definition rww_allowed :: "rww_mode lock_op \<Rightarrow> mcrwwlock \<Rightarrow> bool" where
  "rww_allowed a l = (case a of
      Enqueue m t \<Rightarrow> t \<notin> set (rww_queued RwwReader l) \<and> t \<notin> set (rww_queued RwwWriter1 l) \<and> t \<notin> set (rww_queued RwwWriter2 l)
    | Acquire m t \<Rightarrow> t \<in> set (rww_queued m l) \<and> rww_can_acquire m t l
    | Release t \<Rightarrow> t \<in> set (rww_holders RwwReader l) \<or> t \<in> set (rww_holders RwwWriter1 l) \<or> t \<in> set (rww_holders RwwWriter2 l))"

definition rww_perform :: "rww_mode lock_op \<Rightarrow> mcrwwlock \<Rightarrow> mcrwwlock result" where
  "rww_perform a l = (case a of
      Enqueue m t \<Rightarrow> Inr (rww_enqueue m t l)
    | Acquire m t \<Rightarrow> rww_acquire m t l
    | Release t \<Rightarrow> MCRWWLock_unlock t l)"

fun rww_protocol :: "rww_mode lock_op list \<Rightarrow> mcrwwlock \<Rightarrow> bool" where
  "rww_protocol [] l = True"
| "rww_protocol (a # as) l =
     (rww_allowed a l \<and> (case rww_perform a l of Inl e \<Rightarrow> True | Inr l' \<Rightarrow> rww_protocol as l'))"

lemma rww_allowed_eq: "rww.allowed a l = rww_allowed a l"
  by (cases a) (auto simp: rww.allowed_def rww_allowed_def all_rww_mode ex_rww_mode)

lemma rww_perform_eq: "rww.perform = rww_perform"
  by (intro ext) (simp add: rww.perform_def rww_perform_def split: lock_op.split)

lemma rww_protocol_eq: "rww.protocol as l = rww_protocol as l"
  by (induction "as" arbitrary: l) (simp_all add: rww_allowed_eq rww_perform_eq split: sum.split)

lemmas rww_protocol_facts =
  rww.protocol_safe [unfolded rww_protocol_eq rww_perform_eq]
  rww.protocol_exclusive [unfolded rww_protocol_eq rww_perform_eq]
  rww.protocol_progress [unfolded rww_protocol_eq rww_perform_eq rww_allowed_eq]

end
