(* ===== verification/ObjectStore.thy ===== *)
theory ObjectStore
  imports MutexObj ThreadObj SemaphoreObj CondVar BarrierObj RWLockObj RWWLockObj
begin

text \<open>
  \<^verbatim>\<open>MCObjectStore\<close> (\<^verbatim>\<open>include/MCObjectStore.h\<close>, \<^verbatim>\<open>src/MCObjectStore.cpp\<close>): the visible objects
  of the target program by object id, each with the copy taken when it was registered, and the map
  from system addresses to ids.

  A C++ \<^verbatim>\<open>shared_ptr\<close> to a live object is its object id here: the objects the code reaches through
  such a pointer are the current ones of the store.  \<^verbatim>\<open>static_pointer_cast\<close> to another class than
  the object's, and ids never registered, are undefined in C++ and \<open>OutOfBounds\<close> here.
\<close>

section \<open>Visible objects\<close>

datatype visible_object =
    VThread mcthread
  | VMutex mcmutex
  | VSemaphore mcsem
  | VCond mccond
  | VBarrier mcbarrier
  | VRWLock mcrwlock
  | VRWWLock mcrwwlock
  | VGlobal mcglobal

definition getObjectId :: "visible_object \<Rightarrow> objid" where
  "getObjectId v = (case v of
      VThread x \<Rightarrow> thread_id x | VMutex x \<Rightarrow> mutex_id x | VSemaphore x \<Rightarrow> sem_id x
    | VCond x \<Rightarrow> cond_id x | VBarrier x \<Rightarrow> barrier_id x | VRWLock x \<Rightarrow> rw_id x
    | VRWWLock x \<Rightarrow> rww_id x | VGlobal x \<Rightarrow> global_id x)"

definition setObjectId :: "objid \<Rightarrow> visible_object \<Rightarrow> visible_object" where
  "setObjectId i v = (case v of
      VThread x \<Rightarrow> VThread (x\<lparr>thread_id := i\<rparr>) | VMutex x \<Rightarrow> VMutex (x\<lparr>mutex_id := i\<rparr>)
    | VSemaphore x \<Rightarrow> VSemaphore (x\<lparr>sem_id := i\<rparr>) | VCond x \<Rightarrow> VCond (x\<lparr>cond_id := i\<rparr>)
    | VBarrier x \<Rightarrow> VBarrier (x\<lparr>barrier_id := i\<rparr>) | VRWLock x \<Rightarrow> VRWLock (x\<lparr>rw_id := i\<rparr>)
    | VRWWLock x \<Rightarrow> VRWWLock (x\<lparr>rww_id := i\<rparr>) | VGlobal x \<Rightarrow> VGlobal (x\<lparr>global_id := i\<rparr>))"

definition getSystemId :: "visible_object \<Rightarrow> sysid" where
  "getSystemId v = (case v of
      VThread x \<Rightarrow> thread_sys x | VMutex x \<Rightarrow> mutex_sys x | VSemaphore x \<Rightarrow> sem_sys x
    | VCond x \<Rightarrow> cond_sys x | VBarrier x \<Rightarrow> barrier_sys x | VRWLock x \<Rightarrow> rw_sys x
    | VRWWLock x \<Rightarrow> rww_sys x | VGlobal x \<Rightarrow> global_addr x)"

text \<open>\<^verbatim>\<open>copy()\<close>: every field but a barrier's waiting sets.\<close>

definition object_copy :: "visible_object \<Rightarrow> visible_object" where
  "object_copy v = (case v of VBarrier b \<Rightarrow> VBarrier (MCBarrier_copy b) | _ \<Rightarrow> v)"

lemma getObjectId_set [simp]: "getObjectId (setObjectId i v) = i"
  by (cases v) (simp_all add: getObjectId_def setObjectId_def)

lemma getObjectId_copy [simp]: "getObjectId (object_copy v) = getObjectId v"
  by (cases v) (simp_all add: getObjectId_def object_copy_def)

lemma getSystemId_set [simp]: "getSystemId (setObjectId i v) = getSystemId v"
  by (cases v) (simp_all add: getSystemId_def setObjectId_def)

lemma object_copy_idem [simp]: "object_copy (object_copy v) = object_copy v"
  by (cases v) (simp_all add: object_copy_def MCBarrier_copy_def)

section \<open>The store\<close>

record object_store =
  storage :: "(visible_object \<times> visible_object) list"
  systemVisibleObjectMap :: "sysid \<Rightarrow> objid option"

definition newMCObjectStore :: object_store where
  "newMCObjectStore = \<lparr>storage = [], systemVisibleObjectMap = (\<lambda>_. None)\<rparr>"

definition registerNewObject :: "visible_object \<Rightarrow> object_store \<Rightarrow> (objid \<times> object_store) result" where
  "registerNewObject v st =
     (let newObjectId = length (storage st) in
      guardR AssertFailed (newObjectId < MAX_TOTAL_VISIBLE_OBJECTS_IN_PROGRAM)
        (let v' = setObjectId newObjectId v in
         Inr (newObjectId, st\<lparr>storage := storage st @ [(v', object_copy v')]\<rparr>)))"

text \<open>\<^verbatim>\<open>unordered_map::insert\<close> keeps the entry of a key that is there already.\<close>

definition mapSystemAddressToShadow :: "sysid \<Rightarrow> objid \<Rightarrow> object_store \<Rightarrow> object_store" where
  "mapSystemAddressToShadow sys i st =
     (if systemVisibleObjectMap st sys = None
      then st\<lparr>systemVisibleObjectMap := (systemVisibleObjectMap st)(sys := Some i)\<rparr> else st)"

definition getObjectWithId :: "objid \<Rightarrow> object_store \<Rightarrow> visible_object result" where
  "getObjectWithId i st =
     (if i < length (storage st) then Inr (fst (storage st ! i)) else Inl OutOfBounds)"

definition getObjectWithSystemAddress :: "sysid \<Rightarrow> object_store \<Rightarrow> visible_object option" where
  "getObjectWithSystemAddress sys st =
     (case systemVisibleObjectMap st sys of None \<Rightarrow> None
      | Some i \<Rightarrow> (case getObjectWithId i st of Inl _ \<Rightarrow> None | Inr v \<Rightarrow> Some v))"

definition resetObjectsToInitialStateInStore :: "object_store \<Rightarrow> object_store" where
  "resetObjectsToInitialStateInStore st =
     st\<lparr>storage := map (\<lambda>(cur, ini). (object_copy ini, ini)) (storage st)\<rparr>"

text \<open>A write through a pointer to the object with the given id.\<close>

definition modify_object ::
  "objid \<Rightarrow> (visible_object \<Rightarrow> visible_object result) \<Rightarrow> object_store \<Rightarrow> object_store result" where
  "modify_object i f st =
     bindR (getObjectWithId i st) (\<lambda>v. bindR (f v) (\<lambda>v'.
       Inr (st\<lparr>storage := (storage st)[i := (v', snd (storage st ! i))]\<rparr>)))"

definition on_thread where
  "on_thread f v = (case v of VThread x \<Rightarrow> Inr (VThread (f x)) | _ \<Rightarrow> Inl OutOfBounds)"
definition on_mutex where
  "on_mutex f v = (case v of VMutex x \<Rightarrow> Inr (VMutex (f x)) | _ \<Rightarrow> Inl OutOfBounds)"
definition on_sem where
  "on_sem f v = (case v of VSemaphore x \<Rightarrow> Inr (VSemaphore (f x)) | _ \<Rightarrow> Inl OutOfBounds)"
definition on_cond where
  "on_cond f v = (case v of VCond x \<Rightarrow> bindR (f x) (\<lambda>y. Inr (VCond y)) | _ \<Rightarrow> Inl OutOfBounds)"
definition on_barrier where
  "on_barrier f v = (case v of VBarrier x \<Rightarrow> Inr (VBarrier (f x)) | _ \<Rightarrow> Inl OutOfBounds)"
definition on_rwlock where
  "on_rwlock f v = (case v of VRWLock x \<Rightarrow> bindR (f x) (\<lambda>y. Inr (VRWLock y)) | _ \<Rightarrow> Inl OutOfBounds)"
definition on_rwwlock where
  "on_rwwlock f v = (case v of VRWWLock x \<Rightarrow> bindR (f x) (\<lambda>y. Inr (VRWWLock y)) | _ \<Rightarrow> Inl OutOfBounds)"
definition on_global where
  "on_global f v = (case v of VGlobal x \<Rightarrow> Inr (VGlobal (f x)) | _ \<Rightarrow> Inl OutOfBounds)"

lemmas on_defs = on_thread_def on_mutex_def on_sem_def on_cond_def on_barrier_def on_rwlock_def
  on_rwwlock_def on_global_def

definition getThread :: "objid \<Rightarrow> object_store \<Rightarrow> mcthread result" where
  "getThread i st = bindR (getObjectWithId i st)
     (\<lambda>v. case v of VThread x \<Rightarrow> Inr x | _ \<Rightarrow> Inl OutOfBounds)"
definition getMutex :: "objid \<Rightarrow> object_store \<Rightarrow> mcmutex result" where
  "getMutex i st = bindR (getObjectWithId i st)
     (\<lambda>v. case v of VMutex x \<Rightarrow> Inr x | _ \<Rightarrow> Inl OutOfBounds)"
definition getSem :: "objid \<Rightarrow> object_store \<Rightarrow> mcsem result" where
  "getSem i st = bindR (getObjectWithId i st)
     (\<lambda>v. case v of VSemaphore x \<Rightarrow> Inr x | _ \<Rightarrow> Inl OutOfBounds)"
definition getCond :: "objid \<Rightarrow> object_store \<Rightarrow> mccond result" where
  "getCond i st = bindR (getObjectWithId i st)
     (\<lambda>v. case v of VCond x \<Rightarrow> Inr x | _ \<Rightarrow> Inl OutOfBounds)"
definition getBarrier :: "objid \<Rightarrow> object_store \<Rightarrow> mcbarrier result" where
  "getBarrier i st = bindR (getObjectWithId i st)
     (\<lambda>v. case v of VBarrier x \<Rightarrow> Inr x | _ \<Rightarrow> Inl OutOfBounds)"
definition getRWLock :: "objid \<Rightarrow> object_store \<Rightarrow> mcrwlock result" where
  "getRWLock i st = bindR (getObjectWithId i st)
     (\<lambda>v. case v of VRWLock x \<Rightarrow> Inr x | _ \<Rightarrow> Inl OutOfBounds)"
definition getRWWLock :: "objid \<Rightarrow> object_store \<Rightarrow> mcrwwlock result" where
  "getRWWLock i st = bindR (getObjectWithId i st)
     (\<lambda>v. case v of VRWWLock x \<Rightarrow> Inr x | _ \<Rightarrow> Inl OutOfBounds)"
definition getGlobal :: "objid \<Rightarrow> object_store \<Rightarrow> mcglobal result" where
  "getGlobal i st = bindR (getObjectWithId i st)
     (\<lambda>v. case v of VGlobal x \<Rightarrow> Inr x | _ \<Rightarrow> Inl OutOfBounds)"

lemmas get_defs = getThread_def getMutex_def getSem_def getCond_def getBarrier_def getRWLock_def
  getRWWLock_def getGlobal_def

section \<open>The laws of a keyed store\<close>

text \<open>
  What the transitions rely on: reading back what was written, and writes to different objects that
  do not see each other.  The lemmas are proved from the laws alone and hold of the object store
  by the interpretation below.
\<close>

locale keyed_store =
  fixes get :: "'k \<Rightarrow> 's \<Rightarrow> 'v result"
    and update :: "'k \<Rightarrow> ('v \<Rightarrow> 'v result) \<Rightarrow> 's \<Rightarrow> 's result"
  assumes update_defined: "(\<exists>s'. update k f s = Inr s') \<longleftrightarrow> (\<exists>v v'. get k s = Inr v \<and> f v = Inr v')"
    and get_update_same: "update k f s = Inr s' \<Longrightarrow> get k s' = bindR (get k s) f"
    and get_update_other: "update k f s = Inr s' \<Longrightarrow> l \<noteq> k \<Longrightarrow> get l s' = get l s"
    and update_swap: "k \<noteq> l \<Longrightarrow> update k f s = Inr s1 \<Longrightarrow> update l g s1 = Inr s2 \<Longrightarrow>
      \<exists>t1. update l g s = Inr t1 \<and> update k f t1 = Inr s2"
    and update_merge: "update k f s = Inr s1 \<Longrightarrow> update k g s1 = update k (\<lambda>v. bindR (f v) g) s"
    and update_local: "get k s = Inr v \<Longrightarrow> f v = g v \<Longrightarrow> update k f s = update k g s"
begin

fun updates :: "('k \<times> ('v \<Rightarrow> 'v result)) list \<Rightarrow> 's \<Rightarrow> 's result" where
  "updates [] s = Inr s"
| "updates ((k, f) # us) s = bindR (update k f s) (updates us)"

lemma updates_get_other:
  "updates us s = Inr s' \<Longrightarrow> l \<notin> fst ` set us \<Longrightarrow> get l s' = get l s"
proof (induction us arbitrary: s)
  case Nil
  then show ?case by simp
next
  case (Cons u us)
  obtain k f where u: "u = (k, f)" by force
  from Cons.prems(1) obtain s1 where s1: "update k f s = Inr s1" "updates us s1 = Inr s'"
    by (auto simp: u bindR_eq_Inr)
  then show ?case
    using Cons.IH [OF s1(2)] Cons.prems(2) get_update_other [OF s1(1), of l] by (auto simp: u)
qed

text \<open>Two writes commute where they do not see each other, or where they agree on the object.\<close>

definition commute_at :: "'s \<Rightarrow> 'k \<times> ('v \<Rightarrow> 'v result) \<Rightarrow> 'k \<times> ('v \<Rightarrow> 'v result) \<Rightarrow> bool" where
  "commute_at s u w \<longleftrightarrow> (fst u = fst w \<longrightarrow> (\<forall>x y. get (fst u) s = Inr x \<longrightarrow>
     bindR (snd u x) (snd w) = Inr y \<longrightarrow> bindR (snd w x) (snd u) = Inr y))"

lemma update_exchange:
  assumes "update k f s = Inr s1" and "update l g s1 = Inr s2" and "commute_at s (k, f) (l, g)"
  shows "\<exists>t1. update l g s = Inr t1 \<and> update k f t1 = Inr s2"
proof (cases "k = l")
  case False
  then show ?thesis using update_swap [OF _ assms(1,2)] by blast
next
  case True
  from assms(1) obtain x x' where x: "get k s = Inr x" "f x = Inr x'" using update_defined by blast
  have "get k s1 = Inr x'" using get_update_same [OF assms(1)] x by simp
  then obtain y where y: "g x' = Inr y" using assms(2) True update_defined by (metis Inr_inject)
  have swap: "bindR (g x) f = Inr y" using assms(3) x y True by (simp add: commute_at_def)
  then obtain x2 where x2: "g x = Inr x2" by (auto simp: bindR_eq_Inr)
  then obtain t1 where t1: "update l g s = Inr t1" using update_defined x(1) True by blast
  have "update k f t1 = update k (\<lambda>v. bindR (g v) f) s" using update_merge t1 True by simp
  also have "\<dots> = update k (\<lambda>v. bindR (f v) g) s"
    by (rule update_local [OF x(1)]) (simp add: swap x y)
  also have "\<dots> = update l g s1" using update_merge [OF assms(1)] True by simp
  finally show ?thesis using t1 assms(2) by simp
qed

lemma commute_at_cong:
  "get (fst u) s' = get (fst u) s \<Longrightarrow> commute_at s' u w = commute_at s u w"
  by (auto simp: commute_at_def)

lemma update_updates_exchange:
  assumes "update k f s = Inr s1" and "updates us s1 = Inr s2"
    and "distinct (map fst us)" and "\<forall>u \<in> set us. commute_at s (k, f) u"
  shows "\<exists>t1. updates us s = Inr t1 \<and> update k f t1 = Inr s2"
  using assms
proof (induction us arbitrary: s s1)
  case Nil
  then show ?case by simp
next
  case (Cons u us)
  obtain l g where u: "u = (l, g)" by force
  from Cons.prems(2) obtain s' where s': "update l g s1 = Inr s'" "updates us s' = Inr s2"
    by (auto simp: u bindR_eq_Inr)
  obtain t1 where t1: "update l g s = Inr t1" "update k f t1 = Inr s'"
    using update_exchange [OF Cons.prems(1) s'(1)] Cons.prems(4) by (auto simp: u)
  have "commute_at t1 (k, f) w" if "w \<in> set us" for w
  proof -
    have "l \<noteq> fst w" using Cons.prems(3) that by (force simp: u)
    then show ?thesis
      using Cons.prems(4) that get_update_other [OF t1(1), of k] by (auto simp: commute_at_def)
  qed
  then show ?case
    using Cons.IH [OF t1(2) s'(2)] Cons.prems(3) t1(1) by (auto simp: u)
qed

text \<open>So two lists of writes can be exchanged when all their members can.\<close>

lemma updates_exchange:
  assumes "updates us s = Inr s1" and "updates vs s1 = Inr s2"
    and "distinct (map fst us)" and "distinct (map fst vs)"
    and "\<forall>u \<in> set us. \<forall>w \<in> set vs. commute_at s u w"
  shows "\<exists>t1. updates vs s = Inr t1 \<and> updates us t1 = Inr s2"
  using assms
proof (induction us arbitrary: s)
  case Nil
  then show ?case by simp
next
  case (Cons u us)
  obtain k f where u: "u = (k, f)" by force
  from Cons.prems(1) obtain s' where s': "update k f s = Inr s'" "updates us s' = Inr s1"
    by (auto simp: u bindR_eq_Inr)
  have "commute_at s' v w" if "v \<in> set us" "w \<in> set vs" for v w
  proof -
    have "fst v \<noteq> k" using Cons.prems(3) that(1) by (force simp: u)
    then show ?thesis
      using Cons.prems(5) that get_update_other [OF s'(1)] commute_at_cong by (metis list.set_intros(2))
  qed
  with Cons.IH [OF s'(2) Cons.prems(2)] Cons.prems(3,4) obtain t' where
    t': "updates vs s' = Inr t'" "updates us t' = Inr s2" by auto
  from update_updates_exchange [OF s'(1) t'(1) Cons.prems(4)] Cons.prems(5) show ?case
    using t'(2) by (auto simp: u)
qed

end

lemma getObjectWithId_modify:
  assumes "modify_object i f st = Inr st'"
  shows "getObjectWithId j st' = (if j = i then bindR (getObjectWithId i st) f else getObjectWithId j st)"
  using assms by (auto simp: modify_object_def getObjectWithId_def result_simps split: if_splits)

lemma modify_object_defined:
  "(\<exists>st'. modify_object i f st = Inr st') \<longleftrightarrow> (\<exists>v v'. getObjectWithId i st = Inr v \<and> f v = Inr v')"
  by (auto simp: modify_object_def result_simps)

interpretation os: keyed_store getObjectWithId modify_object
proof unfold_locales
  fix k f s
  show "(\<exists>s'. modify_object k f s = Inr s') \<longleftrightarrow>
      (\<exists>v v'. getObjectWithId k s = Inr v \<and> f v = Inr v')"
    by (rule modify_object_defined)
next
  fix k f s s'
  assume "modify_object k f s = Inr s'"
  then show "getObjectWithId k s' = bindR (getObjectWithId k s) f"
    by (simp add: getObjectWithId_modify)
next
  fix k f s s' l
  assume "modify_object k f s = Inr s'" "l \<noteq> k"
  then show "getObjectWithId l s' = getObjectWithId l s"
    by (simp add: getObjectWithId_modify)
next
  fix k l f g s s1 s2
  assume "k \<noteq> l" "modify_object k f s = Inr s1" "modify_object l g s1 = Inr s2"
  then show "\<exists>t1. modify_object l g s = Inr t1 \<and> modify_object k f t1 = Inr s2"
    by (auto simp: modify_object_def getObjectWithId_def result_simps list_update_swap
        split: if_splits)
next
  fix k f s s1 g
  assume "modify_object k f s = Inr s1"
  then show "modify_object k g s1 = modify_object k (\<lambda>v. bindR (f v) g) s"
    by (auto simp: modify_object_def getObjectWithId_def result_simps bindR_assoc
        split: if_splits)
next
  fix k s v and f g :: "visible_object \<Rightarrow> visible_object result"
  assume "getObjectWithId k s = Inr v" "f v = g v"
  then show "modify_object k f s = modify_object k g s" by (simp add: modify_object_def)
qed

end
