(* ===== verification/TransitionBase.thy ===== *)
theory TransitionBase
  imports ObjectStore
begin

text \<open>
  \<^verbatim>\<open>MCTransition\<close> (\<^verbatim>\<open>include/MCTransition.h\<close>): the transitions of the target program and the virtual
  methods of their classes.

  A transition is a value: the family of its class, the thread that runs it, the class itself and
  the object it is about, with the contents the transition sees through its pointers.  A transition
  in the transition stack is a static copy, whose contents are the snapshot; a pending transition
  points to the live objects, so it is refreshed from the store whenever it is read
  (\<open>Transitions.refresh\<close>).  \<open>methods\<close> is the table of virtual methods; a class is a definition
  that overrides fields of the base class's table.  The methods of the livelock test are
  in theories of their own (\<^verbatim>\<open>getObjectsAccessedByTransition\<close> in \<open>Livelock\<close>, \<^verbatim>\<open>toUniqueRep\<close> in \<open>UniqueRep\<close>);
  printing (\<^verbatim>\<open>print\<close>) is left out.
\<close>

datatype thread_op = ThreadCreate | ThreadStart | ThreadJoin | ThreadFinish

datatype mutex_op = MutexInit | MutexLock | MutexTrylock (acquired: bool) | MutexUnlock

datatype sem_op = SemInit | SemPost | SemEnqueue | SemWait

text \<open>
  \<^verbatim>\<open>MCCondEnqueue\<close> has a mutex of its own; \<^verbatim>\<open>MCCondWait\<close> reads the mutex its condition variable
  points to, \<open>None\<close> for the null pointer.
\<close>

datatype cond_op = CondInit | CondSignal | CondBroadcast | CondEnqueue mcmutex
  | CondWait "mcmutex option"

datatype barrier_op = BarrierInit | BarrierEnqueue | BarrierWait

datatype rwlock_op = RWLockInit | RWLockReaderEnqueue | RWLockReaderLock | RWLockWriterEnqueue
  | RWLockWriterLock | RWLockUnlock

datatype rwwlock_op = RWWLockInit | RWWLockReaderEnqueue | RWWLockReaderLock
  | RWWLockWriter1Enqueue | RWWLockWriter1Lock | RWWLockWriter2Enqueue | RWWLockWriter2Lock
  | RWWLockUnlock

datatype global_op = GlobalRead | GlobalWrite u64

datatype transition =
    MCThreadTransition mcthread thread_op mcthread
  | MCMutexTransition mcthread mutex_op mcmutex
  | MCSemaphoreTransition mcthread sem_op mcsem
  | MCCondTransition mcthread cond_op mccond
  | MCBarrierTransition mcthread barrier_op mcbarrier
  | MCRWLockTransition mcthread rwlock_op mcrwlock
  | MCRWWLockTransition mcthread rwwlock_op mcrwwlock
  | MCGlobalVariableTransition mcthread global_op mcglobal
  | MCAbortTransition mcthread
  | MCExitTransition mcthread int
  | MCProgressTransition mcthread

definition transition_thread :: "transition \<Rightarrow> mcthread" where
  "transition_thread t = (case t of
      MCThreadTransition th _ _ \<Rightarrow> th
    | MCMutexTransition th _ _ \<Rightarrow> th
    | MCSemaphoreTransition th _ _ \<Rightarrow> th
    | MCCondTransition th _ _ \<Rightarrow> th
    | MCBarrierTransition th _ _ \<Rightarrow> th
    | MCRWLockTransition th _ _ \<Rightarrow> th
    | MCRWWLockTransition th _ _ \<Rightarrow> th
    | MCGlobalVariableTransition th _ _ \<Rightarrow> th
    | MCAbortTransition th \<Rightarrow> th
    | MCExitTransition th _ \<Rightarrow> th
    | MCProgressTransition th \<Rightarrow> th)"

definition getThreadId :: "transition \<Rightarrow> tid" where
  "getThreadId t = thread_tid (transition_thread t)"

definition threadIsEnabled :: "transition \<Rightarrow> bool" where
  "threadIsEnabled t \<longleftrightarrow> MCThread_enabled (transition_thread t)"

text \<open>How a method reaches a live thread: \<^verbatim>\<open>MCStack::getThreadWithId\<close>.\<close>

type_synonym thread_lookup = "tid \<Rightarrow> mcthread result"

record methods =
  staticCopy :: transition
  dynamicCopyInState :: "thread_lookup \<Rightarrow> object_store \<Rightarrow> transition result"
  enabledInState :: bool
  applyToState :: "object_store \<Rightarrow> object_store result"
  isReversibleInState :: bool
  unapplyToState :: "object_store \<Rightarrow> object_store result"
  coenabledWith :: "transition \<Rightarrow> bool"
  dependentWith :: "transition \<Rightarrow> bool"
  isRacingWith :: "transition \<Rightarrow> bool"
  ensuresDeadlockIsImpossible :: bool
  countsAgainstThreadExecutionDepth :: bool

text \<open>
  The base class.  \<^verbatim>\<open>staticCopy\<close>, \<^verbatim>\<open>dynamicCopyInState\<close> and \<^verbatim>\<open>applyToState\<close> are pure virtual; every
  class below overrides the first two, and the classes that do not override the third have an empty
  \<^verbatim>\<open>applyToState\<close> of their own.  The base \<^verbatim>\<open>unapplyToState\<close> throws when the transition is not
  reversible, which no class that keeps it is.
\<close>

definition MCTransition_methods :: "transition \<Rightarrow> methods" where
  "MCTransition_methods this =
     \<lparr>staticCopy = this,
      dynamicCopyInState = (\<lambda>thr st. Inr this),
      enabledInState = True,
      applyToState = Inr,
      isReversibleInState = False,
      unapplyToState = (\<lambda>st. Inl RuntimeError),
      coenabledWith = (\<lambda>other. True),
      dependentWith = (\<lambda>other. True),
      isRacingWith = (\<lambda>other. False),
      ensuresDeadlockIsImpossible = False,
      countsAgainstThreadExecutionDepth = True\<rparr>"

text \<open>The conditions on thread creation and joining that every class shares.\<close>

definition doesCreateThread :: "transition \<Rightarrow> tid \<Rightarrow> bool option" where
  "doesCreateThread t x = (case t of
      MCThreadTransition _ ThreadCreate target \<Rightarrow> Some (thread_tid target = x) | _ \<Rightarrow> None)"

definition joinsOnThread :: "transition \<Rightarrow> tid \<Rightarrow> bool option" where
  "joinsOnThread t x = (case t of
      MCThreadTransition _ ThreadJoin target \<Rightarrow> Some (thread_tid target = x) | _ \<Rightarrow> None)"

definition transitionsDependentCommon :: "transition \<Rightarrow> transition \<Rightarrow> bool" where
  "transitionsDependentCommon t1 t2 \<longleftrightarrow>
     (if getThreadId t1 = getThreadId t2 then True
      else case doesCreateThread t1 (getThreadId t2) of Some b \<Rightarrow> b
      | None \<Rightarrow> (case doesCreateThread t2 (getThreadId t1) of Some b \<Rightarrow> b
      | None \<Rightarrow> (case joinsOnThread t1 (getThreadId t2) of Some b \<Rightarrow> b
      | None \<Rightarrow> (case joinsOnThread t2 (getThreadId t1) of Some b \<Rightarrow> b
      | None \<Rightarrow> False))))"

definition transitionsCoenabledCommon :: "transition \<Rightarrow> transition \<Rightarrow> bool" where
  "transitionsCoenabledCommon t1 t2 \<longleftrightarrow>
     (if getThreadId t1 = getThreadId t2 then False
      else case doesCreateThread t1 (getThreadId t2) of Some b \<Rightarrow> \<not> b
      | None \<Rightarrow> (case doesCreateThread t2 (getThreadId t1) of Some b \<Rightarrow> \<not> b
      | None \<Rightarrow> (case joinsOnThread t1 (getThreadId t2) of Some b \<Rightarrow> \<not> b
      | None \<Rightarrow> (case joinsOnThread t2 (getThreadId t1) of Some b \<Rightarrow> \<not> b
      | None \<Rightarrow> True))))"

text \<open>
  The tests of two transitions, over the dispatch of their methods: \<^verbatim>\<open>MCCondEnqueue\<close> and
  \<^verbatim>\<open>MCCondWait\<close> call them on mutex transitions while the dispatch of all classes is being defined.
\<close>

definition dependentTransitions_via ::
  "(transition \<Rightarrow> methods) \<Rightarrow> transition \<Rightarrow> transition \<Rightarrow> bool" where
  "dependentTransitions_via disp t1 t2 \<longleftrightarrow>
     transitionsDependentCommon t1 t2 \<or> dependentWith (disp t1) t2 \<or> dependentWith (disp t2) t1"

definition coenabledTransitions_via ::
  "(transition \<Rightarrow> methods) \<Rightarrow> transition \<Rightarrow> transition \<Rightarrow> bool" where
  "coenabledTransitions_via disp t1 t2 \<longleftrightarrow>
     transitionsCoenabledCommon t1 t2 \<and> coenabledWith (disp t1) t2 \<and> coenabledWith (disp t2) t1"

lemma common_complementary: "transitionsCoenabledCommon t1 t2 \<longleftrightarrow> \<not> transitionsDependentCommon t1 t2"
  by (auto simp: transitionsCoenabledCommon_def transitionsDependentCommon_def split: option.splits)

end
