(* ===== verification/TransitionClasses.thy ===== *)
theory TransitionClasses
  imports TransitionBase
begin

text \<open>
  The transition classes, one definition per class with the methods it overrides, in the order of
  its source file: \<open>th\<close> is the thread that runs the transition and \<open>o1\<close> the object it is about.
\<close>

section \<open>Mutexes\<close>

text \<open>\<^verbatim>\<open>src/transitions/mutex\<close>.\<close>

definition MCMutexInit_methods :: "mcthread \<Rightarrow> mcmutex \<Rightarrow> methods" where
  "MCMutexInit_methods th o1 = (MCTransition_methods (MCMutexTransition th MutexInit o1))
    \<lparr>staticCopy := MCMutexTransition th MutexInit o1,
     dynamicCopyInState := (\<lambda>thr st. bindR (thr (thread_tid th)) (\<lambda>th'.
        bindR (getMutex (mutex_id o1) st) (\<lambda>o'. Inr (MCMutexTransition th' MutexInit o')))),
     applyToState := modify_object (mutex_id o1) (on_mutex MCMutex_init),
     unapplyToState := modify_object (mutex_id o1) (on_mutex MCMutex_deinit),
     isReversibleInState := True,
     coenabledWith := (\<lambda>other. True),
     dependentWith := (\<lambda>other. case other of MCMutexTransition _ _ o2 \<Rightarrow> MCMutex_eq o2 o1
          | _ \<Rightarrow> False)\<rparr>"

definition MCMutexLock_methods :: "mcthread \<Rightarrow> mcmutex \<Rightarrow> methods" where
  "MCMutexLock_methods th o1 = (MCTransition_methods (MCMutexTransition th MutexLock o1))
    \<lparr>staticCopy := MCMutexTransition th MutexLock o1,
     dynamicCopyInState := (\<lambda>thr st. bindR (thr (thread_tid th)) (\<lambda>th'.
        bindR (getMutex (mutex_id o1) st) (\<lambda>o'. Inr (MCMutexTransition th' MutexLock o')))),
     applyToState := modify_object (mutex_id o1) (on_mutex (MCMutex_lock (thread_tid th))),
     unapplyToState := modify_object (mutex_id o1) (on_mutex MCMutex_unlock),
     isReversibleInState := False,
     enabledInState := MCMutex_canAcquire (thread_tid th) o1,
     coenabledWith := (\<lambda>other. case other of MCMutexTransition _ MutexUnlock o2 \<Rightarrow> \<not> MCMutex_eq o2 o1
          | _ \<Rightarrow> True),
     dependentWith := (\<lambda>other. case other of MCMutexTransition _ MutexLock o2 \<Rightarrow> MCMutex_eq o2 o1
          | MCMutexTransition _ MutexUnlock o2 \<Rightarrow> MCMutex_eq o2 o1
          | _ \<Rightarrow> False)\<rparr>"

definition MCMutexTrylock_methods :: "mcthread \<Rightarrow> bool \<Rightarrow> mcmutex \<Rightarrow> methods" where
  "MCMutexTrylock_methods th acq o1 = (MCTransition_methods (MCMutexTransition th (MutexTrylock acq) o1))
    \<lparr>staticCopy := MCMutexTransition th (MutexTrylock (MCMutex_isUnlocked o1)) o1,
     dynamicCopyInState := (\<lambda>thr st. bindR (thr (thread_tid th)) (\<lambda>th'.
        bindR (getMutex (mutex_id o1) st) (\<lambda>o'.
          Inr (MCMutexTransition th' (MutexTrylock (MCMutex_isUnlocked o1)) o')))),
     applyToState :=
       (if acq then modify_object (mutex_id o1) (on_mutex (MCMutex_lock (thread_tid th))) else Inr),
     unapplyToState := (if acq then modify_object (mutex_id o1) (on_mutex MCMutex_unlock) else Inr),
     isReversibleInState := False,
     enabledInState := True,
     coenabledWith := (\<lambda>other. True),
     dependentWith := (\<lambda>other. case other of MCMutexTransition _ MutexLock o2 \<Rightarrow> MCMutex_eq o2 o1
          | MCMutexTransition _ MutexUnlock o2 \<Rightarrow> MCMutex_eq o2 o1
          | MCMutexTransition _ (MutexTrylock _) o2 \<Rightarrow> MCMutex_eq o2 o1
          | _ \<Rightarrow> False)\<rparr>"

definition MCMutexUnlock_methods :: "mcthread \<Rightarrow> mcmutex \<Rightarrow> methods" where
  "MCMutexUnlock_methods th o1 = (MCTransition_methods (MCMutexTransition th MutexUnlock o1))
    \<lparr>staticCopy := MCMutexTransition th MutexUnlock o1,
     dynamicCopyInState := (\<lambda>thr st. bindR (thr (thread_tid th)) (\<lambda>th'.
        bindR (getMutex (mutex_id o1) st) (\<lambda>o'. Inr (MCMutexTransition th' MutexUnlock o')))),
     applyToState := modify_object (mutex_id o1) (on_mutex MCMutex_unlock),
     unapplyToState := modify_object (mutex_id o1) (on_mutex (MCMutex_lock (thread_tid th))),
     isReversibleInState := True,
     coenabledWith := (\<lambda>other. True),
     dependentWith := (\<lambda>other. False)\<rparr>"

text \<open>The dispatch over the mutex family, the only one the condition variable classes call.\<close>

definition mutex_dispatch :: "transition \<Rightarrow> methods" where
  "mutex_dispatch t = (case t of
      MCMutexTransition th MutexInit m \<Rightarrow> MCMutexInit_methods th m
    | MCMutexTransition th MutexLock m \<Rightarrow> MCMutexLock_methods th m
    | MCMutexTransition th (MutexTrylock acq) m \<Rightarrow> MCMutexTrylock_methods th acq m
    | MCMutexTransition th MutexUnlock m \<Rightarrow> MCMutexUnlock_methods th m
    | _ \<Rightarrow> MCTransition_methods t)"

section \<open>Threads\<close>

text \<open>\<^verbatim>\<open>src/transitions/threads\<close>.  The executing thread of a start or finish is also its target.\<close>

definition MCThreadCreate_methods :: "mcthread \<Rightarrow> mcthread \<Rightarrow> methods" where
  "MCThreadCreate_methods th o1 = (MCTransition_methods (MCThreadTransition th ThreadCreate o1))
    \<lparr>staticCopy := MCThreadTransition th ThreadCreate o1,
     dynamicCopyInState := (\<lambda>thr st. bindR (thr (thread_tid th)) (\<lambda>th'.
        bindR (thr (thread_tid o1)) (\<lambda>o'. Inr (MCThreadTransition th' ThreadCreate o')))),
     applyToState := modify_object (thread_id o1) (on_thread MCThread_spawn),
     unapplyToState := modify_object (thread_id o1) (on_thread MCThread_despawn),
     isReversibleInState := False,
     coenabledWith := (\<lambda>other.
          \<not> (thread_tid th = getThreadId other \<or> thread_tid o1 = getThreadId other)),
     dependentWith := (\<lambda>other.
          thread_tid th = getThreadId other \<or> thread_tid o1 = getThreadId other)\<rparr>"

definition MCThreadStart_methods :: "mcthread \<Rightarrow> mcthread \<Rightarrow> methods" where
  "MCThreadStart_methods th o1 = (MCTransition_methods (MCThreadTransition th ThreadStart o1))
    \<lparr>staticCopy := MCThreadTransition th ThreadStart th,
     dynamicCopyInState := (\<lambda>thr st. bindR (thr (thread_tid th)) (\<lambda>th'. Inr (MCThreadTransition th' ThreadStart th'))),
     applyToState := modify_object (thread_id th) (on_thread MCThread_spawn),
     unapplyToState := modify_object (thread_id th) (on_thread MCThread_despawn),
     isReversibleInState := False,
     coenabledWith := (\<lambda>other. thread_tid th \<noteq> getThreadId other),
     dependentWith := (\<lambda>other. thread_tid th = getThreadId other),
     countsAgainstThreadExecutionDepth := False\<rparr>"

definition MCThreadJoin_methods :: "mcthread \<Rightarrow> mcthread \<Rightarrow> methods" where
  "MCThreadJoin_methods th o1 = (MCTransition_methods (MCThreadTransition th ThreadJoin o1))
    \<lparr>staticCopy := MCThreadTransition th ThreadJoin o1,
     dynamicCopyInState := (\<lambda>thr st. bindR (thr (thread_tid th)) (\<lambda>th'.
        bindR (thr (thread_tid o1)) (\<lambda>o'. Inr (MCThreadTransition th' ThreadJoin o')))),
     enabledInState := MCThread_isDead o1,
     applyToState := (\<lambda>st. guardR AssertFailed (MCThread_isDead o1) (Inr st)),
     unapplyToState := Inr,
     isReversibleInState := True,
     coenabledWith := (\<lambda>other.
          \<not> (thread_tid th = getThreadId other \<or> thread_tid o1 = getThreadId other)),
     dependentWith := (\<lambda>other.
          thread_tid th = getThreadId other \<or> thread_tid o1 = getThreadId other)\<rparr>"

definition MCThreadFinish_methods :: "mcthread \<Rightarrow> mcthread \<Rightarrow> methods" where
  "MCThreadFinish_methods th o1 = (MCTransition_methods (MCThreadTransition th ThreadFinish o1))
    \<lparr>staticCopy := MCThreadTransition th ThreadFinish th,
     dynamicCopyInState := (\<lambda>thr st. bindR (thr (thread_tid th)) (\<lambda>th'. Inr (MCThreadTransition th' ThreadFinish th'))),
     applyToState := modify_object (thread_id o1) (on_thread MCThread_die),
     unapplyToState := modify_object (thread_id o1) (on_thread MCThread_spawn),
     isReversibleInState := True,
     enabledInState := thread_tid th \<noteq> TID_MAIN_THREAD,
     coenabledWith := (\<lambda>other. thread_tid th \<noteq> getThreadId other),
     dependentWith := (\<lambda>other. thread_tid th = getThreadId other),
     ensuresDeadlockIsImpossible := (thread_tid th = TID_MAIN_THREAD),
     countsAgainstThreadExecutionDepth := False\<rparr>"

section \<open>Semaphores\<close>

text \<open>\<^verbatim>\<open>src/transitions/semaphore\<close>.\<close>

definition MCSemInit_methods :: "mcthread \<Rightarrow> mcsem \<Rightarrow> methods" where
  "MCSemInit_methods th o1 = (MCTransition_methods (MCSemaphoreTransition th SemInit o1))
    \<lparr>staticCopy := MCSemaphoreTransition th SemInit o1,
     dynamicCopyInState := (\<lambda>thr st. bindR (thr (thread_tid th)) (\<lambda>th'.
        bindR (getSem (sem_id o1) st) (\<lambda>o'. Inr (MCSemaphoreTransition th' SemInit o')))),
     applyToState := modify_object (sem_id o1) (on_sem MCSemaphore_init),
     coenabledWith := (\<lambda>other. True),
     dependentWith := (\<lambda>other. False)\<rparr>"

definition MCSemPost_methods :: "mcthread \<Rightarrow> mcsem \<Rightarrow> methods" where
  "MCSemPost_methods th o1 = (MCTransition_methods (MCSemaphoreTransition th SemPost o1))
    \<lparr>staticCopy := MCSemaphoreTransition th SemPost o1,
     dynamicCopyInState := (\<lambda>thr st. bindR (thr (thread_tid th)) (\<lambda>th'.
        bindR (getSem (sem_id o1) st) (\<lambda>o'. Inr (MCSemaphoreTransition th' SemPost o')))),
     applyToState := modify_object (sem_id o1) (on_sem MCSemaphore_post),
     coenabledWith := (\<lambda>other. True),
     dependentWith := (\<lambda>other. case other of MCSemaphoreTransition _ SemInit o2 \<Rightarrow> MCSemaphore_eq o2 o1
          | _ \<Rightarrow> False)\<rparr>"

definition MCSemEnqueue_methods :: "mcthread \<Rightarrow> mcsem \<Rightarrow> methods" where
  "MCSemEnqueue_methods th o1 = (MCTransition_methods (MCSemaphoreTransition th SemEnqueue o1))
    \<lparr>staticCopy := MCSemaphoreTransition th SemEnqueue o1,
     dynamicCopyInState := (\<lambda>thr st. bindR (thr (thread_tid th)) (\<lambda>th'.
        bindR (getSem (sem_id o1) st) (\<lambda>o'. Inr (MCSemaphoreTransition th' SemEnqueue o')))),
     applyToState := modify_object (sem_id o1) (on_sem (MCSemaphore_enterWaitingQueue (thread_tid th))),
     coenabledWith := (\<lambda>other. True),
     dependentWith := (\<lambda>other. case other of MCSemaphoreTransition _ SemInit o2 \<Rightarrow> MCSemaphore_eq o2 o1
          | MCSemaphoreTransition _ SemEnqueue o2 \<Rightarrow> MCSemaphore_eq o2 o1
          | _ \<Rightarrow> False),
     countsAgainstThreadExecutionDepth := False\<rparr>"

definition MCSemWait_methods :: "mcthread \<Rightarrow> mcsem \<Rightarrow> methods" where
  "MCSemWait_methods th o1 = (MCTransition_methods (MCSemaphoreTransition th SemWait o1))
    \<lparr>staticCopy := MCSemaphoreTransition th SemWait o1,
     dynamicCopyInState := (\<lambda>thr st. bindR (thr (thread_tid th)) (\<lambda>th'.
        bindR (getSem (sem_id o1) st) (\<lambda>o'. Inr (MCSemaphoreTransition th' SemWait o')))),
     applyToState :=
       modify_object (sem_id o1) (on_sem (\<lambda>s. MCSemaphore_leaveWaitingQueue (thread_tid th) (MCSemaphore_wait s))),
     coenabledWith := (\<lambda>other. True),
     dependentWith := (\<lambda>other. case other of MCSemaphoreTransition _ SemInit o2 \<Rightarrow> MCSemaphore_eq o2 o1
          | MCSemaphoreTransition _ SemWait o2 \<Rightarrow> MCSemaphore_eq o2 o1
          | _ \<Rightarrow> False),
     enabledInState := MCSemaphore_threadCanExit (thread_tid th) o1\<rparr>"

section \<open>Barriers\<close>

text \<open>\<^verbatim>\<open>src/transitions/barrier\<close>.  \<^verbatim>\<open>MCBarrierWait\<close> has no effect: the thread joined the round when the operation was read.\<close>

definition MCBarrierInit_methods :: "mcthread \<Rightarrow> mcbarrier \<Rightarrow> methods" where
  "MCBarrierInit_methods th o1 = (MCTransition_methods (MCBarrierTransition th BarrierInit o1))
    \<lparr>staticCopy := MCBarrierTransition th BarrierInit (MCBarrier_copy o1),
     dynamicCopyInState := (\<lambda>thr st. bindR (thr (thread_tid th)) (\<lambda>th'.
        bindR (getBarrier (barrier_id o1) st) (\<lambda>o'. Inr (MCBarrierTransition th' BarrierInit o')))),
     applyToState := modify_object (barrier_id o1) (on_barrier MCBarrier_init),
     coenabledWith := (\<lambda>other. True),
     dependentWith := (\<lambda>other. case other of MCBarrierTransition _ _ o2 \<Rightarrow> MCBarrier_eq o2 o1
          | _ \<Rightarrow> False)\<rparr>"

definition MCBarrierEnqueue_methods :: "mcthread \<Rightarrow> mcbarrier \<Rightarrow> methods" where
  "MCBarrierEnqueue_methods th o1 = (MCTransition_methods (MCBarrierTransition th BarrierEnqueue o1))
    \<lparr>staticCopy := MCBarrierTransition th BarrierEnqueue (MCBarrier_copy o1),
     dynamicCopyInState := (\<lambda>thr st. bindR (thr (thread_tid th)) (\<lambda>th'.
        bindR (getBarrier (barrier_id o1) st) (\<lambda>o'. Inr (MCBarrierTransition th' BarrierEnqueue o')))),
     applyToState := modify_object (barrier_id o1) (on_barrier (MCBarrier_wait (thread_tid th))),
     coenabledWith := (\<lambda>other. True),
     dependentWith := (\<lambda>other. case other of MCBarrierTransition _ _ o2 \<Rightarrow> MCBarrier_eq o2 o1
          | _ \<Rightarrow> False),
     countsAgainstThreadExecutionDepth := False\<rparr>"

definition MCBarrierWait_methods :: "mcthread \<Rightarrow> mcbarrier \<Rightarrow> methods" where
  "MCBarrierWait_methods th o1 = (MCTransition_methods (MCBarrierTransition th BarrierWait o1))
    \<lparr>staticCopy := MCBarrierTransition th BarrierWait (MCBarrier_copy o1),
     dynamicCopyInState := (\<lambda>thr st. bindR (thr (thread_tid th)) (\<lambda>th'.
        bindR (getBarrier (barrier_id o1) st) (\<lambda>o'. Inr (MCBarrierTransition th' BarrierWait o')))),
     applyToState := Inr,
     coenabledWith := (\<lambda>other. \<not> MCBarrier_wouldBlockIfWaitedOn (thread_tid th) o1),
     dependentWith := (\<lambda>other. case other of MCBarrierTransition _ _ o2 \<Rightarrow> MCBarrier_eq o2 o1
          | _ \<Rightarrow> False),
     enabledInState := (\<not> MCBarrier_wouldBlockIfWaitedOn (thread_tid th) o1)\<rparr>"

section \<open>Reader/writer locks\<close>

text \<open>\<^verbatim>\<open>src/transitions/rwlock\<close>.\<close>

definition MCRWLockInit_methods :: "mcthread \<Rightarrow> mcrwlock \<Rightarrow> methods" where
  "MCRWLockInit_methods th o1 = (MCTransition_methods (MCRWLockTransition th RWLockInit o1))
    \<lparr>staticCopy := MCRWLockTransition th RWLockInit o1,
     dynamicCopyInState := (\<lambda>thr st. bindR (thr (thread_tid th)) (\<lambda>th'.
        bindR (getRWLock (rw_id o1) st) (\<lambda>o'. Inr (MCRWLockTransition th' RWLockInit o')))),
     applyToState := modify_object (rw_id o1) (on_rwlock (\<lambda>l. Inr (MCRWLock_init l))),
     coenabledWith := (\<lambda>other. True),
     dependentWith := (\<lambda>other. case other of MCRWLockTransition _ _ o2 \<Rightarrow> MCRWLock_eq o2 o1
          | _ \<Rightarrow> False)\<rparr>"

definition MCRWLockReaderEnqueue_methods :: "mcthread \<Rightarrow> mcrwlock \<Rightarrow> methods" where
  "MCRWLockReaderEnqueue_methods th o1 = (MCTransition_methods (MCRWLockTransition th RWLockReaderEnqueue o1))
    \<lparr>staticCopy := MCRWLockTransition th RWLockReaderEnqueue o1,
     dynamicCopyInState := (\<lambda>thr st. bindR (thr (thread_tid th)) (\<lambda>th'.
        bindR (getRWLock (rw_id o1) st) (\<lambda>o'. Inr (MCRWLockTransition th' RWLockReaderEnqueue o')))),
     applyToState := modify_object (rw_id o1) (on_rwlock (\<lambda>l. Inr (MCRWLock_enqueue_as_reader (thread_tid th) l))),
     coenabledWith := (\<lambda>other. True),
     dependentWith := (\<lambda>other. case other of MCRWLockTransition _ _ o2 \<Rightarrow> MCRWLock_eq o2 o1
          | _ \<Rightarrow> False),
     countsAgainstThreadExecutionDepth := False\<rparr>"

definition MCRWLockReaderLock_methods :: "mcthread \<Rightarrow> mcrwlock \<Rightarrow> methods" where
  "MCRWLockReaderLock_methods th o1 = (MCTransition_methods (MCRWLockTransition th RWLockReaderLock o1))
    \<lparr>staticCopy := MCRWLockTransition th RWLockReaderLock o1,
     dynamicCopyInState := (\<lambda>thr st. bindR (thr (thread_tid th)) (\<lambda>th'.
        bindR (getRWLock (rw_id o1) st) (\<lambda>o'. Inr (MCRWLockTransition th' RWLockReaderLock o')))),
     applyToState := modify_object (rw_id o1) (on_rwlock (MCRWLock_reader_lock (thread_tid th))),
     enabledInState := MCRWLock_canAcquireAsReader (thread_tid th) o1,
     coenabledWith := (\<lambda>other. case other of MCRWLockTransition _ RWLockReaderLock _ \<Rightarrow> True
        | MCRWLockTransition _ RWLockWriterLock o2 \<Rightarrow> \<not> MCRWLock_eq o2 o1 | _ \<Rightarrow> True),
     dependentWith := (\<lambda>other. case other of MCRWLockTransition _ RWLockReaderLock _ \<Rightarrow> False
        | MCRWLockTransition _ _ o2 \<Rightarrow> MCRWLock_eq o2 o1 | _ \<Rightarrow> False)\<rparr>"

definition MCRWLockWriterEnqueue_methods :: "mcthread \<Rightarrow> mcrwlock \<Rightarrow> methods" where
  "MCRWLockWriterEnqueue_methods th o1 = (MCTransition_methods (MCRWLockTransition th RWLockWriterEnqueue o1))
    \<lparr>staticCopy := MCRWLockTransition th RWLockWriterEnqueue o1,
     dynamicCopyInState := (\<lambda>thr st. bindR (thr (thread_tid th)) (\<lambda>th'.
        bindR (getRWLock (rw_id o1) st) (\<lambda>o'. Inr (MCRWLockTransition th' RWLockWriterEnqueue o')))),
     applyToState := modify_object (rw_id o1) (on_rwlock (\<lambda>l. Inr (MCRWLock_enqueue_as_writer (thread_tid th) l))),
     coenabledWith := (\<lambda>other. True),
     dependentWith := (\<lambda>other. case other of MCRWLockTransition _ _ o2 \<Rightarrow> MCRWLock_eq o2 o1
          | _ \<Rightarrow> False),
     countsAgainstThreadExecutionDepth := False\<rparr>"

definition MCRWLockWriterLock_methods :: "mcthread \<Rightarrow> mcrwlock \<Rightarrow> methods" where
  "MCRWLockWriterLock_methods th o1 = (MCTransition_methods (MCRWLockTransition th RWLockWriterLock o1))
    \<lparr>staticCopy := MCRWLockTransition th RWLockWriterLock o1,
     dynamicCopyInState := (\<lambda>thr st. bindR (thr (thread_tid th)) (\<lambda>th'.
        bindR (getRWLock (rw_id o1) st) (\<lambda>o'. Inr (MCRWLockTransition th' RWLockWriterLock o')))),
     applyToState := modify_object (rw_id o1) (on_rwlock (MCRWLock_writer_lock (thread_tid th))),
     enabledInState := MCRWLock_canAcquireAsWriter (thread_tid th) o1,
     coenabledWith := (\<lambda>other. case other of MCRWLockTransition _ RWLockReaderLock o2 \<Rightarrow> \<not> MCRWLock_eq o2 o1
        | MCRWLockTransition _ RWLockWriterLock o2 \<Rightarrow> \<not> MCRWLock_eq o2 o1 | _ \<Rightarrow> True),
     dependentWith := (\<lambda>other. case other of MCRWLockTransition _ _ o2 \<Rightarrow> MCRWLock_eq o2 o1
          | _ \<Rightarrow> False)\<rparr>"

definition MCRWLockUnlock_methods :: "mcthread \<Rightarrow> mcrwlock \<Rightarrow> methods" where
  "MCRWLockUnlock_methods th o1 = (MCTransition_methods (MCRWLockTransition th RWLockUnlock o1))
    \<lparr>staticCopy := MCRWLockTransition th RWLockUnlock o1,
     dynamicCopyInState := (\<lambda>thr st. bindR (thr (thread_tid th)) (\<lambda>th'.
        bindR (getRWLock (rw_id o1) st) (\<lambda>o'. Inr (MCRWLockTransition th' RWLockUnlock o')))),
     applyToState := modify_object (rw_id o1) (on_rwlock (MCRWLock_unlock (thread_tid th))),
     coenabledWith := (\<lambda>other. True),
     dependentWith := (\<lambda>other. case other of MCRWLockTransition _ _ o2 \<Rightarrow> MCRWLock_eq o2 o1
          | _ \<Rightarrow> False)\<rparr>"

section \<open>Double-writer locks\<close>

text \<open>\<^verbatim>\<open>src/transitions/rwwlock\<close>.  \<^verbatim>\<open>MCRWWLockWriter2Lock::coenabledWith\<close> tests for the second writer class twice and never for the first.\<close>

definition MCRWWLockInit_methods :: "mcthread \<Rightarrow> mcrwwlock \<Rightarrow> methods" where
  "MCRWWLockInit_methods th o1 = (MCTransition_methods (MCRWWLockTransition th RWWLockInit o1))
    \<lparr>staticCopy := MCRWWLockTransition th RWWLockInit o1,
     dynamicCopyInState := (\<lambda>thr st. bindR (thr (thread_tid th)) (\<lambda>th'.
        bindR (getRWWLock (rww_id o1) st) (\<lambda>o'. Inr (MCRWWLockTransition th' RWWLockInit o')))),
     applyToState := modify_object (rww_id o1) (on_rwwlock (\<lambda>l. Inr (MCRWWLock_init l))),
     coenabledWith := (\<lambda>other. True),
     dependentWith := (\<lambda>other. case other of MCRWWLockTransition _ _ o2 \<Rightarrow> MCRWWLock_eq o2 o1
          | _ \<Rightarrow> False)\<rparr>"

definition MCRWWLockReaderEnqueue_methods :: "mcthread \<Rightarrow> mcrwwlock \<Rightarrow> methods" where
  "MCRWWLockReaderEnqueue_methods th o1 = (MCTransition_methods (MCRWWLockTransition th RWWLockReaderEnqueue o1))
    \<lparr>staticCopy := MCRWWLockTransition th RWWLockReaderEnqueue o1,
     dynamicCopyInState := (\<lambda>thr st. bindR (thr (thread_tid th)) (\<lambda>th'.
        bindR (getRWWLock (rww_id o1) st) (\<lambda>o'.
          Inr (MCRWWLockTransition th' RWWLockReaderEnqueue o')))),
     applyToState := modify_object (rww_id o1) (on_rwwlock (\<lambda>l. Inr (MCRWWLock_enqueue_as_reader (thread_tid th) l))),
     coenabledWith := (\<lambda>other. True),
     dependentWith := (\<lambda>other. case other of MCRWWLockTransition _ _ o2 \<Rightarrow> MCRWWLock_eq o2 o1
          | _ \<Rightarrow> False),
     countsAgainstThreadExecutionDepth := False\<rparr>"

definition MCRWWLockReaderLock_methods :: "mcthread \<Rightarrow> mcrwwlock \<Rightarrow> methods" where
  "MCRWWLockReaderLock_methods th o1 = (MCTransition_methods (MCRWWLockTransition th RWWLockReaderLock o1))
    \<lparr>staticCopy := MCRWWLockTransition th RWWLockReaderLock o1,
     dynamicCopyInState := (\<lambda>thr st. bindR (thr (thread_tid th)) (\<lambda>th'.
        bindR (getRWWLock (rww_id o1) st) (\<lambda>o'. Inr (MCRWWLockTransition th' RWWLockReaderLock o')))),
     applyToState := modify_object (rww_id o1) (on_rwwlock (MCRWWLock_reader_lock (thread_tid th))),
     enabledInState := MCRWWLock_canAcquireAsReader (thread_tid th) o1,
     coenabledWith := (\<lambda>other. case other of MCRWWLockTransition _ RWWLockReaderLock _ \<Rightarrow> True
        | MCRWWLockTransition _ RWWLockWriter1Lock o2 \<Rightarrow> \<not> MCRWWLock_eq o2 o1
        | MCRWWLockTransition _ RWWLockWriter2Lock o2 \<Rightarrow> \<not> MCRWWLock_eq o2 o1
        | _ \<Rightarrow> True),
     dependentWith := (\<lambda>other. case other of MCRWWLockTransition _ RWWLockReaderLock _ \<Rightarrow> False
        | MCRWWLockTransition _ _ o2 \<Rightarrow> MCRWWLock_eq o2 o1 | _ \<Rightarrow> False)\<rparr>"

definition MCRWWLockWriter1Enqueue_methods :: "mcthread \<Rightarrow> mcrwwlock \<Rightarrow> methods" where
  "MCRWWLockWriter1Enqueue_methods th o1 = (MCTransition_methods (MCRWWLockTransition th RWWLockWriter1Enqueue o1))
    \<lparr>staticCopy := MCRWWLockTransition th RWWLockWriter1Enqueue o1,
     dynamicCopyInState := (\<lambda>thr st. bindR (thr (thread_tid th)) (\<lambda>th'.
        bindR (getRWWLock (rww_id o1) st) (\<lambda>o'.
          Inr (MCRWWLockTransition th' RWWLockWriter1Enqueue o')))),
     applyToState := modify_object (rww_id o1) (on_rwwlock (\<lambda>l. Inr (MCRWWLock_enqueue_as_writer1 (thread_tid th) l))),
     coenabledWith := (\<lambda>other. True),
     dependentWith := (\<lambda>other. case other of MCRWWLockTransition _ _ o2 \<Rightarrow> MCRWWLock_eq o2 o1
          | _ \<Rightarrow> False),
     countsAgainstThreadExecutionDepth := False\<rparr>"

definition MCRWWLockWriter1Lock_methods :: "mcthread \<Rightarrow> mcrwwlock \<Rightarrow> methods" where
  "MCRWWLockWriter1Lock_methods th o1 = (MCTransition_methods (MCRWWLockTransition th RWWLockWriter1Lock o1))
    \<lparr>staticCopy := MCRWWLockTransition th RWWLockWriter1Lock o1,
     dynamicCopyInState := (\<lambda>thr st. bindR (thr (thread_tid th)) (\<lambda>th'.
        bindR (getRWWLock (rww_id o1) st) (\<lambda>o'. Inr (MCRWWLockTransition th' RWWLockWriter1Lock o')))),
     applyToState := modify_object (rww_id o1) (on_rwwlock (MCRWWLock_writer1_lock (thread_tid th))),
     enabledInState := MCRWWLock_canAcquireAsWriter1 (thread_tid th) o1,
     coenabledWith := (\<lambda>other. case other of MCRWWLockTransition _ RWWLockReaderLock o2 \<Rightarrow> \<not> MCRWWLock_eq o2 o1
        | MCRWWLockTransition _ RWWLockWriter1Lock o2 \<Rightarrow> \<not> MCRWWLock_eq o2 o1
        | MCRWWLockTransition _ RWWLockWriter2Lock o2 \<Rightarrow> \<not> MCRWWLock_eq o2 o1
        | _ \<Rightarrow> True),
     dependentWith := (\<lambda>other. case other of MCRWWLockTransition _ _ o2 \<Rightarrow> MCRWWLock_eq o2 o1
          | _ \<Rightarrow> False)\<rparr>"

definition MCRWWLockWriter2Enqueue_methods :: "mcthread \<Rightarrow> mcrwwlock \<Rightarrow> methods" where
  "MCRWWLockWriter2Enqueue_methods th o1 = (MCTransition_methods (MCRWWLockTransition th RWWLockWriter2Enqueue o1))
    \<lparr>staticCopy := MCRWWLockTransition th RWWLockWriter2Enqueue o1,
     dynamicCopyInState := (\<lambda>thr st. bindR (thr (thread_tid th)) (\<lambda>th'.
        bindR (getRWWLock (rww_id o1) st) (\<lambda>o'.
          Inr (MCRWWLockTransition th' RWWLockWriter2Enqueue o')))),
     applyToState := modify_object (rww_id o1) (on_rwwlock (\<lambda>l. Inr (MCRWWLock_enqueue_as_writer2 (thread_tid th) l))),
     coenabledWith := (\<lambda>other. True),
     dependentWith := (\<lambda>other. case other of MCRWWLockTransition _ _ o2 \<Rightarrow> MCRWWLock_eq o2 o1
          | _ \<Rightarrow> False),
     countsAgainstThreadExecutionDepth := False\<rparr>"

definition MCRWWLockWriter2Lock_methods :: "mcthread \<Rightarrow> mcrwwlock \<Rightarrow> methods" where
  "MCRWWLockWriter2Lock_methods th o1 = (MCTransition_methods (MCRWWLockTransition th RWWLockWriter2Lock o1))
    \<lparr>staticCopy := MCRWWLockTransition th RWWLockWriter2Lock o1,
     dynamicCopyInState := (\<lambda>thr st. bindR (thr (thread_tid th)) (\<lambda>th'.
        bindR (getRWWLock (rww_id o1) st) (\<lambda>o'. Inr (MCRWWLockTransition th' RWWLockWriter2Lock o')))),
     applyToState := modify_object (rww_id o1) (on_rwwlock (MCRWWLock_writer2_lock (thread_tid th))),
     enabledInState := MCRWWLock_canAcquireAsWriter2 (thread_tid th) o1,
     coenabledWith := (\<lambda>other. case other of MCRWWLockTransition _ RWWLockReaderLock o2 \<Rightarrow> \<not> MCRWWLock_eq o2 o1
        | MCRWWLockTransition _ RWWLockWriter2Lock o2 \<Rightarrow> \<not> MCRWWLock_eq o2 o1
        | _ \<Rightarrow> True),
     dependentWith := (\<lambda>other. case other of MCRWWLockTransition _ _ o2 \<Rightarrow> MCRWWLock_eq o2 o1
          | _ \<Rightarrow> False)\<rparr>"

definition MCRWWLockUnlock_methods :: "mcthread \<Rightarrow> mcrwwlock \<Rightarrow> methods" where
  "MCRWWLockUnlock_methods th o1 = (MCTransition_methods (MCRWWLockTransition th RWWLockUnlock o1))
    \<lparr>staticCopy := MCRWWLockTransition th RWWLockUnlock o1,
     dynamicCopyInState := (\<lambda>thr st. bindR (thr (thread_tid th)) (\<lambda>th'.
        bindR (getRWWLock (rww_id o1) st) (\<lambda>o'. Inr (MCRWWLockTransition th' RWWLockUnlock o')))),
     applyToState := modify_object (rww_id o1) (on_rwwlock (MCRWWLock_unlock (thread_tid th))),
     coenabledWith := (\<lambda>other. True),
     dependentWith := (\<lambda>other. case other of MCRWWLockTransition _ _ o2 \<Rightarrow> MCRWWLock_eq o2 o1
          | _ \<Rightarrow> False)\<rparr>"

section \<open>Global variables and the remaining classes\<close>

text \<open>\<^verbatim>\<open>src/transitions/misc\<close>.\<close>

definition MCGlobalVariableRead_methods :: "mcthread \<Rightarrow> mcglobal \<Rightarrow> methods" where
  "MCGlobalVariableRead_methods th o1 = (MCTransition_methods (MCGlobalVariableTransition th GlobalRead o1))
    \<lparr>staticCopy := MCGlobalVariableTransition th GlobalRead o1,
     dynamicCopyInState := (\<lambda>thr st. bindR (thr (thread_tid th)) (\<lambda>th'.
        bindR (getGlobal (global_id o1) st) (\<lambda>o'. Inr (MCGlobalVariableTransition th' GlobalRead o')))),
     coenabledWith := (\<lambda>other. True),
     dependentWith := (\<lambda>other. case other of MCGlobalVariableTransition _ (GlobalWrite _) o2 \<Rightarrow> MCGlobalVariable_eq o1 o2
          | _ \<Rightarrow> False),
     isRacingWith := (\<lambda>other. case other of MCGlobalVariableTransition _ (GlobalWrite _) o2 \<Rightarrow> MCGlobalVariable_eq o1 o2
          | _ \<Rightarrow> False)\<rparr>"

definition MCGlobalVariableWrite_methods :: "mcthread \<Rightarrow> u64 \<Rightarrow> mcglobal \<Rightarrow> methods" where
  "MCGlobalVariableWrite_methods th writeValue o1 = (MCTransition_methods (MCGlobalVariableTransition th (GlobalWrite writeValue) o1))
    \<lparr>staticCopy := MCGlobalVariableTransition th (GlobalWrite writeValue) o1,
     dynamicCopyInState := (\<lambda>thr st. bindR (thr (thread_tid th)) (\<lambda>th'.
        bindR (getGlobal (global_id o1) st) (\<lambda>o'.
          Inr (MCGlobalVariableTransition th' (GlobalWrite writeValue) o')))),
     applyToState := modify_object (global_id o1) (on_global (\<lambda>g. g\<lparr>global_val := writeValue\<rparr>)),
     coenabledWith := (\<lambda>other. True),
     dependentWith := (\<lambda>other. case other of MCGlobalVariableTransition _ _ o2 \<Rightarrow> MCGlobalVariable_eq o1 o2
          | _ \<Rightarrow> False),
     isRacingWith := (\<lambda>other. case other of MCGlobalVariableTransition _ _ o2 \<Rightarrow> MCGlobalVariable_eq o1 o2
          | _ \<Rightarrow> False)\<rparr>"

definition MCAbortTransition_methods :: "mcthread \<Rightarrow> methods" where
  "MCAbortTransition_methods th = (MCTransition_methods (MCAbortTransition th))
    \<lparr>staticCopy := MCAbortTransition th,
     dynamicCopyInState := (\<lambda>thr st. bindR (thr (thread_tid th)) (\<lambda>th'. Inr (MCAbortTransition th'))),
     dependentWith := (\<lambda>other. False),
     enabledInState := True,
     ensuresDeadlockIsImpossible := True,
     countsAgainstThreadExecutionDepth := False\<rparr>"

definition MCExitTransition_methods :: "mcthread \<Rightarrow> int \<Rightarrow> methods" where
  "MCExitTransition_methods th exitCode = (MCTransition_methods (MCExitTransition th exitCode))
    \<lparr>staticCopy := MCExitTransition th exitCode,
     dynamicCopyInState := (\<lambda>thr st. bindR (thr (thread_tid th)) (\<lambda>th'. Inr (MCExitTransition th' exitCode))),
     dependentWith := (\<lambda>other. False),
     enabledInState := False,
     ensuresDeadlockIsImpossible := True,
     countsAgainstThreadExecutionDepth := False\<rparr>"

definition MCProgressTransition_methods :: "mcthread \<Rightarrow> methods" where
  "MCProgressTransition_methods th = (MCTransition_methods (MCProgressTransition th))
    \<lparr>staticCopy := MCProgressTransition th,
     dynamicCopyInState := (\<lambda>thr st. bindR (thr (thread_tid th)) (\<lambda>th'. Inr (MCProgressTransition th'))),
     applyToState := Inr,
     coenabledWith := (\<lambda>other. True),
     dependentWith := (\<lambda>other. False)\<rparr>"

section \<open>Condition variables\<close>

text \<open>\<^verbatim>\<open>src/transitions/cond\<close>.  The dependence test of \<^verbatim>\<open>MCCondWait\<close> with a mutex operation asks whether
  locking is \<^emph>\<open>co-enabled\<close> with the operation, as the source does.  Reading \<^verbatim>\<open>conditionVariable->mutex\<close>
  when it is null would crash; \<open>NullDereference\<close> in \<^verbatim>\<open>applyToState\<close>, and a test that does not
  hold elsewhere.\<close>

definition MCCondInit_methods :: "mcthread \<Rightarrow> mccond \<Rightarrow> methods" where
  "MCCondInit_methods th o1 = (MCTransition_methods (MCCondTransition th CondInit o1))
    \<lparr>staticCopy := MCCondTransition th CondInit o1,
     dynamicCopyInState := (\<lambda>thr st. bindR (thr (thread_tid th)) (\<lambda>th'.
        bindR (getCond (cond_id o1) st) (\<lambda>o'. Inr (MCCondTransition th' CondInit o')))),
     applyToState := modify_object (cond_id o1) (on_cond (\<lambda>c. Inr (MCConditionVariable_initialize c))),
     coenabledWith := (\<lambda>other. True),
     dependentWith := (\<lambda>other. case other of MCCondTransition _ _ o2 \<Rightarrow> MCConditionVariable_eq o2 o1
          | _ \<Rightarrow> False)\<rparr>"

definition MCCondSignal_methods :: "mcthread \<Rightarrow> mccond \<Rightarrow> methods" where
  "MCCondSignal_methods th o1 = (MCTransition_methods (MCCondTransition th CondSignal o1))
    \<lparr>staticCopy := MCCondTransition th CondSignal o1,
     dynamicCopyInState := (\<lambda>thr st. bindR (thr (thread_tid th)) (\<lambda>th'.
        bindR (getCond (cond_id o1) st) (\<lambda>o'. Inr (MCCondTransition th' CondSignal o')))),
     applyToState := modify_object (cond_id o1) (on_cond (\<lambda>c. Inr (MCConditionVariable_sendSignalMessage c))),
     coenabledWith := (\<lambda>other. True),
     dependentWith := (\<lambda>other. case other of MCCondTransition _ _ o2 \<Rightarrow> MCConditionVariable_eq o2 o1
          | _ \<Rightarrow> False)\<rparr>"

definition MCCondBroadcast_methods :: "mcthread \<Rightarrow> mccond \<Rightarrow> methods" where
  "MCCondBroadcast_methods th o1 = (MCTransition_methods (MCCondTransition th CondBroadcast o1))
    \<lparr>staticCopy := MCCondTransition th CondBroadcast o1,
     dynamicCopyInState := (\<lambda>thr st. bindR (thr (thread_tid th)) (\<lambda>th'.
        bindR (getCond (cond_id o1) st) (\<lambda>o'. Inr (MCCondTransition th' CondBroadcast o')))),
     applyToState := modify_object (cond_id o1) (on_cond (\<lambda>c. Inr (MCConditionVariable_sendBroadcastMessage c))),
     coenabledWith := (\<lambda>other. True),
     dependentWith := (\<lambda>other. case other of MCCondTransition _ _ o2 \<Rightarrow> MCConditionVariable_eq o2 o1
          | _ \<Rightarrow> False)\<rparr>"

definition MCCondEnqueue_methods :: "mcthread \<Rightarrow> mcmutex \<Rightarrow> mccond \<Rightarrow> methods" where
  "MCCondEnqueue_methods th m o1 = (MCTransition_methods (MCCondTransition th (CondEnqueue m) o1))
    \<lparr>staticCopy := MCCondTransition th (CondEnqueue m) o1,
     dynamicCopyInState := (\<lambda>thr st. bindR (thr (thread_tid th)) (\<lambda>th'.
        bindR (getCond (cond_id o1) st) (\<lambda>o'. bindR (getMutex (mutex_id m) st) (\<lambda>m'.
          Inr (MCCondTransition th' (CondEnqueue m') o'))))),
     applyToState := (\<lambda>st.
       bindR (modify_object (cond_id o1)
                (on_cond (\<lambda>c. Inr ((MCConditionVariable_addWaiter (thread_tid th) c)\<lparr>cond_mutex := Some (mutex_id m)\<rparr>))) st)
         (modify_object (mutex_id m) (on_mutex MCMutex_unlock))),
     coenabledWith := (\<lambda>other. case other of
         MCCondTransition _ (CondEnqueue _) o2 \<Rightarrow> \<not> MCConditionVariable_eq o2 o1
       | MCMutexTransition _ _ _ \<Rightarrow>
           coenabledTransitions_via mutex_dispatch (MCMutexTransition th MutexUnlock m) other
       | _ \<Rightarrow> True),
     dependentWith := (\<lambda>other. case other of
         MCCondTransition _ _ o2 \<Rightarrow> MCConditionVariable_eq o2 o1
       | MCMutexTransition _ _ _ \<Rightarrow>
           dependentTransitions_via mutex_dispatch (MCMutexTransition th MutexUnlock m) other
       | _ \<Rightarrow> False),
     countsAgainstThreadExecutionDepth := False\<rparr>"

text \<open>The mutex a live condition variable points to.\<close>

definition cond_mutex_in :: "mccond \<Rightarrow> object_store \<Rightarrow> mcmutex option result" where
  "cond_mutex_in c st = (case cond_mutex c of None \<Rightarrow> Inr None
     | Some i \<Rightarrow> bindR (getMutex i st) (\<lambda>m. Inr (Some m)))"

definition MCCondWait_methods :: "mcthread \<Rightarrow> mcmutex option \<Rightarrow> mccond \<Rightarrow> methods" where
  "MCCondWait_methods th mo o1 = (MCTransition_methods (MCCondTransition th (CondWait mo) o1))
    \<lparr>staticCopy := MCCondTransition th (CondWait mo) o1,
     dynamicCopyInState := (\<lambda>thr st. bindR (thr (thread_tid th)) (\<lambda>th'.
        bindR (getCond (cond_id o1) st) (\<lambda>o'. bindR (cond_mutex_in o' st) (\<lambda>mo'.
          Inr (MCCondTransition th' (CondWait mo') o'))))),
     enabledInState := (MCConditionVariable_waiterCanExit (thread_tid th) o1
        \<and> (case mo of None \<Rightarrow> False | Some m \<Rightarrow> MCMutex_canAcquire (thread_tid th) m)),
     applyToState := (case mo of None \<Rightarrow> (\<lambda>st. Inl NullDereference)
       | Some m \<Rightarrow> (\<lambda>st.
           bindR (modify_object (mutex_id m) (on_mutex (MCMutex_lock (thread_tid th))) st)
             (modify_object (cond_id o1) (on_cond (\<lambda>c.
                bindR (MCConditionVariable_removeWaiter (thread_tid th) c) (\<lambda>c'.
                  Inr (if \<not> MCConditionVariable_hasWaiters c' then c'\<lparr>cond_mutex := None\<rparr> else c'))))))),
     coenabledWith := (\<lambda>other. case other of
         MCCondTransition _ (CondWait _) o2 \<Rightarrow> \<not> MCConditionVariable_eq o2 o1
       | MCMutexTransition _ _ _ \<Rightarrow> (case mo of
             None \<Rightarrow> (case other of MCMutexTransition _ MutexUnlock _ \<Rightarrow> False
               | _ \<Rightarrow> transitionsCoenabledCommon (MCCondTransition th (CondWait mo) o1) other)
           | Some m \<Rightarrow> coenabledTransitions_via mutex_dispatch (MCMutexTransition th MutexLock m) other)
       | _ \<Rightarrow> True),
     dependentWith := (\<lambda>other. case other of
         MCCondTransition _ _ o2 \<Rightarrow> MCConditionVariable_eq o2 o1
       | MCMutexTransition _ _ _ \<Rightarrow> (case mo of
             None \<Rightarrow> (case other of MCMutexTransition _ MutexUnlock _ \<Rightarrow> False
               | _ \<Rightarrow> transitionsCoenabledCommon (MCCondTransition th (CondWait mo) o1) other)
           | Some m \<Rightarrow> coenabledTransitions_via mutex_dispatch (MCMutexTransition th MutexLock m) other)
       | _ \<Rightarrow> False)\<rparr>"

named_theorems class_methods "the method tables of the transition classes"

lemmas class_methods_defs [class_methods] =
  MCTransition_methods_def
  MCMutexInit_methods_def
  MCMutexLock_methods_def
  MCMutexTrylock_methods_def
  MCMutexUnlock_methods_def
  MCThreadCreate_methods_def
  MCThreadStart_methods_def
  MCThreadJoin_methods_def
  MCThreadFinish_methods_def
  MCSemInit_methods_def
  MCSemPost_methods_def
  MCSemEnqueue_methods_def
  MCSemWait_methods_def
  MCBarrierInit_methods_def
  MCBarrierEnqueue_methods_def
  MCBarrierWait_methods_def
  MCRWLockInit_methods_def
  MCRWLockReaderEnqueue_methods_def
  MCRWLockReaderLock_methods_def
  MCRWLockWriterEnqueue_methods_def
  MCRWLockWriterLock_methods_def
  MCRWLockUnlock_methods_def
  MCRWWLockInit_methods_def
  MCRWWLockReaderEnqueue_methods_def
  MCRWWLockReaderLock_methods_def
  MCRWWLockWriter1Enqueue_methods_def
  MCRWWLockWriter1Lock_methods_def
  MCRWWLockWriter2Enqueue_methods_def
  MCRWWLockWriter2Lock_methods_def
  MCRWWLockUnlock_methods_def
  MCGlobalVariableRead_methods_def
  MCGlobalVariableWrite_methods_def
  MCAbortTransition_methods_def
  MCExitTransition_methods_def
  MCProgressTransition_methods_def
  MCCondInit_methods_def
  MCCondSignal_methods_def
  MCCondBroadcast_methods_def
  MCCondEnqueue_methods_def
  MCCondWait_methods_def

end
