(* ===== verification/Transitions.thy ===== *)
theory Transitions
  imports TransitionClasses
begin

text \<open>
  The virtual dispatch over all classes and the tests of \<^verbatim>\<open>src/MCTransition.cpp\<close>: dependence,
  co-enabledness, data races, enabledness.  \<open>refresh\<close> reads a pending transition through its
  pointers: the current thread and object of the store.  The flag of a \<^verbatim>\<open>MCMutexTrylock\<close> is a
  field of the transition and stays what it was; every other class is read as
  \<^verbatim>\<open>dynamicCopyInState\<close> reads it.
\<close>

section \<open>Dispatch\<close>

definition methods_of :: "transition \<Rightarrow> methods" where
  "methods_of t = (case t of
      MCThreadTransition th op target \<Rightarrow> (case op of
          ThreadCreate \<Rightarrow> MCThreadCreate_methods th target
        | ThreadStart \<Rightarrow> MCThreadStart_methods th target
        | ThreadJoin \<Rightarrow> MCThreadJoin_methods th target
        | ThreadFinish \<Rightarrow> MCThreadFinish_methods th target)
    | MCMutexTransition th op m \<Rightarrow> mutex_dispatch t
    | MCSemaphoreTransition th op s \<Rightarrow> (case op of
          SemInit \<Rightarrow> MCSemInit_methods th s
        | SemPost \<Rightarrow> MCSemPost_methods th s
        | SemEnqueue \<Rightarrow> MCSemEnqueue_methods th s
        | SemWait \<Rightarrow> MCSemWait_methods th s)
    | MCCondTransition th op c \<Rightarrow> (case op of
          CondInit \<Rightarrow> MCCondInit_methods th c
        | CondSignal \<Rightarrow> MCCondSignal_methods th c
        | CondBroadcast \<Rightarrow> MCCondBroadcast_methods th c
        | CondEnqueue m \<Rightarrow> MCCondEnqueue_methods th m c
        | CondWait mo \<Rightarrow> MCCondWait_methods th mo c)
    | MCBarrierTransition th op b \<Rightarrow> (case op of
          BarrierInit \<Rightarrow> MCBarrierInit_methods th b
        | BarrierEnqueue \<Rightarrow> MCBarrierEnqueue_methods th b
        | BarrierWait \<Rightarrow> MCBarrierWait_methods th b)
    | MCRWLockTransition th op l \<Rightarrow> (case op of
          RWLockInit \<Rightarrow> MCRWLockInit_methods th l
        | RWLockReaderEnqueue \<Rightarrow> MCRWLockReaderEnqueue_methods th l
        | RWLockReaderLock \<Rightarrow> MCRWLockReaderLock_methods th l
        | RWLockWriterEnqueue \<Rightarrow> MCRWLockWriterEnqueue_methods th l
        | RWLockWriterLock \<Rightarrow> MCRWLockWriterLock_methods th l
        | RWLockUnlock \<Rightarrow> MCRWLockUnlock_methods th l)
    | MCRWWLockTransition th op l \<Rightarrow> (case op of
          RWWLockInit \<Rightarrow> MCRWWLockInit_methods th l
        | RWWLockReaderEnqueue \<Rightarrow> MCRWWLockReaderEnqueue_methods th l
        | RWWLockReaderLock \<Rightarrow> MCRWWLockReaderLock_methods th l
        | RWWLockWriter1Enqueue \<Rightarrow> MCRWWLockWriter1Enqueue_methods th l
        | RWWLockWriter1Lock \<Rightarrow> MCRWWLockWriter1Lock_methods th l
        | RWWLockWriter2Enqueue \<Rightarrow> MCRWWLockWriter2Enqueue_methods th l
        | RWWLockWriter2Lock \<Rightarrow> MCRWWLockWriter2Lock_methods th l
        | RWWLockUnlock \<Rightarrow> MCRWWLockUnlock_methods th l)
    | MCGlobalVariableTransition th op g \<Rightarrow> (case op of
          GlobalRead \<Rightarrow> MCGlobalVariableRead_methods th g
        | GlobalWrite v \<Rightarrow> MCGlobalVariableWrite_methods th v g)
    | MCAbortTransition th \<Rightarrow> MCAbortTransition_methods th
    | MCExitTransition th code \<Rightarrow> MCExitTransition_methods th code
    | MCProgressTransition th \<Rightarrow> MCProgressTransition_methods th)"

definition refresh :: "thread_lookup \<Rightarrow> object_store \<Rightarrow> transition \<Rightarrow> transition result" where
  "refresh thr st t = bindR (dynamicCopyInState (methods_of t) thr st) (\<lambda>t'.
     Inr (case (t, t') of
        (MCMutexTransition _ (MutexTrylock acq) _, MCMutexTransition th' _ m') \<Rightarrow>
          MCMutexTransition th' (MutexTrylock acq) m'
      | _ \<Rightarrow> t'))"

section \<open>Tests of transitions\<close>

definition dependentTransitions :: "transition \<Rightarrow> transition \<Rightarrow> bool" where
  "dependentTransitions t1 t2 \<longleftrightarrow>
     transitionsDependentCommon t1 t2 \<or> dependentWith (methods_of t1) t2 \<or>
     dependentWith (methods_of t2) t1"

definition coenabledTransitions :: "transition \<Rightarrow> transition \<Rightarrow> bool" where
  "coenabledTransitions t1 t2 \<longleftrightarrow>
     transitionsCoenabledCommon t1 t2 \<and> coenabledWith (methods_of t1) t2 \<and>
     coenabledWith (methods_of t2) t1"

definition transitionsInDataRace :: "transition \<Rightarrow> transition \<Rightarrow> bool" where
  "transitionsInDataRace t1 t2 \<longleftrightarrow> isRacingWith (methods_of t1) t2 \<or> isRacingWith (methods_of t2) t1"

definition transitionEnabledInState :: "transition \<Rightarrow> bool" where
  "transitionEnabledInState t \<longleftrightarrow> threadIsEnabled t \<and> enabledInState (methods_of t)"

lemmas transition_tests =
  dependentTransitions_def coenabledTransitions_def transitionsInDataRace_def
  transitionEnabledInState_def

section \<open>Shape of dependence\<close>

lemma methods_of_mutex: "methods_of (MCMutexTransition th op m) = mutex_dispatch (MCMutexTransition th op m)"
  by (simp add: methods_of_def)

lemma dependent_via_mutex:
  "dependentTransitions_via mutex_dispatch (MCMutexTransition th op m) (MCMutexTransition th' op' m')
     \<longleftrightarrow> dependentTransitions (MCMutexTransition th op m) (MCMutexTransition th' op' m')"
  by (simp add: dependentTransitions_via_def dependentTransitions_def methods_of_mutex)

lemma coenabled_via_mutex:
  "coenabledTransitions_via mutex_dispatch (MCMutexTransition th op m) (MCMutexTransition th' op' m')
     \<longleftrightarrow> coenabledTransitions (MCMutexTransition th op m) (MCMutexTransition th' op' m')"
  by (simp add: coenabledTransitions_via_def coenabledTransitions_def methods_of_mutex)

lemma dependentCommon_same: "getThreadId t1 = getThreadId t2 \<Longrightarrow> transitionsDependentCommon t1 t2"
  by (simp add: transitionsDependentCommon_def)

lemma dependent_same_thread: "getThreadId t1 = getThreadId t2 \<Longrightarrow> dependentTransitions t1 t2"
  by (simp add: dependentTransitions_def dependentCommon_same)

lemma coenabled_other_thread: "coenabledTransitions t1 t2 \<Longrightarrow> getThreadId t1 \<noteq> getThreadId t2"
  by (auto simp: coenabledTransitions_def transitionsCoenabledCommon_def)

text \<open>
  The common test looks at the first transition before the second; the class tests it leaves to
  \<open>dependentWith\<close> make up for the order.
\<close>

lemma create_dependent_iff:
  "dependentWith (MCThreadCreate_methods th target) t \<longleftrightarrow>
     thread_tid th = getThreadId t \<or> thread_tid target = getThreadId t"
  by (simp add: class_methods)

lemma join_dependent_iff:
  "dependentWith (MCThreadJoin_methods th target) t \<longleftrightarrow>
     thread_tid th = getThreadId t \<or> thread_tid target = getThreadId t"
  by (simp add: class_methods)

lemma common_implies_class:
  assumes "transitionsDependentCommon t1 t2" and "getThreadId t1 \<noteq> getThreadId t2"
  shows "dependentWith (methods_of t1) t2 \<or> dependentWith (methods_of t2) t1"
  using assms
  by (auto simp: transitionsDependentCommon_def doesCreateThread_def joinsOnThread_def
      methods_of_def create_dependent_iff join_dependent_iff
      split: option.splits transition.splits thread_op.splits)

lemma dependentTransitions_iff:
  "dependentTransitions t1 t2 \<longleftrightarrow> getThreadId t1 = getThreadId t2 \<or>
     dependentWith (methods_of t1) t2 \<or> dependentWith (methods_of t2) t1"
  using common_implies_class dependent_same_thread unfolding dependentTransitions_def by blast

lemma dependentTransitions_sym: "dependentTransitions t1 t2 = dependentTransitions t2 t1"
  by (auto simp: dependentTransitions_iff)

lemma dataRace_sym: "transitionsInDataRace t1 t2 = transitionsInDataRace t2 t1"
  by (auto simp: transitionsInDataRace_def)

section \<open>Static copies\<close>

text \<open>The tests do not distinguish a transition from its static copy.\<close>

lemma getThreadId_staticCopy [simp]: "getThreadId (staticCopy (methods_of t)) = getThreadId t"
  by (simp add: methods_of_def mutex_dispatch_def class_methods getThreadId_def transition_thread_def
      split: transition.splits thread_op.splits mutex_op.splits sem_op.splits cond_op.splits
        barrier_op.splits rwlock_op.splits rwwlock_op.splits global_op.splits)

text \<open>Two transitions that the class tests cannot tell apart.\<close>

definition same_identity :: "transition \<Rightarrow> transition \<Rightarrow> bool" where
  "same_identity t u \<longleftrightarrow> t = u
     \<or> (\<exists>th op b. t = MCBarrierTransition th op b \<and> u = MCBarrierTransition th op (MCBarrier_copy b))
     \<or> (\<exists>th a b m. t = MCMutexTransition th (MutexTrylock a) m \<and> u = MCMutexTransition th (MutexTrylock b) m)
     \<or> (\<exists>th o1 o2. t = MCThreadTransition th ThreadStart o1 \<and> u = MCThreadTransition th ThreadStart o2)
     \<or> (\<exists>th o1 o2. t = MCThreadTransition th ThreadFinish o1 \<and> u = MCThreadTransition th ThreadFinish o2)"

lemma same_identity_staticCopy: "same_identity t (staticCopy (methods_of t))"
  by (auto simp: same_identity_def methods_of_def mutex_dispatch_def class_methods
      split: transition.splits thread_op.splits mutex_op.splits sem_op.splits cond_op.splits
        barrier_op.splits rwlock_op.splits rwwlock_op.splits global_op.splits)

lemma same_identity_thread: "same_identity t u \<Longrightarrow> getThreadId t = getThreadId u"
  by (auto simp: same_identity_def getThreadId_def transition_thread_def)

lemmas transition_op_splits =
  thread_op.splits mutex_op.splits sem_op.splits cond_op.splits barrier_op.splits rwlock_op.splits
  rwwlock_op.splits global_op.splits

lemma common_thread_class:
  assumes "getThreadId t = getThreadId u" and "doesCreateThread t = doesCreateThread u"
    and "joinsOnThread t = joinsOnThread u"
  shows "transitionsDependentCommon x t = transitionsDependentCommon x u \<and>
    transitionsCoenabledCommon x t = transitionsCoenabledCommon x u"
  unfolding transitionsDependentCommon_def transitionsCoenabledCommon_def assms by simp

lemma same_identity_common:
  "same_identity t u \<Longrightarrow> transitionsDependentCommon x t = transitionsDependentCommon x u \<and>
   transitionsCoenabledCommon x t = transitionsCoenabledCommon x u"
  by (rule common_thread_class)
     (auto simp: same_identity_def getThreadId_def transition_thread_def doesCreateThread_def
       joinsOnThread_def fun_eq_iff)

lemma same_identity_dependentWith_right:
  assumes "same_identity t u"
  shows "dependentWith (methods_of x) t = dependentWith (methods_of x) u"
proof -
  have thr: "getThreadId t = getThreadId u" using assms by (rule same_identity_thread)
  consider "t = u"
    | th op b where "t = MCBarrierTransition th op b" "u = MCBarrierTransition th op (MCBarrier_copy b)"
    | th a b m where "t = MCMutexTransition th (MutexTrylock a) m" "u = MCMutexTransition th (MutexTrylock b) m"
    | th op o1 o2 where "t = MCThreadTransition th op o1" "u = MCThreadTransition th op o2"
    using assms by (auto simp: same_identity_def)
  then show ?thesis
  proof cases
    case 1
    then show ?thesis by simp
  next
    case 2
    with thr show ?thesis
      by (simp add: methods_of_def mutex_dispatch_def class_methods MCBarrier_eq_def
          split: transition.splits transition_op_splits)
  next
    case 3
    with thr same_identity_common [OF assms] show ?thesis
      by (simp add: methods_of_def mutex_dispatch_def class_methods
          dependentTransitions_via_def coenabledTransitions_via_def
          split: transition.splits transition_op_splits option.splits)
  next
    case 4
    with thr show ?thesis
      by (simp add: methods_of_def mutex_dispatch_def class_methods
          split: transition.splits transition_op_splits option.splits)
  qed
qed

lemma same_identity_dependentWith_left:
  assumes "same_identity t u"
  shows "dependentWith (methods_of t) = dependentWith (methods_of u)"
proof -
  consider "t = u"
    | th op b where "t = MCBarrierTransition th op b" "u = MCBarrierTransition th op (MCBarrier_copy b)"
    | th a b m where "t = MCMutexTransition th (MutexTrylock a) m" "u = MCMutexTransition th (MutexTrylock b) m"
    | th op o1 o2 where "t = MCThreadTransition th op o1" "u = MCThreadTransition th op o2"
        "op = ThreadStart \<or> op = ThreadFinish"
    using assms by (auto simp: same_identity_def)
  then show ?thesis
  proof cases
    case 2
    then show ?thesis
      by (cases op) (simp_all add: methods_of_def class_methods MCBarrier_eq_def)
  next
    case 4
    then show ?thesis by (auto simp: methods_of_def class_methods)
  qed (simp_all add: methods_of_def mutex_dispatch_def class_methods)
qed

lemma same_identity_dependent:
  "same_identity t u \<Longrightarrow> dependentTransitions x t = dependentTransitions x u"
  using same_identity_dependentWith_left same_identity_dependentWith_right same_identity_thread
  unfolding dependentTransitions_iff by metis

lemma dependent_staticCopy [simp]:
  "dependentTransitions x (staticCopy (methods_of t)) = dependentTransitions x t"
  using same_identity_dependent [OF same_identity_staticCopy] by blast

end
