(* ===== verification/ClockVector.thy ===== *)
theory ClockVector
  imports Prelude "HOL-Library.AList"
begin

text \<open>
  \<^verbatim>\<open>MCClockVector\<close> (\<^verbatim>\<open>include/MCClockVector.hpp\<close>, \<^verbatim>\<open>src/MCClockVector.cpp\<close>): a lazy map from thread ids to
  indices of the transition stack.  The \<^verbatim>\<open>unordered_map\<close> is an association list with distinct keys;
  its order stands for the container's iteration order, and no lemma below depends on it.
  Components are indices below the stack's size (1500 at most), so \<^verbatim>\<open>uint32_t\<close> never wraps and a
  component is a \<open>nat\<close>.
\<close>

type_synonym clock_vector = "(tid \<times> nat) list"

definition newEmptyClockVector :: clock_vector where
  "newEmptyClockVector = []"

definition valueForThread :: "clock_vector \<Rightarrow> tid \<Rightarrow> nat option" where
  "valueForThread cv t = map_of cv t"

definition value_or :: "'a option \<Rightarrow> 'a \<Rightarrow> 'a" where
  "value_or v d = (case v of None \<Rightarrow> d | Some x \<Rightarrow> x)"

text \<open>\<^verbatim>\<open>cv[tid] = n\<close>.\<close>

definition set_component :: "clock_vector \<Rightarrow> tid \<Rightarrow> nat \<Rightarrow> clock_vector" where
  "set_component cv t n = AList.update t n cv"

text \<open>One of the two loops of \<^verbatim>\<open>MCClockVector::max\<close>: every entry of \<open>um\<close> is compared with \<open>other\<close>.\<close>

fun max_loop :: "clock_vector \<Rightarrow> clock_vector \<Rightarrow> clock_vector \<Rightarrow> clock_vector" where
  "max_loop other [] acc = acc"
| "max_loop other ((t, i) # um) acc =
     max_loop other um (set_component acc t (max i (value_or (valueForThread other t) 0)))"

definition clock_max :: "clock_vector \<Rightarrow> clock_vector \<Rightarrow> clock_vector" where
  "clock_max cv1 cv2 = max_loop cv1 cv2 (max_loop cv2 cv1 newEmptyClockVector)"

text \<open>The component of a thread, absent ones being 0: what \<^verbatim>\<open>value_or(0)\<close> reads.\<close>

definition clock_at :: "clock_vector \<Rightarrow> tid \<Rightarrow> nat" where
  "clock_at cv t = value_or (valueForThread cv t) 0"

definition clock_wf :: "clock_vector \<Rightarrow> bool" where
  "clock_wf cv \<longleftrightarrow> distinct (map fst cv)"

section \<open>What the operations compute\<close>

named_theorems clock_simps "component-wise reading of clock vector operations"

lemma value_or_simps [simp]: "value_or None d = d" "value_or (Some x) d = x"
  by (simp_all add: value_or_def)

lemma valueForThread_set [clock_simps]:
  "valueForThread (set_component cv t n) u = (if u = t then Some n else valueForThread cv u)"
  by (simp add: valueForThread_def set_component_def update_conv')

lemma valueForThread_empty [clock_simps]: "valueForThread newEmptyClockVector t = None"
  by (simp add: valueForThread_def newEmptyClockVector_def)

lemma clock_at_set [clock_simps]:
  "clock_at (set_component cv t n) u = (if u = t then n else clock_at cv u)"
  by (simp add: clock_at_def valueForThread_set)

lemma clock_at_empty [clock_simps]: "clock_at newEmptyClockVector t = 0"
  by (simp add: clock_at_def valueForThread_empty)

lemma clock_wf_set: "clock_wf cv \<Longrightarrow> clock_wf (set_component cv t n)"
  by (simp add: clock_wf_def set_component_def distinct_update)

lemma clock_wf_empty: "clock_wf newEmptyClockVector"
  by (simp add: clock_wf_def newEmptyClockVector_def)

lemma clock_wf_max_loop: "clock_wf acc \<Longrightarrow> clock_wf (max_loop other um acc)"
  by (induction other um acc rule: max_loop.induct) (simp_all add: clock_wf_set)

lemma clock_wf_max: "clock_wf (clock_max a b)"
  by (simp add: clock_max_def clock_wf_max_loop clock_wf_empty)

lemma valueForThread_max_loop:
  assumes "distinct (map fst um)"
  shows "valueForThread (max_loop other um acc) t =
    (case map_of um t of None \<Rightarrow> valueForThread acc t
      | Some i \<Rightarrow> Some (max i (clock_at other t)))"
  using assms
proof (induction other um acc rule: max_loop.induct)
  case (1 other acc)
  then show ?case by simp
next
  case (2 other u i um acc)
  then have IH: "valueForThread (max_loop other ((u, i) # um) acc) t =
      (case map_of um t of None \<Rightarrow>
         valueForThread (set_component acc u (max i (clock_at other u))) t
       | Some j \<Rightarrow> Some (max j (clock_at other t)))"
    unfolding clock_at_def by simp
  have "t = u \<Longrightarrow> map_of um t = None"
    using "2.prems" by (simp add: map_of_eq_None_iff)
  then show ?case
    unfolding IH by (simp add: valueForThread_set split: option.splits)
qed

lemma valueForThread_max:
  assumes "clock_wf a" and "clock_wf b"
  shows "valueForThread (clock_max a b) t =
    (if valueForThread a t = None \<and> valueForThread b t = None then None
     else Some (max (clock_at a t) (clock_at b t)))"
  using assms
  by (simp add: clock_max_def clock_wf_def valueForThread_max_loop clock_at_def
      valueForThread_empty max.commute flip: valueForThread_def split: option.splits)

lemma clock_at_max [clock_simps]:
  assumes "clock_wf a" and "clock_wf b"
  shows "clock_at (clock_max a b) t = max (clock_at a t) (clock_at b t)"
  using valueForThread_max [OF assms, of t] by (auto simp: clock_at_def)

end
