(* ===== verification/ThreadData.thy ===== *)
theory ThreadData
  imports ClockVector
begin

text \<open>
  \<^verbatim>\<open>MCSortedStack\<close> (\<^verbatim>\<open>include/misc/MCSortedStack.hpp\<close>) and \<^verbatim>\<open>MCThreadData\<close>
  (\<^verbatim>\<open>include/MCThreadData.hpp\<close>, \<^verbatim>\<open>src/MCThreadData.cpp\<close>).  The \<^verbatim>\<open>std::stack\<close> is a list with its top at
  the head; pushing below the top throws \<^verbatim>\<open>std::invalid_argument\<close>.  The execution depth is a
  \<^verbatim>\<open>uint32_t\<close>, so decrementing 0 wraps.
\<close>

section \<open>The sorted stack\<close>

type_synonym sorted_stack = "nat list"

definition MCSortedStack_empty :: "sorted_stack \<Rightarrow> bool" where
  "MCSortedStack_empty s \<longleftrightarrow> s = []"

definition MCSortedStack_push :: "nat \<Rightarrow> sorted_stack \<Rightarrow> sorted_stack result" where
  "MCSortedStack_push i s =
     (if \<not> MCSortedStack_empty s \<and> hd s > i then Inl InvalidArgument else Inr (i # s))"

definition MCSortedStack_pop :: "sorted_stack \<Rightarrow> sorted_stack" where
  "MCSortedStack_pop s = (if \<not> MCSortedStack_empty s then tl s else s)"

fun MCSortedStack_popGreaterThan :: "nat \<Rightarrow> sorted_stack \<Rightarrow> sorted_stack" where
  "MCSortedStack_popGreaterThan i [] = []"
| "MCSortedStack_popGreaterThan i (x # s) =
     (if x > i then MCSortedStack_popGreaterThan i s else x # s)"

text \<open>\<^verbatim>\<open>size()\<close> returns \<^verbatim>\<open>this->size()\<close>: it calls itself on the same stack.\<close>

partial_function (option) MCSortedStack_size :: "sorted_stack \<Rightarrow> nat option" where
  "MCSortedStack_size s = MCSortedStack_size s"

text \<open>The invariant the class is named for: the elements do not increase from the top down.\<close>

definition sorted_stack :: "sorted_stack \<Rightarrow> bool" where
  "sorted_stack s \<longleftrightarrow> sorted_wrt (\<ge>) s"

lemma sorted_stack_push:
  "sorted_stack s \<Longrightarrow> MCSortedStack_push i s = Inr s' \<Longrightarrow> sorted_stack s' \<and> s' = i # s"
  by (cases s)
     (auto 4 3 simp: MCSortedStack_push_def MCSortedStack_empty_def sorted_stack_def not_less
       dest: bspec order_trans split: if_splits)

lemma push_fails_iff:
  "MCSortedStack_push i s = Inl e \<longleftrightarrow> s \<noteq> [] \<and> hd s > i \<and> e = InvalidArgument"
  by (auto simp: MCSortedStack_push_def MCSortedStack_empty_def)

lemma sorted_stack_pop: "sorted_stack s \<Longrightarrow> sorted_stack (MCSortedStack_pop s)"
  by (cases s) (auto simp: MCSortedStack_pop_def MCSortedStack_empty_def sorted_stack_def)

lemma popGreaterThan_filter:
  "sorted_stack s \<Longrightarrow> MCSortedStack_popGreaterThan i s = filter (\<lambda>x. x \<le> i) s"
proof (induction i s rule: MCSortedStack_popGreaterThan.induct)
  case (1 i)
  then show ?case by simp
next
  case (2 i x s)
  show ?case
  proof (cases "x > i")
    case True
    with 2 show ?thesis by (simp add: sorted_stack_def)
  next
    case False
    with "2.prems" have "\<forall>y \<in> set s. y \<le> i" by (auto simp: sorted_stack_def)
    with False show ?thesis by simp
  qed
qed

lemma sorted_stack_popGreaterThan:
  "sorted_stack s \<Longrightarrow> sorted_stack (MCSortedStack_popGreaterThan i s)"
  by (simp add: popGreaterThan_filter sorted_stack_def sorted_wrt_filter)

lemma sorted_stack_Cons_hd: "sorted_stack (x # s) \<Longrightarrow> y \<in> set (x # s) \<Longrightarrow> y \<le> x"
  by (auto simp: sorted_stack_def)

lemma MCSortedStack_size_diverges: "MCSortedStack_size s = None"
proof (cases "MCSortedStack_size s")
  case (Some r)
  have "False"
    by (rule MCSortedStack_size.raw_induct [where P = "\<lambda>_ _. False", OF _ Some]) blast
  then show ?thesis ..
qed

section \<open>Per-thread data\<close>

record thread_data =
  executionDepth :: u32
  executionPoints :: sorted_stack
  td_clockVector :: clock_vector

definition MCThreadData_init :: thread_data where
  "MCThreadData_init = \<lparr>executionDepth = 0, executionPoints = [], td_clockVector = newEmptyClockVector\<rparr>"

definition incrementExecutionDepth :: "thread_data \<Rightarrow> thread_data" where
  "incrementExecutionDepth d = d\<lparr>executionDepth := executionDepth d + 1\<rparr>"

definition decrementExecutionDepthIfNecessary :: "thread_data \<Rightarrow> thread_data" where
  "decrementExecutionDepthIfNecessary d = d\<lparr>executionDepth := executionDepth d - 1\<rparr>"

definition resetExecutionData :: "thread_data \<Rightarrow> thread_data" where
  "resetExecutionData d = d\<lparr>executionDepth := 0, executionPoints := []\<rparr>"

definition setClockVector :: "clock_vector \<Rightarrow> thread_data \<Rightarrow> thread_data" where
  "setClockVector cv d = d\<lparr>td_clockVector := cv\<rparr>"

definition getLatestExecutionPoint :: "thread_data \<Rightarrow> nat" where
  "getLatestExecutionPoint d =
     (if MCSortedStack_empty (executionPoints d) then 0 else hd (executionPoints d))"

definition pushNewLatestExecutionPoint :: "nat \<Rightarrow> thread_data \<Rightarrow> thread_data result" where
  "pushNewLatestExecutionPoint depth d =
     (if \<not> MCSortedStack_empty (executionPoints d) \<and> \<not> hd (executionPoints d) \<le> depth
      then Inl AssertFailed
      else bindR (MCSortedStack_push depth (executionPoints d))
             (\<lambda>s. Inr (d\<lparr>executionPoints := s\<rparr>)))"

definition popLatestExecutionPoint :: "thread_data \<Rightarrow> thread_data" where
  "popLatestExecutionPoint d = d\<lparr>executionPoints := MCSortedStack_pop (executionPoints d)\<rparr>"

definition popExecutionPointsGreaterThan :: "nat \<Rightarrow> thread_data \<Rightarrow> thread_data" where
  "popExecutionPointsGreaterThan i d =
     d\<lparr>executionPoints := MCSortedStack_popGreaterThan i (executionPoints d)\<rparr>"

lemma push_execution_point:
  "pushNewLatestExecutionPoint depth d =
     (if executionPoints d \<noteq> [] \<and> hd (executionPoints d) > depth then Inl AssertFailed
      else Inr (d\<lparr>executionPoints := depth # executionPoints d\<rparr>))"
  by (auto simp: pushNewLatestExecutionPoint_def MCSortedStack_push_def MCSortedStack_empty_def)

lemma increment_decrement [simp]:
  "decrementExecutionDepthIfNecessary (incrementExecutionDepth d) = d"
  by (simp add: incrementExecutionDepth_def decrementExecutionDepthIfNecessary_def)

lemma pop_push_execution_point:
  "pushNewLatestExecutionPoint depth d = Inr d' \<Longrightarrow> popLatestExecutionPoint d' = d"
  by (auto simp: push_execution_point popLatestExecutionPoint_def MCSortedStack_pop_def
      MCSortedStack_empty_def split: if_splits)

end
