(* ===== verification/StackItem.thy ===== *)
theory StackItem
  imports ClockVector
begin

text \<open>
  \<^verbatim>\<open>MCStackItem\<close> (\<^verbatim>\<open>include/MCStackItem.h\<close>, \<^verbatim>\<open>src/MCStackItem.cpp\<close>): what DPOR remembers about one state
  of the current trace.  The \<^verbatim>\<open>unordered_set\<close>s are sets; loops that only insert are unions.
\<close>

record stack_item =
  backtrackSet :: "tid set"
  doneSet :: "tid set"
  sleepSet :: "tid set"
  enabledThreads :: "tid set"
  clockVector :: clock_vector
  spawningTransitionCanRevertState :: bool

definition newStackItem :: "clock_vector \<Rightarrow> bool \<Rightarrow> stack_item" where
  "newStackItem cv reversible =
     \<lparr>backtrackSet = {}, doneSet = {}, sleepSet = {}, enabledThreads = {}, clockVector = cv,
      spawningTransitionCanRevertState = reversible\<rparr>"

definition addBacktrackingThreadIfUnsearched :: "tid \<Rightarrow> stack_item \<Rightarrow> stack_item" where
  "addBacktrackingThreadIfUnsearched t s =
     (if t \<notin> doneSet s then s\<lparr>backtrackSet := insert t (backtrackSet s)\<rparr> else s)"

definition markBacktrackThreadSearched :: "tid \<Rightarrow> stack_item \<Rightarrow> stack_item" where
  "markBacktrackThreadSearched t s =
     s\<lparr>doneSet := insert t (doneSet s), backtrackSet := backtrackSet s - {t}\<rparr>"

definition hasThreadsToBacktrackOn :: "stack_item \<Rightarrow> bool" where
  "hasThreadsToBacktrackOn s \<longleftrightarrow> backtrackSet s \<noteq> {}"

definition isBacktrackingOnThread :: "tid \<Rightarrow> stack_item \<Rightarrow> bool" where
  "isBacktrackingOnThread t s \<longleftrightarrow> t \<in> backtrackSet s"

definition threadIsInSleepSet :: "tid \<Rightarrow> stack_item \<Rightarrow> bool" where
  "threadIsInSleepSet t s \<longleftrightarrow> t \<in> sleepSet s"

text \<open>The loop of \<^verbatim>\<open>popThreadToBacktrackOn\<close> keeps the smallest element it has met.\<close>

definition popThreadToBacktrackOn :: "stack_item \<Rightarrow> (tid \<times> stack_item) result" where
  "popThreadToBacktrackOn s =
     (if \<not> hasThreadsToBacktrackOn s then Inl AssertFailed
      else let t = Min (backtrackSet s) in Inr (t, markBacktrackThreadSearched t s))"

definition markThreadsEnabledInState :: "tid set \<Rightarrow> stack_item \<Rightarrow> stack_item" where
  "markThreadsEnabledInState ts s = s\<lparr>enabledThreads := enabledThreads s \<union> ts\<rparr>"

definition addThreadToSleepSet :: "tid \<Rightarrow> stack_item \<Rightarrow> stack_item" where
  "addThreadToSleepSet t s = s\<lparr>sleepSet := insert t (sleepSet s)\<rparr>"

lemmas stack_item_defs =
  newStackItem_def addBacktrackingThreadIfUnsearched_def markBacktrackThreadSearched_def
  hasThreadsToBacktrackOn_def isBacktrackingOnThread_def threadIsInSleepSet_def
  markThreadsEnabledInState_def addThreadToSleepSet_def

section \<open>The invariant of a stack item\<close>

text \<open>
  A scheduled thread was enabled in the state, has not run from it and does not sleep there, and the
  sets stay finite.  (The header of the class says that a thread is in exactly one of the backtrack,
  done and sleep sets; the done and the sleep set overlap, see \<open>StateStack\<close>.)
\<close>

definition item_wf :: "stack_item \<Rightarrow> bool" where
  "item_wf s \<longleftrightarrow> finite (enabledThreads s)
     \<and> backtrackSet s \<subseteq> enabledThreads s - doneSet s - sleepSet s"

lemma item_wf_new [intro]: "item_wf (newStackItem cv r)"
  by (simp add: item_wf_def newStackItem_def)

lemma item_wf_add [intro]:
  "item_wf s \<Longrightarrow> t \<in> enabledThreads s \<Longrightarrow> t \<notin> sleepSet s \<Longrightarrow> item_wf (addBacktrackingThreadIfUnsearched t s)"
  by (auto simp: item_wf_def addBacktrackingThreadIfUnsearched_def)

lemma item_wf_mark [intro]: "item_wf s \<Longrightarrow> item_wf (markBacktrackThreadSearched t s)"
  by (auto simp: item_wf_def markBacktrackThreadSearched_def)

lemma item_wf_enabled [intro]: "item_wf s \<Longrightarrow> finite ts \<Longrightarrow> item_wf (markThreadsEnabledInState ts s)"
  by (auto simp: item_wf_def markThreadsEnabledInState_def)

lemma item_wf_searched_and_asleep [intro]:
  "item_wf s \<Longrightarrow> item_wf (markBacktrackThreadSearched t (addThreadToSleepSet t s))"
  by (auto simp: item_wf_def addThreadToSleepSet_def markBacktrackThreadSearched_def)

lemma item_wf_finite: "item_wf s \<Longrightarrow> finite (backtrackSet s)"
  unfolding item_wf_def by (meson Diff_subset finite_subset)

lemma pop_spec:
  assumes "item_wf s" and "popThreadToBacktrackOn s = Inr (t, s')"
  shows "t \<in> backtrackSet s" and "\<forall>u \<in> backtrackSet s. t \<le> u" and "t \<notin> doneSet s"
    and "backtrackSet s' = backtrackSet s - {t}" and "doneSet s' = insert t (doneSet s)"
    and "sleepSet s' = sleepSet s" and "enabledThreads s' = enabledThreads s"
    and "clockVector s' = clockVector s" and "item_wf s'"
proof -
  from assms(2) have ne: "backtrackSet s \<noteq> {}" and t: "t = Min (backtrackSet s)"
    and s': "s' = markBacktrackThreadSearched t s"
    by (auto simp: popThreadToBacktrackOn_def hasThreadsToBacktrackOn_def Let_def split: if_splits)
  have fin: "finite (backtrackSet s)" and disj: "backtrackSet s \<inter> doneSet s = {}"
    using assms(1) item_wf_finite by (auto simp: item_wf_def)
  show mem: "t \<in> backtrackSet s" using t fin ne by simp
  show "\<forall>u \<in> backtrackSet s. t \<le> u" using t fin by simp
  show "t \<notin> doneSet s" using mem disj by blast
  show "backtrackSet s' = backtrackSet s - {t}" "doneSet s' = insert t (doneSet s)"
    "sleepSet s' = sleepSet s" "enabledThreads s' = enabledThreads s"
    "clockVector s' = clockVector s"
    using s' by (simp_all add: markBacktrackThreadSearched_def)
  show "item_wf s'" using s' assms(1) by blast
qed

lemma pop_fails_iff: "popThreadToBacktrackOn s = Inl e \<longleftrightarrow> backtrackSet s = {} \<and> e = AssertFailed"
  by (auto simp: popThreadToBacktrackOn_def hasThreadsToBacktrackOn_def Let_def)

end
