(* ===== verification/StateStack.thy ===== *)
theory StateStack
  imports Transitions ThreadData StackItem
begin

text \<open>
  \<^verbatim>\<open>MCStack\<close> (\<^verbatim>\<open>include/MCStack.h\<close>, \<^verbatim>\<open>src/MCStack.cpp\<close>): the state McMini keeps of the target and
  of the search, and the operations that read it and extend it.

  The two stacks are arrays with a top index; here they are lists that hold the entries up to the
  top, so that \<open>transitionStackTop\<close> is the length minus one.  Their capacities are kept as guards
  (\<open>OutOfBounds\<close>).  \<open>nextTransitions\<close> and \<open>threadData\<close> are arrays of
  \<^const>\<open>MAX_TOTAL_THREADS_IN_PROGRAM\<close> entries, guarded where a thread id enters them.  A pending
  transition points to live objects: \<open>getNextTransitionForThread\<close> reads it through the store.

  \<open>entry\<close> arguments are the value of \<^verbatim>\<open>getNextTraceSeqEntry\<close>: negative unless a schedule was given
  (see \<open>Search\<close>).
\<close>

definition MAX_TOTAL_STATES_IN_STATE_STACK :: nat where
  "MAX_TOTAL_STATES_IN_STATE_STACK = 1000000"

record stack_configuration =
  maxThreadExecutionDepth :: u64
  maxTotalTransitionsDepthLimit :: u64

record mcstack =
  objectStorage :: object_store
  configuration :: stack_configuration
  nextThreadId :: tid
  nextTransitions :: "tid \<Rightarrow> transition option"
  threadData :: "tid \<Rightarrow> thread_data"
  transitionStack :: "transition list"
  stateStack :: "stack_item list"
  threadIdMap :: "tid \<Rightarrow> objid option"
  irreversibleStatesStack :: sorted_stack

definition newMCStack :: "stack_configuration \<Rightarrow> mcstack" where
  "newMCStack cfg =
     \<lparr>objectStorage = newMCObjectStore, configuration = cfg, nextThreadId = 0,
      nextTransitions = (\<lambda>_. None), threadData = (\<lambda>_. MCThreadData_init), transitionStack = [],
      stateStack = [], threadIdMap = (\<lambda>_. None), irreversibleStatesStack = []\<rparr>"

definition transitionStackTop :: "mcstack \<Rightarrow> int" where
  "transitionStackTop s = int (length (transitionStack s)) - 1"

definition stateStackTop :: "mcstack \<Rightarrow> int" where
  "stateStackTop s = int (length (stateStack s)) - 1"

definition getNumProgramThreads :: "mcstack \<Rightarrow> nat" where
  "getNumProgramThreads s = nextThreadId s"

section \<open>Threads and pending transitions\<close>

definition getThreadWithId :: "mcstack \<Rightarrow> tid \<Rightarrow> mcthread result" where
  "getThreadWithId s t =
     (case threadIdMap s t of None \<Rightarrow> Inl NullDereference | Some i \<Rightarrow> getThread i (objectStorage s))"

definition getNextTransitionForThread :: "mcstack \<Rightarrow> tid \<Rightarrow> transition result" where
  "getNextTransitionForThread s t =
     guardR OutOfBounds (t < MAX_TOTAL_THREADS_IN_PROGRAM)
       (case nextTransitions s t of None \<Rightarrow> Inl NullDereference
        | Some p \<Rightarrow> refresh (getThreadWithId s) (objectStorage s) p)"

definition setNextTransitionForThread :: "tid \<Rightarrow> transition \<Rightarrow> mcstack \<Rightarrow> mcstack result" where
  "setNextTransitionForThread t p s =
     guardR OutOfBounds (t < MAX_TOTAL_THREADS_IN_PROGRAM)
       (Inr (s\<lparr>nextTransitions := (nextTransitions s)(t := Some p)\<rparr>))"

definition registerVisibleObjectWithSystemIdentity ::
  "sysid \<Rightarrow> visible_object \<Rightarrow> mcstack \<Rightarrow> (objid \<times> mcstack) result" where
  "registerVisibleObjectWithSystemIdentity sys v s =
     bindR (registerNewObject v (objectStorage s)) (\<lambda>(i, st).
       Inr (i, s\<lparr>objectStorage := mapSystemAddressToShadow sys i st\<rparr>))"

text \<open>A thread's shadow is a thread record whose ids are filled in here.\<close>

definition createNewThread :: "mcthread \<Rightarrow> mcstack \<Rightarrow> (tid \<times> mcstack) result" where
  "createNewThread shadow s =
     (let newTid = nextThreadId s;
          s1 = s\<lparr>nextThreadId := nextThreadId s + 1\<rparr>;
          thread = shadow\<lparr>thread_tid := newTid\<rparr>
      in bindR (registerVisibleObjectWithSystemIdentity (thread_sys thread) (VThread thread) s1)
           (\<lambda>(newObjId, s2).
             Inr (newTid,
               s2\<lparr>threadIdMap := (case threadIdMap s2 newTid of
                    None \<Rightarrow> (threadIdMap s2)(newTid := Some newObjId) | Some _ \<Rightarrow> threadIdMap s2)\<rparr>)))"

definition createMainThread :: "sysid \<Rightarrow> mcstack \<Rightarrow> (tid \<times> mcstack) result" where
  "createMainThread self s =
     bindR (createNewThread ((newMCThread 0 0 0 self)\<lparr>thread_state := alive\<rparr>) s) (\<lambda>(mainThreadId, s').
       guardR AssertFailed (mainThreadId = TID_MAIN_THREAD) (Inr (mainThreadId, s')))"

definition createInitialTransitionForThread :: "mcthread \<Rightarrow> transition" where
  "createInitialTransitionForThread thread = MCThreadTransition thread ThreadStart thread"

definition addNewThread :: "mcthread \<Rightarrow> mcstack \<Rightarrow> (tid \<times> mcstack) result" where
  "addNewThread shadow s =
     bindR (createNewThread shadow s) (\<lambda>(newThread, s1).
     bindR (getThreadWithId s1 newThread) (\<lambda>thread.
     bindR (setNextTransitionForThread newThread (createInitialTransitionForThread thread) s1) (\<lambda>s2.
       Inr (newThread, s2))))"

definition transitionIsEnabled :: "mcstack \<Rightarrow> transition \<Rightarrow> bool" where
  "transitionIsEnabled s t \<longleftrightarrow>
     unat (executionDepth (threadData s (getThreadId t))) < unat (maxThreadExecutionDepth (configuration s))
     \<and> transitionEnabledInState t"

section \<open>Choosing the next transition\<close>

definition depthLimitReached :: "mcstack \<Rightarrow> bool" where
  "depthLimitReached s \<longleftrightarrow>
     (word_of_int (transitionStackTop s) :: u64) \<ge> maxTotalTransitionsDepthLimit (configuration s)"

text \<open>\<open>None\<close> is the null pointer: nothing to run.\<close>

fun firstEnabledLoop :: "mcstack \<Rightarrow> stack_item \<Rightarrow> tid list \<Rightarrow> transition option result" where
  "firstEnabledLoop s sTop [] = Inr None"
| "firstEnabledLoop s sTop (i # is) =
     bindR (getNextTransitionForThread s i) (\<lambda>t.
       if transitionIsEnabled s t \<and> \<not> threadIsInSleepSet i sTop then Inr (Some t)
       else firstEnabledLoop s sTop is)"

definition getFirstEnabledTransition :: "int \<Rightarrow> mcstack \<Rightarrow> transition option result" where
  "getFirstEnabledTransition entry s =
     (if entry \<ge> 0 then bindR (getNextTransitionForThread s (nat entry)) (\<lambda>t. Inr (Some t))
      else if depthLimitReached s then Inr None
      else guardR OutOfBounds (stateStack s \<noteq> [])
             (firstEnabledLoop s (last (stateStack s)) [0..<getNumProgramThreads s]))"

text \<open>
  The fair search goes round from the thread after \<open>tid\<close>, a 64-bit word (its caller passes
  \<open>tid - 1\<close>, which wraps for the main thread), and asks the sleep set about the loop counter \<open>i\<close>.
\<close>

fun nextFairLoop :: "mcstack \<Rightarrow> stack_item \<Rightarrow> u64 \<Rightarrow> nat list \<Rightarrow> transition option result" where
  "nextFairLoop s sTop t [] = Inr None"
| "nextFairLoop s sTop t (i # is) =
     (let t' = (t + 1) mod of_nat (getNumProgramThreads s) in
      bindR (getNextTransitionForThread s (unat t')) (\<lambda>p.
        if transitionIsEnabled s p \<and> \<not> threadIsInSleepSet i sTop then Inr (Some p)
        else nextFairLoop s sTop t' is))"

definition getNextFairTransition :: "int \<Rightarrow> u64 \<Rightarrow> mcstack \<Rightarrow> transition option result" where
  "getNextFairTransition entry t s =
     (if entry \<ge> 0 then bindR (getNextTransitionForThread s (nat entry)) (\<lambda>p. Inr (Some p))
      else if depthLimitReached s then Inr None
      else guardR OutOfBounds (stateStack s \<noteq> [])
             (nextFairLoop s (last (stateStack s)) t [0..<getNumProgramThreads s]))"

section \<open>Questions about the current state\<close>

definition getCurrentlyEnabledThreads :: "int \<Rightarrow> mcstack \<Rightarrow> tid set result" where
  "getCurrentlyEnabledThreads entry s =
     (if entry \<ge> 0 then Inr {nat entry}
      else foldR (\<lambda>i acc. bindR (getNextTransitionForThread s i) (\<lambda>t.
             Inr (if transitionEnabledInState t then insert i acc else acc)))
             [0..<getNumProgramThreads s] {})"

fun deadlockLoop :: "mcstack \<Rightarrow> tid list \<Rightarrow> bool result" where
  "deadlockLoop s [] = Inr True"
| "deadlockLoop s (i # is) =
     bindR (getNextTransitionForThread s i) (\<lambda>t.
       if ensuresDeadlockIsImpossible (methods_of t) then Inr False
       else if transitionEnabledInState t then Inr False
       else deadlockLoop s is)"

definition isInDeadlock :: "mcstack \<Rightarrow> bool result" where
  "isInDeadlock s = deadlockLoop s [0..<getNumProgramThreads s]"

fun dataRaceLoop :: "mcstack \<Rightarrow> transition \<Rightarrow> tid list \<Rightarrow> bool result" where
  "dataRaceLoop s t [] = Inr False"
| "dataRaceLoop s t (i # is) =
     (if i = getThreadId t then dataRaceLoop s t is
      else bindR (getNextTransitionForThread s i) (\<lambda>p.
        if transitionsInDataRace p t then Inr True else dataRaceLoop s t is))"

definition hasADataRaceWithNewTransition :: "mcstack \<Rightarrow> transition \<Rightarrow> bool result" where
  "hasADataRaceWithNewTransition s t = dataRaceLoop s t [0..<getNumProgramThreads s]"

text \<open>The index of the deepest state with threads left to search, \<open>FIRST_BRANCH\<close> (-1) if none.\<close>

fun deepestBranchLoop :: "stack_item list \<Rightarrow> nat \<Rightarrow> int" where
  "deepestBranchLoop items 0 = -1"
| "deepestBranchLoop items (Suc j) =
     (if hasThreadsToBacktrackOn (items ! j) then int j else deepestBranchLoop items j)"

definition getDeepestDPORBranchPoint :: "mcstack \<Rightarrow> int" where
  "getDeepestDPORBranchPoint s = deepestBranchLoop (stateStack s) (length (stateStack s))"

definition totalThreadExecutionDepth :: "mcstack \<Rightarrow> u32" where
  "totalThreadExecutionDepth s =
     fold (\<lambda>i acc. acc + executionDepth (threadData s i)) [0..<nextThreadId s] 0"

definition getThreadIdBacktrace :: "mcstack \<Rightarrow> tid list" where
  "getThreadIdBacktrace s = map getThreadId (transitionStack s)"

section \<open>Running transitions in the model\<close>

definition virtuallyApplyTransition :: "transition \<Rightarrow> mcstack \<Rightarrow> mcstack result" where
  "virtuallyApplyTransition t s =
     bindR (dynamicCopyInState (methods_of t) (getThreadWithId s) (objectStorage s)) (\<lambda>dynamicCopy.
     bindR (applyToState (methods_of dynamicCopy) (objectStorage s)) (\<lambda>st.
       Inr (s\<lparr>objectStorage := st\<rparr>)))"

definition virtuallyUnapplyTransition :: "transition \<Rightarrow> mcstack \<Rightarrow> mcstack result" where
  "virtuallyUnapplyTransition t s =
     bindR (dynamicCopyInState (methods_of t) (getThreadWithId s) (objectStorage s)) (\<lambda>dynamicCopy.
     bindR (unapplyToState (methods_of dynamicCopy) (objectStorage s)) (\<lambda>st.
       Inr (s\<lparr>objectStorage := st\<rparr>)))"

definition updateThreadData :: "tid \<Rightarrow> (thread_data \<Rightarrow> thread_data) \<Rightarrow> mcstack \<Rightarrow> mcstack" where
  "updateThreadData t f s = s\<lparr>threadData := (threadData s)(t := f (threadData s t))\<rparr>"

definition updateThreadDataR ::
  "tid \<Rightarrow> (thread_data \<Rightarrow> thread_data result) \<Rightarrow> mcstack \<Rightarrow> mcstack result" where
  "updateThreadDataR t f s =
     bindR (f (threadData s t)) (\<lambda>d. Inr (s\<lparr>threadData := (threadData s)(t := d)\<rparr>))"

definition incrementThreadDepthIfNecessary :: "transition \<Rightarrow> mcstack \<Rightarrow> mcstack" where
  "incrementThreadDepthIfNecessary t s =
     (if countsAgainstThreadExecutionDepth (methods_of t)
      then updateThreadData (getThreadId t) incrementExecutionDepth s else s)"

definition decrementThreadDepthIfNecessary :: "transition \<Rightarrow> mcstack \<Rightarrow> mcstack" where
  "decrementThreadDepthIfNecessary t s =
     (if countsAgainstThreadExecutionDepth (methods_of t)
      then updateThreadData (getThreadId t) decrementExecutionDepthIfNecessary s else s)"

definition virtuallyRunTransition :: "transition \<Rightarrow> mcstack \<Rightarrow> mcstack result" where
  "virtuallyRunTransition t s =
     bindR (virtuallyApplyTransition t s) (\<lambda>s1.
       updateThreadDataR (getThreadId t) (pushNewLatestExecutionPoint (nat (transitionStackTop s)))
         (incrementThreadDepthIfNecessary t s1))"

section \<open>Growing the stacks\<close>

definition growTransitionStackRunning :: "transition \<Rightarrow> mcstack \<Rightarrow> mcstack result" where
  "growTransitionStackRunning t s =
     guardR OutOfBounds
       (length (transitionStack s) < MC_STATE_CONFIG_MAX_TRANSITIONS_DEPTH_LIMIT_DEFAULT)
       (Inr (s\<lparr>transitionStack := transitionStack s @ [staticCopy (methods_of t)]\<rparr>))"

definition growStateStackWith :: "clock_vector \<Rightarrow> bool \<Rightarrow> mcstack \<Rightarrow> mcstack result" where
  "growStateStackWith cv revertible s =
     guardR OutOfBounds (length (stateStack s) < MAX_TOTAL_STATES_IN_STATE_STACK)
       (Inr (s\<lparr>stateStack := stateStack s @ [newStackItem cv revertible]\<rparr>))"

definition growStateStack :: "mcstack \<Rightarrow> mcstack result" where
  "growStateStack s = growStateStackWith newEmptyClockVector False s"

text \<open>The loop visits the transitions below every state of the stack but the first.\<close>

definition transitionStackMaxClockVector :: "transition \<Rightarrow> mcstack \<Rightarrow> clock_vector" where
  "transitionStackMaxClockVector t s =
     fold (\<lambda>i cv. if dependentTransitions (transitionStack s ! (i - 1)) t
                   then clock_max (clockVector (stateStack s ! i)) cv else cv)
       [1..<length (stateStack s)] newEmptyClockVector"

definition clockVectorForTransitionAtIndex :: "nat \<Rightarrow> mcstack \<Rightarrow> clock_vector" where
  "clockVectorForTransitionAtIndex i s = clockVector (stateStack s ! (i + 1))"

text \<open>Whether the pending transition of \<open>p\<close> exists and does not depend on \<open>t\<close>.\<close>

definition keepsSleeping :: "mcstack \<Rightarrow> transition \<Rightarrow> tid \<Rightarrow> bool" where
  "keepsSleeping s t p =
     (case getNextTransitionForThread s p of Inl _ \<Rightarrow> False
      | Inr tidNext \<Rightarrow> \<not> dependentTransitions tidNext t)"

definition growStateStackRunningTransition :: "int \<Rightarrow> transition \<Rightarrow> mcstack \<Rightarrow> mcstack result" where
  "growStateStackRunningTransition entry t s =
     guardR AssertFailed (stateStack s \<noteq> [])
     (let transitionIsRevertible = isReversibleInState (methods_of t);
          threadRunning = getThreadId t in
      bindR (getCurrentlyEnabledThreads entry s) (\<lambda>enabledThreads.
      let cv = set_component (transitionStackMaxClockVector t s) threadRunning
                 (nat (transitionStackTop s)) in
      bindR (growStateStackWith cv transitionIsRevertible s) (\<lambda>s1.
      let oldSTop = last (stateStack s);
          sleepers = {p \<in> sleepSet oldSTop. keepsSleeping s1 t p};
          newSTop = (newStackItem cv transitionIsRevertible)\<lparr>sleepSet := sleepers\<rparr>;
          oldSTop' = markBacktrackThreadSearched threadRunning
                       (addThreadToSleepSet threadRunning
                         (markThreadsEnabledInState enabledThreads oldSTop));
          s2 = s1\<lparr>stateStack := butlast (stateStack s) @ [oldSTop', newSTop]\<rparr>;
          s3 = updateThreadData threadRunning (setClockVector cv) s2 in
      guardR NullDereference (\<forall>p \<in> sleepSet oldSTop. \<not> isl (getNextTransitionForThread s1 p))
       (if transitionIsRevertible then Inr s3
        else bindR (MCSortedStack_push (nat (stateStackTop s3)) (irreversibleStatesStack s3))
               (\<lambda>irr. Inr (s3\<lparr>irreversibleStatesStack := irr\<rparr>))))))"

text \<open>
  \<open>handler\<close> is the reader registered for the type of the operation the thread stopped at next
  (\<open>ReadHandlers\<close>), applied to what the thread wrote to shared memory.
\<close>

type_synonym reader = "mcstack \<Rightarrow> (mcstack \<times> transition) result"

definition simulateRunningTransition :: "int \<Rightarrow> transition \<Rightarrow> reader \<Rightarrow> mcstack \<Rightarrow> mcstack result" where
  "simulateRunningTransition entry t handler s =
     bindR (growTransitionStackRunning t s) (\<lambda>s1.
     bindR (growStateStackRunningTransition entry t s1) (\<lambda>s2.
     bindR (virtuallyRunTransition t s2) (\<lambda>s3.
     bindR (handler s3) (\<lambda>(s4, next).
       setNextTransitionForThread (getThreadId t) next s4))))"

section \<open>Happens-before by clock vectors\<close>

definition happensBefore :: "nat \<Rightarrow> nat \<Rightarrow> mcstack \<Rightarrow> bool" where
  "happensBefore i j s \<longleftrightarrow>
     i \<le> value_or (valueForThread (clockVectorForTransitionAtIndex j s)
            (getThreadId (transitionStack s ! i))) 0"

definition happensBeforeThread :: "nat \<Rightarrow> tid \<Rightarrow> mcstack \<Rightarrow> bool" where
  "happensBeforeThread i p s \<longleftrightarrow>
     i \<le> value_or (valueForThread (td_clockVector (threadData s p))
            (getThreadId (transitionStack s ! i))) 0"

definition threadsRaceAfterDepth :: "nat \<Rightarrow> tid \<Rightarrow> tid \<Rightarrow> mcstack \<Rightarrow> bool" where
  "threadsRaceAfterDepth depth q p s \<longleftrightarrow>
     list_ex (\<lambda>j. q = getThreadId (transitionStack s ! j) \<and> happensBeforeThread j p s)
       [depth + 1..<length (transitionStack s)]"

end
