(* ===== verification/HappensBefore.thy ===== *)
theory HappensBefore
  imports StateStack
begin

text \<open>
  The clock vectors of the state stack decide the happens-before relation of the trace: the order
  generated by the dependent pairs, in the order they ran.  The argument is generic in the
  dependence relation (locale \<open>dependency\<close>) and is applied to \<open>dependentTransitions\<close>.
\<close>

section \<open>Clock vectors over a dependence relation\<close>

locale dependency =
  fixes dep :: "'a \<Rightarrow> 'a \<Rightarrow> bool"
    and proc :: "'a \<Rightarrow> tid"
  assumes same_proc: "proc a = proc b \<Longrightarrow> dep a b"
begin

text \<open>One step of the order: a later transition that depends on an earlier one.\<close>

definition hb_step :: "'a list \<Rightarrow> (nat \<times> nat) set" where
  "hb_step ts = {(a, b). a < b \<and> b < length ts \<and> dep (ts ! a) (ts ! b)}"

definition hb :: "'a list \<Rightarrow> nat \<Rightarrow> nat \<Rightarrow> bool" where
  "hb ts i j \<longleftrightarrow> (i, j) \<in> (hb_step ts)\<^sup>*"

text \<open>The clocks of a trace as the stack computes them, each from the ones before it.\<close>

definition max_clock :: "'a list \<Rightarrow> clock_vector list \<Rightarrow> 'a \<Rightarrow> nat \<Rightarrow> clock_vector" where
  "max_clock ts cs t n =
     fold (\<lambda>i cv. if dep (ts ! i) t then clock_max (cs ! i) cv else cv) [0..<n] newEmptyClockVector"

definition clocked :: "'a list \<Rightarrow> clock_vector list \<Rightarrow> bool" where
  "clocked ts cs \<longleftrightarrow> length cs = length ts \<and>
     (\<forall>j < length ts. cs ! j = set_component (max_clock ts cs (ts ! j) j) (proc (ts ! j)) j)"

lemma max_clock_Suc:
  "max_clock ts cs t (Suc n) =
     (if dep (ts ! n) t then clock_max (cs ! n) (max_clock ts cs t n) else max_clock ts cs t n)"
  by (simp add: max_clock_def)

lemma max_clock_cong:
  "\<forall>i < n. ts ! i = ts' ! i \<and> cs ! i = cs' ! i \<Longrightarrow> max_clock ts cs t n = max_clock ts' cs' t n"
  by (induction n) (simp_all add: max_clock_Suc, simp add: max_clock_def)

lemma clock_wf_max_clock: "clock_wf (max_clock ts cs t n)"
  by (induction n) (simp_all add: max_clock_Suc clock_wf_max, simp add: max_clock_def clock_wf_empty)

lemma clocked_wf: "clocked ts cs \<Longrightarrow> j < length ts \<Longrightarrow> clock_wf (cs ! j)"
  by (metis clocked_def clock_wf_set clock_wf_max_clock)

lemma max_clock_le_iff:
  assumes "\<forall>i < n. clock_wf (cs ! i)" and "0 < k"
  shows "k \<le> clock_at (max_clock ts cs t n) p \<longleftrightarrow>
    (\<exists>i < n. dep (ts ! i) t \<and> k \<le> clock_at (cs ! i) p)"
  using assms
proof (induction n)
  case 0
  then show ?case by (simp add: max_clock_def clock_at_empty)
next
  case (Suc n)
  then have IH: "k \<le> clock_at (max_clock ts cs t n) p \<longleftrightarrow>
      (\<exists>i < n. dep (ts ! i) t \<and> k \<le> clock_at (cs ! i) p)" by simp
  have wf: "clock_wf (cs ! n)" using Suc.prems(1) by simp
  show ?case
    using IH clock_at_max [OF wf clock_wf_max_clock [of ts cs t n]]
    by (auto simp: max_clock_Suc less_Suc_eq le_max_iff_disj)
qed

lemma hb_refl [simp]: "hb ts i i"
  by (simp add: hb_def)

lemma hb_trans: "hb ts i j \<Longrightarrow> hb ts j k \<Longrightarrow> hb ts i k"
  by (simp add: hb_def)

lemma hb_dep: "i < j \<Longrightarrow> j < length ts \<Longrightarrow> dep (ts ! i) (ts ! j) \<Longrightarrow> hb ts i j"
  by (auto simp: hb_def hb_step_def)

lemma hb_le: "hb ts i j \<Longrightarrow> i \<le> j"
  unfolding hb_def by (induction rule: rtrancl_induct) (auto simp: hb_step_def)

lemma hb_last:
  assumes "hb ts i j" and "i \<noteq> j"
  obtains i' where "hb ts i i'" and "i' < j" and "dep (ts ! i') (ts ! j)"
  using assms unfolding hb_def by (auto elim: rtranclE simp: hb_step_def)

text \<open>The clock of transition \<open>j\<close> at the thread of \<open>i\<close> reaches \<open>i\<close> exactly when \<open>i\<close> happens before \<open>j\<close>.\<close>

lemma clock_decides_hb:
  assumes "clocked ts cs" and "j < length ts" and "0 < i" and "i < length ts"
  shows "i \<le> clock_at (cs ! j) (proc (ts ! i)) \<longleftrightarrow> hb ts i j"
  using assms(2)
proof (induction j rule: less_induct)
  case (less j)
  have cj: "cs ! j = set_component (max_clock ts cs (ts ! j) j) (proc (ts ! j)) j"
    using assms(1) less.prems by (simp add: clocked_def)
  have wf: "\<forall>i < j. clock_wf (cs ! i)"
    using clocked_wf [OF assms(1)] less.prems by simp
  show ?case
  proof (cases "proc (ts ! i) = proc (ts ! j)")
    case True
    then have "hb ts i j \<longleftrightarrow> i \<le> j"
      using hb_le hb_dep [of i j ts] same_proc less.prems by (auto simp: le_less)
    then show ?thesis by (simp add: cj clock_at_set True)
  next
    case False
    have "i \<le> clock_at (cs ! j) (proc (ts ! i)) \<longleftrightarrow>
        (\<exists>i' < j. dep (ts ! i') (ts ! j) \<and> i \<le> clock_at (cs ! i') (proc (ts ! i)))"
      by (simp add: cj clock_at_set False max_clock_le_iff [OF wf assms(3)])
    also have "\<dots> \<longleftrightarrow> (\<exists>i' < j. dep (ts ! i') (ts ! j) \<and> hb ts i i')"
      using less.IH less.prems by auto
    also have "\<dots> \<longleftrightarrow> hb ts i j"
    proof
      assume "\<exists>i' < j. dep (ts ! i') (ts ! j) \<and> hb ts i i'"
      then show "hb ts i j" using hb_dep hb_trans less.prems by blast
    next
      assume hb: "hb ts i j"
      have "i \<noteq> j" using False by auto
      with hb show "\<exists>i' < j. dep (ts ! i') (ts ! j) \<and> hb ts i i'"
        by (meson hb_last)
    qed
    finally show ?thesis .
  qed
qed

lemma clocked_snoc:
  assumes "clocked ts cs"
  shows "clocked (ts @ [t]) (cs @ [set_component (max_clock ts cs t (length ts)) (proc t) (length ts)])"
proof -
  have len: "length cs = length ts" using assms by (simp add: clocked_def)
  have cong: "max_clock (ts @ [t]) (cs @ [c]) u n = max_clock ts cs u n" if "n \<le> length ts" for u n c
    using that len by (intro max_clock_cong) (simp add: nth_append)
  show ?thesis
    using assms len by (auto simp: clocked_def less_Suc_eq nth_append cong)
qed

lemma clocked_take:
  assumes "clocked ts cs"
  shows "clocked (take n ts) (take n cs)"
proof -
  have "max_clock (take n ts) (take n cs) u j = max_clock ts cs u j" if "j < n" for u j
    using that by (intro max_clock_cong) simp
  then show ?thesis using assms by (simp add: clocked_def)
qed

end

interpretation trace: dependency dependentTransitions getThreadId
  by unfold_locales (rule dependent_same_thread)


section \<open>The stacks\<close>

text \<open>The parts of the stack that the readers of shared memory leave alone.\<close>

definition same_search :: "mcstack \<Rightarrow> mcstack \<Rightarrow> bool" where
  "same_search s s' \<longleftrightarrow> transitionStack s' = transitionStack s \<and> stateStack s' = stateStack s
     \<and> threadData s' = threadData s \<and> irreversibleStatesStack s' = irreversibleStatesStack s
     \<and> configuration s' = configuration s \<and> threadIdMap s \<subseteq>\<^sub>m threadIdMap s'"

definition frames_search :: "reader \<Rightarrow> bool" where
  "frames_search handler \<longleftrightarrow> (\<forall>s s' p. handler s = Inr (s', p) \<longrightarrow> same_search s s')"

lemma same_search_refl [intro]: "same_search s s"
  by (simp add: same_search_def)

lemma same_search_trans: "same_search s s' \<Longrightarrow> same_search s' s'' \<Longrightarrow> same_search s s''"
  by (auto simp: same_search_def intro: map_le_trans)

lemma apply_frame: "virtuallyApplyTransition t s = Inr s' \<Longrightarrow> same_search s s'"
  by (auto simp: virtuallyApplyTransition_def same_search_def result_simps)

lemma setNext_frame: "setNextTransitionForThread t p s = Inr s' \<Longrightarrow> same_search s s'"
  by (auto simp: setNextTransitionForThread_def same_search_def result_simps)

text \<open>The clocks of the state stack are those of the trace.\<close>

definition clocks_ok :: "mcstack \<Rightarrow> bool" where
  "clocks_ok s \<longleftrightarrow> length (stateStack s) = Suc (length (transitionStack s))
     \<and> trace.clocked (transitionStack s) (map clockVector (tl (stateStack s)))"

lemma clocks_ok_same: "same_search s s' \<Longrightarrow> clocks_ok s' = clocks_ok s"
  by (simp add: clocks_ok_def same_search_def)

lemma maxClockVector_eq:
  assumes "length (stateStack s) = Suc n" and "n \<le> length (transitionStack s)"
  shows "transitionStackMaxClockVector t s =
    trace.max_clock (transitionStack s) (map clockVector (tl (stateStack s))) t n"
proof -
  have "fold (\<lambda>i cv. if dependentTransitions (transitionStack s ! (i - 1)) t
           then clock_max (clockVector (stateStack s ! i)) cv else cv) [1..<Suc k] newEmptyClockVector =
      trace.max_clock (transitionStack s) (map clockVector (tl (stateStack s))) t k"
    if "k \<le> n" for k
    using that
  proof (induction k)
    case 0
    then show ?case by (simp add: trace.max_clock_def)
  next
    case (Suc k)
    then show ?case
      using assms by (simp add: trace.max_clock_Suc nth_tl)
  qed
  from this [of n] show ?thesis
    by (simp add: transitionStackMaxClockVector_def assms(1))
qed

section \<open>One simulated transition\<close>

text \<open>What the state item on top becomes, and the item that is pushed.\<close>

definition departed_item :: "tid \<Rightarrow> tid set \<Rightarrow> stack_item \<Rightarrow> stack_item" where
  "departed_item t enabled it =
     markBacktrackThreadSearched t (addThreadToSleepSet t (markThreadsEnabledInState enabled it))"

lemma clockVector_departed [simp]: "clockVector (departed_item t en it) = clockVector it"
  by (simp add: departed_item_def stack_item_defs)

lemma item_wf_departed: "item_wf it \<Longrightarrow> finite en \<Longrightarrow> item_wf (departed_item t en it)"
  by (simp add: departed_item_def item_wf_searched_and_asleep item_wf_enabled)

lemma finite_enabled: "getCurrentlyEnabledThreads entry s = Inr en \<Longrightarrow> finite en"
  by (auto simp: getCurrentlyEnabledThreads_def result_simps split: if_splits
      elim!: foldR_invariant [where P = finite])

lemma nat_1_plus: "nat (1 + int n) = Suc n"
  by simp

definition running_clock :: "transition \<Rightarrow> mcstack \<Rightarrow> clock_vector" where
  "running_clock t s = set_component (transitionStackMaxClockVector t s) (getThreadId t)
     (nat (transitionStackTop s))"

lemma growStateStackRunning_cases:
  assumes "growStateStackRunningTransition entry t s = Inr s'"
  obtains en sl where "stateStack s \<noteq> []" and "getCurrentlyEnabledThreads entry s = Inr en"
    and "sl \<subseteq> sleepSet (last (stateStack s))"
    and "s' = s\<lparr>stateStack := butlast (stateStack s) @
           [departed_item (getThreadId t) en (last (stateStack s)),
            (newStackItem (running_clock t s) (isReversibleInState (methods_of t)))\<lparr>sleepSet := sl\<rparr>],
         threadData := (threadData s)(getThreadId t :=
           setClockVector (running_clock t s) (threadData s (getThreadId t))),
         irreversibleStatesStack := (if isReversibleInState (methods_of t)
           then irreversibleStatesStack s else length (stateStack s) # irreversibleStatesStack s)\<rparr>"
proof -
  from assms obtain en s1 where ne: "stateStack s \<noteq> []"
    and en: "getCurrentlyEnabledThreads entry s = Inr en"
    and s1: "s1 = s\<lparr>stateStack := stateStack s @ [newStackItem (running_clock t s) (isReversibleInState (methods_of t))]\<rparr>"
    and rest: "(let sl = {p \<in> sleepSet (last (stateStack s)). keepsSleeping s1 t p};
        s3 = updateThreadData (getThreadId t) (setClockVector (running_clock t s))
          (s1\<lparr>stateStack := butlast (stateStack s) @
             [departed_item (getThreadId t) en (last (stateStack s)),
              (newStackItem (running_clock t s) (isReversibleInState (methods_of t)))\<lparr>sleepSet := sl\<rparr>]\<rparr>)
      in if isReversibleInState (methods_of t) then Inr s3
         else bindR (MCSortedStack_push (nat (stateStackTop s3)) (irreversibleStatesStack s3))
                (\<lambda>irr. Inr (s3\<lparr>irreversibleStatesStack := irr\<rparr>))) = Inr s'"
    unfolding growStateStackRunningTransition_def growStateStackWith_def Let_def guardR_eq_Inr
      bindR_eq_Inr departed_item_def running_clock_def
    by (elim conjE exE) (rule that, assumption+, simp_all add: Let_def departed_item_def running_clock_def)
  define sl where "sl = {p \<in> sleepSet (last (stateStack s)). keepsSleeping s1 t p}"
  have sub: "sl \<subseteq> sleepSet (last (stateStack s))" by (auto simp: sl_def)
  have "stateStack s \<noteq> []" by (rule ne)
  show ?thesis
  proof (rule that [OF ne en sub])
    show "s' = s\<lparr>stateStack := butlast (stateStack s) @
           [departed_item (getThreadId t) en (last (stateStack s)),
            (newStackItem (running_clock t s) (isReversibleInState (methods_of t)))\<lparr>sleepSet := sl\<rparr>],
         threadData := (threadData s)(getThreadId t :=
           setClockVector (running_clock t s) (threadData s (getThreadId t))),
         irreversibleStatesStack := (if isReversibleInState (methods_of t)
           then irreversibleStatesStack s else length (stateStack s) # irreversibleStatesStack s)\<rparr>"
      using rest ne
      by (cases "stateStack s" rule: rev_cases)
         (auto simp: s1 sl_def Let_def updateThreadData_def stateStackTop_def nat_1_plus
           MCSortedStack_push_def result_simps split: if_splits)
  qed
qed


lemma running_clock_eq:
  assumes "clocks_ok s"
  shows "running_clock t (s\<lparr>transitionStack := transitionStack s @ [u]\<rparr>) =
    set_component (trace.max_clock (transitionStack s) (map clockVector (tl (stateStack s))) t
      (length (transitionStack s))) (getThreadId t) (length (transitionStack s))"
proof -
  let ?s = "s\<lparr>transitionStack := transitionStack s @ [u]\<rparr>"
  let ?cs = "map clockVector (tl (stateStack s))"
  have len: "length (stateStack s) = Suc (length (transitionStack s))"
    using assms by (simp add: clocks_ok_def)
  have "transitionStackMaxClockVector t ?s =
      trace.max_clock (transitionStack s @ [u]) ?cs t (length (transitionStack s))"
    using maxClockVector_eq [of ?s "length (transitionStack s)" t] len by simp
  also have "\<dots> = trace.max_clock (transitionStack s) ?cs t (length (transitionStack s))"
    by (rule trace.max_clock_cong) (simp add: nth_append)
  finally show ?thesis by (simp add: running_clock_def transitionStackTop_def)
qed

lemma virtuallyRun_frame:
  assumes "virtuallyRunTransition t s = Inr s'"
  shows "transitionStack s' = transitionStack s" and "stateStack s' = stateStack s"
    and "irreversibleStatesStack s' = irreversibleStatesStack s"
    and "configuration s' = configuration s"
    and "td_clockVector (threadData s' p) = td_clockVector (threadData s p)"
    and "p \<noteq> getThreadId t \<Longrightarrow> threadData s' p = threadData s p"
    and "threadIdMap s \<subseteq>\<^sub>m threadIdMap s'"
  using assms
  by (auto simp: virtuallyRunTransition_def result_simps updateThreadDataR_def
      incrementThreadDepthIfNecessary_def updateThreadData_def push_execution_point
      incrementExecutionDepth_def same_search_def dest!: apply_frame split: if_splits)

lemma simulateRunningTransition_cases:
  assumes "simulateRunningTransition entry t handler s = Inr s'" and "frames_search handler"
  obtains en sl where "length (transitionStack s) < MC_STATE_CONFIG_MAX_TRANSITIONS_DEPTH_LIMIT_DEFAULT"
    and "stateStack s \<noteq> []" 
    and "sl \<subseteq> sleepSet (last (stateStack s))"
    and "transitionStack s' = transitionStack s @ [staticCopy (methods_of t)]"
    and "stateStack s' = butlast (stateStack s) @
           [departed_item (getThreadId t) en (last (stateStack s)),
            (newStackItem (running_clock t
               (s\<lparr>transitionStack := transitionStack s @ [staticCopy (methods_of t)]\<rparr>))
               (isReversibleInState (methods_of t)))\<lparr>sleepSet := sl\<rparr>]"
    and "\<And>p. td_clockVector (threadData s' p) = (if p = getThreadId t
           then running_clock t (s\<lparr>transitionStack := transitionStack s @ [staticCopy (methods_of t)]\<rparr>)
           else td_clockVector (threadData s p))"
    and "irreversibleStatesStack s' = (if isReversibleInState (methods_of t)
           then irreversibleStatesStack s else length (stateStack s) # irreversibleStatesStack s)"
    and "configuration s' = configuration s" and "finite en" and "threadIdMap s \<subseteq>\<^sub>m threadIdMap s'"
proof -
  define s1 where "s1 = s\<lparr>transitionStack := transitionStack s @ [staticCopy (methods_of t)]\<rparr>"
  from assms(1) obtain s2 s3 s4 nxt where
    cap: "length (transitionStack s) < MC_STATE_CONFIG_MAX_TRANSITIONS_DEPTH_LIMIT_DEFAULT"
    and s2: "growStateStackRunningTransition entry t s1 = Inr s2"
    and s3: "virtuallyRunTransition t s2 = Inr s3"
    and s4: "handler s3 = Inr (s4, nxt)"
    and s': "setNextTransitionForThread (getThreadId t) nxt s4 = Inr s'"
    by (auto simp: simulateRunningTransition_def growTransitionStackRunning_def result_simps s1_def)
  have frame: "same_search s3 s'"
    using assms(2) s4 same_search_trans [OF _ setNext_frame [OF s']] unfolding frames_search_def by blast
  from s2 show ?thesis
  proof (cases rule: growStateStackRunning_cases)
    case (1 en sl)
    show ?thesis
    proof (rule that [OF cap, of sl en])
      show "stateStack s \<noteq> []" "sl \<subseteq> sleepSet (last (stateStack s))"
        using 1(1,3) by (simp_all add: s1_def)
      show "transitionStack s' = transitionStack s @ [staticCopy (methods_of t)]"
        using frame virtuallyRun_frame(1) [OF s3] 1(4) by (simp add: same_search_def s1_def)
      show "stateStack s' = butlast (stateStack s) @
           [departed_item (getThreadId t) en (last (stateStack s)),
            (newStackItem (running_clock t
               (s\<lparr>transitionStack := transitionStack s @ [staticCopy (methods_of t)]\<rparr>))
               (isReversibleInState (methods_of t)))\<lparr>sleepSet := sl\<rparr>]"
        using frame virtuallyRun_frame(2) [OF s3] 1(4) by (simp add: same_search_def s1_def)
      show "td_clockVector (threadData s' p) = (if p = getThreadId t
           then running_clock t (s\<lparr>transitionStack := transitionStack s @ [staticCopy (methods_of t)]\<rparr>)
           else td_clockVector (threadData s p))" for p
        using frame virtuallyRun_frame(5) [OF s3, of p] 1(4)
        by (simp add: same_search_def s1_def setClockVector_def)
      show "irreversibleStatesStack s' = (if isReversibleInState (methods_of t)
           then irreversibleStatesStack s else length (stateStack s) # irreversibleStatesStack s)"
        using frame virtuallyRun_frame(3) [OF s3] 1(4) by (simp add: same_search_def s1_def)
      show "configuration s' = configuration s"
        using frame virtuallyRun_frame(4) [OF s3] 1(4) by (simp add: same_search_def s1_def)
      show "finite en" by (rule finite_enabled [OF 1(2)])
      show "threadIdMap s \<subseteq>\<^sub>m threadIdMap s'"
        using frame virtuallyRun_frame(7) [OF s3] 1(4) map_le_trans by (auto simp: same_search_def s1_def)
    qed
  qed
qed

lemma clocked_static:
  "trace.clocked (ts @ [t]) cs \<Longrightarrow> same_identity t u \<Longrightarrow> trace.clocked (ts @ [u]) cs"
proof -
  assume c: "trace.clocked (ts @ [t]) cs" and id: "same_identity t u"
  have "trace.max_clock (ts @ [u]) cs v n = trace.max_clock (ts @ [t]) cs w n"
    if "same_identity w v" "n \<le> length ts" for v w n
    using that(2)
  proof (induction n)
    case 0
    then show ?case by (simp add: trace.max_clock_def)
  next
    case (Suc n)
    then show ?case
      using same_identity_dependent [OF that(1)] by (simp add: trace.max_clock_Suc nth_append)
  qed
  note eq = this
  have refl: "same_identity x x" for x by (simp add: same_identity_def)
  show ?thesis
    using c eq [OF refl] eq [OF id] same_identity_thread [OF id]
    by (auto simp: trace.clocked_def less_Suc_eq nth_append)
qed

lemma clocks_ok_simulate:
  assumes "simulateRunningTransition entry t handler s = Inr s'" and "frames_search handler"
    and "clocks_ok s"
  shows "clocks_ok s'"
  using assms(1,2)
proof (cases rule: simulateRunningTransition_cases)
  case (1 en sl)
  let ?ts = "transitionStack s" and ?cs = "map clockVector (tl (stateStack s))"
  have cl: "trace.clocked ?ts ?cs" and len: "length (stateStack s) = Suc (length ?ts)"
    using assms(3) by (simp_all add: clocks_ok_def)
  have cs': "map clockVector (tl (stateStack s')) =
      ?cs @ [set_component (trace.max_clock ?ts ?cs t (length ?ts)) (getThreadId t) (length ?ts)]"
    using 1(5) running_clock_eq [OF assms(3)] 1(2)
    by (cases "stateStack s" rule: rev_cases; cases "butlast (stateStack s)")
       (auto simp: newStackItem_def)
  have "trace.clocked (?ts @ [t]) (map clockVector (tl (stateStack s')))"
    unfolding cs' by (rule trace.clocked_snoc [OF cl])
  then have "trace.clocked (transitionStack s') (map clockVector (tl (stateStack s')))"
    using clocked_static same_identity_staticCopy 1(4) by simp
  then show ?thesis
    using 1(4,5) len by (simp add: clocks_ok_def)
qed


section \<open>What the clock vectors mean\<close>

text \<open>The happens-before order of a trace, written out over the model.\<close>

definition trace_order :: "transition list \<Rightarrow> (nat \<times> nat) set" where
  "trace_order ts = {(a, b). a < b \<and> b < length ts \<and> dependentTransitions (ts ! a) (ts ! b)}"

lemma hb_trace_order: "trace.hb ts i j \<longleftrightarrow> (i, j) \<in> (trace_order ts)\<^sup>*"
  by (simp add: trace.hb_def trace.hb_step_def trace_order_def)

lemma happensBefore_clock:
  assumes "clocks_ok s" and "j < length (transitionStack s)"
  shows "happensBefore i j s \<longleftrightarrow>
    i \<le> clock_at (map clockVector (tl (stateStack s)) ! j) (getThreadId (transitionStack s ! i))"
  using assms
  by (simp add: happensBefore_def clock_at_def clockVectorForTransitionAtIndex_def clocks_ok_def nth_tl)

lemma happensBefore_hb:
  assumes "clocks_ok s" and "0 < i" and "i < length (transitionStack s)"
    and "j < length (transitionStack s)"
  shows "happensBefore i j s \<longleftrightarrow> (i, j) \<in> (trace_order (transitionStack s))\<^sup>*"
proof -
  have "trace.clocked (transitionStack s) (map clockVector (tl (stateStack s)))"
    using assms(1) by (simp add: clocks_ok_def)
  from trace.clock_decides_hb [OF this assms(4,2,3)] show ?thesis
    by (simp add: happensBefore_clock [OF assms(1,4)] hb_trace_order)
qed

text \<open>The last transition of a thread in a trace.\<close>

fun last_run :: "tid \<Rightarrow> transition list \<Rightarrow> nat \<Rightarrow> nat option" where
  "last_run p ts 0 = None"
| "last_run p ts (Suc n) = (if getThreadId (ts ! n) = p then Some n else last_run p ts n)"

lemma last_run_Some: "last_run p ts n = Some k \<Longrightarrow> k < n \<and> getThreadId (ts ! k) = p"
  by (induction n) (auto split: if_splits)

lemma last_run_append: "n \<le> length ts \<Longrightarrow> last_run p (ts @ us) n = last_run p ts n"
  by (induction n) (auto simp: nth_append)

text \<open>Every thread keeps the clock of its last transition.\<close>

definition thread_clocks_ok :: "mcstack \<Rightarrow> bool" where
  "thread_clocks_ok s \<longleftrightarrow> (\<forall>p. td_clockVector (threadData s p) =
     (case last_run p (transitionStack s) (length (transitionStack s)) of
        None \<Rightarrow> newEmptyClockVector | Some k \<Rightarrow> clockVectorForTransitionAtIndex k s))"

lemma thread_clocks_ok_simulate:
  assumes "simulateRunningTransition entry t handler s = Inr s'" and "frames_search handler"
    and "clocks_ok s" and "thread_clocks_ok s"
  shows "thread_clocks_ok s'"
  using assms(1,2)
proof (cases rule: simulateRunningTransition_cases)
  case (1 en sl)
  let ?n = "length (transitionStack s)"
  have len: "length (stateStack s) = Suc ?n" using assms(3) by (simp add: clocks_ok_def)
  have last: "clockVectorForTransitionAtIndex ?n s' =
      running_clock t (s\<lparr>transitionStack := transitionStack s @ [staticCopy (methods_of t)]\<rparr>)"
    using 1(5) len by (simp add: clockVectorForTransitionAtIndex_def nth_append newStackItem_def)
  have old: "clockVectorForTransitionAtIndex k s' = clockVectorForTransitionAtIndex k s"
    if "k < ?n" for k
    using that 1(5) len
    by (cases "stateStack s" rule: rev_cases)
       (auto simp: clockVectorForTransitionAtIndex_def nth_append nth_Cons' less_Suc_eq)
  show ?thesis
    unfolding thread_clocks_ok_def
  proof
    fix p
    have lr: "last_run p (transitionStack s') (length (transitionStack s')) =
        (if p = getThreadId t then Some ?n else last_run p (transitionStack s) ?n)"
      using 1(4) by (auto simp: last_run_append)
    show "td_clockVector (threadData s' p) =
        (case last_run p (transitionStack s') (length (transitionStack s')) of
          None \<Rightarrow> newEmptyClockVector | Some k \<Rightarrow> clockVectorForTransitionAtIndex k s')"
      unfolding lr 1(6)
      using assms(4) last old last_run_Some [of p "transitionStack s" ?n]
      by (auto simp: thread_clocks_ok_def split: option.splits)
  qed
qed

lemma happensBeforeThread_hb:
  assumes "clocks_ok s" and "thread_clocks_ok s" and "0 < i" and "i < length (transitionStack s)"
  shows "happensBeforeThread i p s \<longleftrightarrow>
    (\<exists>k. last_run p (transitionStack s) (length (transitionStack s)) = Some k
       \<and> (i, k) \<in> (trace_order (transitionStack s))\<^sup>*)"
proof (cases "last_run p (transitionStack s) (length (transitionStack s))")
  case None
  then show ?thesis
    using assms(2,3) by (auto simp: happensBeforeThread_def thread_clocks_ok_def valueForThread_empty)
next
  case (Some k)
  then have "td_clockVector (threadData s p) = clockVectorForTransitionAtIndex k s"
    using assms(2) by (simp add: thread_clocks_ok_def)
  then have "happensBeforeThread i p s \<longleftrightarrow> happensBefore i k s"
    by (simp add: happensBeforeThread_def happensBefore_def)
  then show ?thesis
    using happensBefore_hb [OF assms(1,3,4)] last_run_Some [OF Some] Some by simp
qed

text \<open>An absent component reads as 0, so the first transition is before every other.\<close>

lemma happensBefore_first: "happensBefore 0 j s"
  by (simp add: happensBefore_def)

section \<open>The other invariants of a step\<close>

definition items_ok :: "mcstack \<Rightarrow> bool" where
  "items_ok s \<longleftrightarrow> (\<forall>it \<in> set (stateStack s). item_wf it)"

lemma items_ok_simulate:
  assumes "simulateRunningTransition entry t handler s = Inr s'" and "frames_search handler"
    and "items_ok s"
  shows "items_ok s'"
  using assms(1,2)
proof (cases rule: simulateRunningTransition_cases)
  case (1 en sl)
  have "item_wf (last (stateStack s))" using assms(3) 1(2) by (simp add: items_ok_def)
  moreover have "\<forall>it \<in> set (butlast (stateStack s)). item_wf it"
    using assms(3) by (auto simp: items_ok_def dest: in_set_butlastD)
  ultimately show ?thesis
    using 1(5,9) item_wf_departed by (auto simp: items_ok_def newStackItem_def item_wf_def)
qed

text \<open>The irreversible stack lists, from the top, the states no transition can be taken back from.\<close>

definition irreversible_ok :: "mcstack \<Rightarrow> bool" where
  "irreversible_ok s \<longleftrightarrow> length (stateStack s) = Suc (length (transitionStack s)) \<and>
     irreversibleStatesStack s = rev (map Suc (filter
       (\<lambda>k. \<not> isReversibleInState (methods_of (transitionStack s ! k)))
       [0..<length (transitionStack s)]))"

lemma isReversible_staticCopy [simp]:
  "isReversibleInState (methods_of (staticCopy (methods_of t))) = isReversibleInState (methods_of t)"
  by (simp add: methods_of_def mutex_dispatch_def class_methods
      split: transition.splits transition_op_splits)

lemma irreversible_ok_simulate:
  assumes "simulateRunningTransition entry t handler s = Inr s'" and "frames_search handler"
    and "irreversible_ok s"
  shows "irreversible_ok s'"
  using assms(1,2)
proof (cases rule: simulateRunningTransition_cases)
  case (1 en sl)
  let ?ts = "transitionStack s" and ?n = "length (transitionStack s)"
  have "filter (\<lambda>k. \<not> isReversibleInState (methods_of ((?ts @ [staticCopy (methods_of t)]) ! k))) [0..<?n] =
      filter (\<lambda>k. \<not> isReversibleInState (methods_of (?ts ! k))) [0..<?n]"
    by (rule filter_cong) (auto simp: nth_append)
  then show ?thesis
    using 1(4,5,7) assms(3) by (auto simp: irreversible_ok_def nth_append)
qed

lemma irreversible_sorted: "irreversible_ok s \<Longrightarrow> sorted_stack (irreversibleStatesStack s)"
proof -
  assume "irreversible_ok s"
  moreover have "sorted_wrt (\<le>) (map Suc (filter P [0..<n]))" for P n
    by (simp add: sorted_wrt_map sorted_wrt_filter sorted_wrt_upt strict_sorted_imp_sorted
        flip: strict_sorted_iff)
  ultimately show ?thesis
    by (simp add: irreversible_ok_def sorted_stack_def sorted_wrt_rev)
qed

end
