(* ===== verification/Backtracking.thy ===== *)
theory Backtracking
  imports HappensBefore
begin

text \<open>
  \<^verbatim>\<open>MCStack::dynamicallyUpdateBacktrackSets\<close> and its helper (\<^verbatim>\<open>src/MCStack.cpp\<close>): the DPOR step
  that looks for races between the trace and what the threads will do next.

  C++ leaves the iteration order of an \<^verbatim>\<open>unordered_set\<close> open, and the result depends on it
  (\<^verbatim>\<open>*E.begin()\<close>, and the order in which the threads are visited).  The order is the parameter
  \<open>iter\<close>: the elements of a finite set in the order the container enumerates them
  (\<open>iteration_order\<close>).
\<close>

type_synonym iteration = "tid set \<Rightarrow> tid list"

definition iteration_order :: "iteration \<Rightarrow> bool" where
  "iteration_order iter \<longleftrightarrow> (\<forall>S. finite S \<longrightarrow> set (iter S) = S \<and> distinct (iter S))"

definition updateStateItem :: "nat \<Rightarrow> (stack_item \<Rightarrow> stack_item) \<Rightarrow> mcstack \<Rightarrow> mcstack" where
  "updateStateItem i f s = s\<lparr>stateStack := (stateStack s)[i := f (stateStack s ! i)]\<rparr>"

text \<open>The race test of the helper, and the set \<open>E\<close> of the DPOR pseudocode.\<close>

definition shouldProcess :: "mcstack \<Rightarrow> transition \<Rightarrow> nat \<Rightarrow> tid \<Rightarrow> bool" where
  "shouldProcess s nextSP i p \<longleftrightarrow>
     dependentTransitions (transitionStack s ! i) nextSP \<and>
     coenabledTransitions (transitionStack s ! i) nextSP \<and>
     \<not> happensBeforeThread i p s"

definition candidates :: "mcstack \<Rightarrow> nat \<Rightarrow> tid \<Rightarrow> tid set" where
  "candidates s i p = {q \<in> enabledThreads (stateStack s ! i).
     (q = p \<or> threadsRaceAfterDepth i q p s) \<and> \<not> threadIsInSleepSet q (stateStack s ! i)}"

definition dynamicallyUpdateBacktrackSetsHelper ::
  "iteration \<Rightarrow> transition \<Rightarrow> nat \<Rightarrow> tid \<Rightarrow> mcstack \<Rightarrow> bool \<times> mcstack" where
  "dynamicallyUpdateBacktrackSetsHelper iter nextSP i p s =
     (if shouldProcess s nextSP i p then
        let E = candidates s i p; preSi = stateStack s ! i in
        if E = {} then
          (True, updateStateItem i
             (fold addBacktrackingThreadIfUnsearched
               (filter (\<lambda>q. \<not> threadIsInSleepSet q preSi) (iter (enabledThreads preSi)))) s)
        else if \<exists>q \<in> E. isBacktrackingOnThread q preSi then (True, s)
        else (True, updateStateItem i (addBacktrackingThreadIfUnsearched (hd (iter E))) s)
      else (False, s))"

text \<open>The loop over the trace below its top, from the top down; it stops at the first race.\<close>

fun backtrackDownLoop :: "iteration \<Rightarrow> transition \<Rightarrow> tid \<Rightarrow> nat \<Rightarrow> mcstack \<Rightarrow> mcstack" where
  "backtrackDownLoop iter nextSP p 0 s = s"
| "backtrackDownLoop iter nextSP p (Suc i) s =
     (case dynamicallyUpdateBacktrackSetsHelper iter nextSP i p s of
        (shouldStop, s') \<Rightarrow> if shouldStop then s' else backtrackDownLoop iter nextSP p i s')"

definition dynamicallyUpdateBacktrackSets :: "iteration \<Rightarrow> mcstack \<Rightarrow> mcstack result" where
  "dynamicallyUpdateBacktrackSets iter s =
     guardR OutOfBounds (transitionStack s \<noteq> [])
     (let top = length (transitionStack s) - 1;
          mostRecentThreadId = getThreadId (last (transitionStack s));
          thread_ids = {0..<getNumProgramThreads s} - {mostRecentThreadId} in
      bindR (getNextTransitionForThread s mostRecentThreadId) (\<lambda>nextForMostRecent.
      bindR (foldR (\<lambda>t s'. bindR (getNextTransitionForThread s' t) (\<lambda>nextSP.
               Inr (snd (dynamicallyUpdateBacktrackSetsHelper iter nextSP top t s'))))
               (iter thread_ids) s) (\<lambda>s1.
        Inr (backtrackDownLoop iter nextForMostRecent mostRecentThreadId top s1))))"

section \<open>What a backtrack point is\<close>

lemma iter_set: "iteration_order iter \<Longrightarrow> finite S \<Longrightarrow> set (iter S) = S"
  by (simp add: iteration_order_def)

lemma iter_hd: "iteration_order iter \<Longrightarrow> finite S \<Longrightarrow> S \<noteq> {} \<Longrightarrow> hd (iter S) \<in> S"
  by (metis hd_in_set iter_set set_empty)

lemma fold_add_backtracking:
  "fold addBacktrackingThreadIfUnsearched qs it =
     it\<lparr>backtrackSet := backtrackSet it \<union> {q \<in> set qs. q \<notin> doneSet it}\<rparr>"
proof (induction qs arbitrary: it)
  case Nil
  then show ?case by simp
next
  case (Cons q qs)
  have "{q' \<in> set (q # qs). q' \<notin> doneSet it} =
      (if q \<in> doneSet it then {} else {q}) \<union> {q' \<in> set qs. q' \<notin> doneSet it}" by auto
  then show ?case
    using Cons.IH by (auto simp: addBacktrackingThreadIfUnsearched_def)
qed

text \<open>The helper changes one item, and only its backtrack set.\<close>

definition addedBacktracking :: "iteration \<Rightarrow> mcstack \<Rightarrow> nat \<Rightarrow> tid \<Rightarrow> tid set" where
  "addedBacktracking iter s i p =
     (let it = stateStack s ! i; E = candidates s i p in
      (if E = {} then {q \<in> enabledThreads it. \<not> threadIsInSleepSet q it}
       else if \<exists>q \<in> E. isBacktrackingOnThread q it then {} else {hd (iter E)}) - doneSet it)"

lemma helper_spec:
  assumes "iteration_order iter" and "finite (enabledThreads (stateStack s ! i))"
  shows "dynamicallyUpdateBacktrackSetsHelper iter nextSP i p s =
    (shouldProcess s nextSP i p,
     if shouldProcess s nextSP i p
     then updateStateItem i (\<lambda>it. it\<lparr>backtrackSet := backtrackSet it \<union> addedBacktracking iter s i p\<rparr>) s
     else s)"
proof (cases "shouldProcess s nextSP i p")
  case False
  then show ?thesis by (simp add: dynamicallyUpdateBacktrackSetsHelper_def)
next
  case True
  let ?it = "stateStack s ! i" and ?E = "candidates s i p"
  have upd: "updateStateItem i f s = updateStateItem i g s" if "f ?it = g ?it" for f g
    using that by (simp add: updateStateItem_def)
  consider "?E = {}" | "?E \<noteq> {}" "\<exists>q \<in> ?E. isBacktrackingOnThread q ?it"
    | "?E \<noteq> {}" "\<not> (\<exists>q \<in> ?E. isBacktrackingOnThread q ?it)" by blast
  then show ?thesis
  proof cases
    case 1
    have "{q \<in> set (filter (\<lambda>q. \<not> threadIsInSleepSet q ?it) (iter (enabledThreads ?it))). q \<notin> doneSet ?it}
        = {q \<in> enabledThreads ?it. \<not> threadIsInSleepSet q ?it} - doneSet ?it"
      using iter_set [OF assms] by auto
    then show ?thesis
      using True 1
      by (simp add: dynamicallyUpdateBacktrackSetsHelper_def addedBacktracking_def Let_def
          fold_add_backtracking cong: if_cong)
        (intro upd, simp add: fold_add_backtracking)
  next
    case 2
    then have "addedBacktracking iter s i p = {}" by (simp add: addedBacktracking_def Let_def)
    then show ?thesis
      using True 2 by (simp add: dynamicallyUpdateBacktrackSetsHelper_def Let_def updateStateItem_def)
  next
    case 3
    then have "addedBacktracking iter s i p = {hd (iter ?E)} - doneSet ?it"
      by (simp add: addedBacktracking_def Let_def)
    moreover have "addBacktrackingThreadIfUnsearched (hd (iter ?E)) ?it =
        ?it\<lparr>backtrackSet := backtrackSet ?it \<union> ({hd (iter ?E)} - doneSet ?it)\<rparr>"
      by (auto simp: addBacktrackingThreadIfUnsearched_def insert_Diff_if)
    ultimately show ?thesis
      using True 3 by (simp add: dynamicallyUpdateBacktrackSetsHelper_def Let_def) (intro upd, simp)
  qed
qed


lemma candidates_enabled: "candidates s i p \<subseteq> enabledThreads (stateStack s ! i)"
  by (auto simp: candidates_def)

text \<open>Only threads that were enabled there, have not run from there and are not asleep are added.\<close>

lemma added_sound:
  assumes "iteration_order iter" and "finite (enabledThreads (stateStack s ! i))"
  shows "addedBacktracking iter s i p \<subseteq>
    enabledThreads (stateStack s ! i) - sleepSet (stateStack s ! i) - doneSet (stateStack s ! i)"
proof -
  have fin: "finite (candidates s i p)"
    by (rule finite_subset [OF candidates_enabled assms(2)])
  have awake: "candidates s i p \<subseteq> enabledThreads (stateStack s ! i) - sleepSet (stateStack s ! i)"
    by (auto simp: candidates_def threadIsInSleepSet_def)
  show ?thesis
  proof (cases "candidates s i p = {}")
    case True
    then show ?thesis by (auto simp: addedBacktracking_def Let_def threadIsInSleepSet_def)
  next
    case False
    then have "hd (iter (candidates s i p)) \<in> candidates s i p"
      using iter_hd [OF assms(1) fin] by blast
    moreover have "addedBacktracking iter s i p \<subseteq> {hd (iter (candidates s i p))} - doneSet (stateStack s ! i)"
      using False by (simp add: addedBacktracking_def Let_def)
    ultimately show ?thesis using awake by blast
  qed
qed

text \<open>
  At a race where the other thread was enabled and is neither asleep nor searched, the state is
  scheduled to try a thread of \<open>E\<close>.
\<close>

lemma race_gets_candidate:
  assumes "iteration_order iter" and "finite (enabledThreads (stateStack s ! i))"
    and "shouldProcess s nextSP i p" and "candidates s i p \<noteq> {}"
    and "doneSet (stateStack s ! i) \<subseteq> sleepSet (stateStack s ! i)"
    and "i < length (stateStack s)"
  shows "\<exists>q \<in> candidates s i p. q \<in> backtrackSet
    (stateStack (snd (dynamicallyUpdateBacktrackSetsHelper iter nextSP i p s)) ! i)"
proof -
  have fin: "finite (candidates s i p)"
    by (rule finite_subset [OF candidates_enabled assms(2)])
  have hd: "hd (iter (candidates s i p)) \<in> candidates s i p"
    using iter_hd [OF assms(1) fin assms(4)] .
  have "hd (iter (candidates s i p)) \<notin> doneSet (stateStack s ! i)"
    using hd assms(5) by (auto simp: candidates_def threadIsInSleepSet_def)
  then have "(\<exists>q \<in> candidates s i p. q \<in> backtrackSet (stateStack s ! i))
      \<or> hd (iter (candidates s i p)) \<in> addedBacktracking iter s i p"
    using assms(4) by (simp add: addedBacktracking_def Let_def isBacktrackingOnThread_def)
  then show ?thesis
    using hd assms(3,6) unfolding helper_spec [OF assms(1,2)] updateStateItem_def by auto
qed

lemma no_candidate_gets_all:
  assumes "iteration_order iter" and "finite (enabledThreads (stateStack s ! i))"
    and "shouldProcess s nextSP i p" and "candidates s i p = {}" and "i < length (stateStack s)"
  shows "enabledThreads (stateStack s ! i) - sleepSet (stateStack s ! i) - doneSet (stateStack s ! i)
    \<subseteq> backtrackSet (stateStack (snd (dynamicallyUpdateBacktrackSetsHelper iter nextSP i p s)) ! i)"
  using assms by (auto simp: helper_spec [OF assms(1,2)] updateStateItem_def addedBacktracking_def
      Let_def threadIsInSleepSet_def)

section \<open>The frame of the update\<close>

text \<open>Two stacks that differ in the backtrack sets of their items only.\<close>

definition same_but_backtracking :: "mcstack \<Rightarrow> mcstack \<Rightarrow> bool" where
  "same_but_backtracking s s' \<longleftrightarrow> (\<exists>items. s' = s\<lparr>stateStack := items\<rparr>
     \<and> map (backtrackSet_update (\<lambda>_. {})) items = map (backtrackSet_update (\<lambda>_. {})) (stateStack s))"

lemma same_but_backtracking_refl [intro]: "same_but_backtracking s s"
  unfolding same_but_backtracking_def by (rule exI [of _ "stateStack s"]) simp

lemma same_but_backtracking_trans:
  "same_but_backtracking s s' \<Longrightarrow> same_but_backtracking s' s'' \<Longrightarrow> same_but_backtracking s s''"
  by (auto simp: same_but_backtracking_def)

lemma same_but_backtracking_item:
  assumes "same_but_backtracking s s'" and "i < length (stateStack s)"
  shows "length (stateStack s') = length (stateStack s)"
    and "\<exists>B. stateStack s' ! i = (stateStack s ! i)\<lparr>backtrackSet := B\<rparr>"
proof -
  from assms(1) obtain items where s': "s' = s\<lparr>stateStack := items\<rparr>"
    and m: "map (backtrackSet_update (\<lambda>_. {})) items = map (backtrackSet_update (\<lambda>_. {})) (stateStack s)"
    by (auto simp: same_but_backtracking_def)
  have len: "length items = length (stateStack s)" using m by (metis length_map)
  then show "length (stateStack s') = length (stateStack s)" by (simp add: s')
  have "(items ! i)\<lparr>backtrackSet := {}\<rparr> = (stateStack s ! i)\<lparr>backtrackSet := {}\<rparr>"
    using arg_cong [OF m, of "\<lambda>l. l ! i"] len assms(2) by simp
  then have "stateStack s' ! i = (stateStack s ! i)\<lparr>backtrackSet := backtrackSet (items ! i)\<rparr>"
    by (cases "items ! i"; cases "stateStack s ! i") (simp add: s')
  then show "\<exists>B. stateStack s' ! i = (stateStack s ! i)\<lparr>backtrackSet := B\<rparr>" ..
qed

lemma helper_frame:
  assumes "iteration_order iter" and "finite (enabledThreads (stateStack s ! i))"
  shows "same_but_backtracking s (snd (dynamicallyUpdateBacktrackSetsHelper iter nextSP i p s))"
proof -
  have "map (backtrackSet_update (\<lambda>_. {})) ((stateStack s)[i := (stateStack s ! i)\<lparr>backtrackSet := B\<rparr>])
      = map (backtrackSet_update (\<lambda>_. {})) (stateStack s)" for B
    by (cases "i < length (stateStack s)")
       (simp_all add: map_update list_update_same_conv list_update_beyond)
  then show ?thesis
    by (auto simp: helper_spec [OF assms] updateStateItem_def same_but_backtracking_def
        intro: same_but_backtracking_refl exI [of _ "stateStack s"])
qed

lemma helper_other_items:
  assumes "iteration_order iter" and "finite (enabledThreads (stateStack s ! i))" and "j \<noteq> i"
  shows "stateStack (snd (dynamicallyUpdateBacktrackSetsHelper iter nextSP i p s)) ! j = stateStack s ! j"
  using assms(3) by (simp add: helper_spec [OF assms(1,2)] updateStateItem_def)

text \<open>The downward loop acts at the highest race below its start, and nowhere else.\<close>

lemma backtrackDownLoop_none:
  assumes "iteration_order iter" and "\<forall>i < n. finite (enabledThreads (stateStack s ! i))"
    and "\<forall>i < n. \<not> shouldProcess s nextSP i p"
  shows "backtrackDownLoop iter nextSP p n s = s"
  using assms by (induction n) (simp_all add: helper_spec)

lemma backtrackDownLoop_highest:
  assumes "iteration_order iter" and "\<forall>i < n. finite (enabledThreads (stateStack s ! i))"
    and "i < n" and "shouldProcess s nextSP i p"
    and "\<forall>j. i < j \<and> j < n \<longrightarrow> \<not> shouldProcess s nextSP j p"
  shows "backtrackDownLoop iter nextSP p n s =
    snd (dynamicallyUpdateBacktrackSetsHelper iter nextSP i p s)"
  using assms
proof (induction n)
  case 0
  then show ?case by simp
next
  case (Suc n)
  show ?case
  proof (cases "i = n")
    case True
    then show ?thesis using Suc.prems by (simp add: helper_spec)
  next
    case False
    then have "\<not> shouldProcess s nextSP n p" "i < n" using Suc.prems by auto
    then show ?thesis using Suc by (simp add: helper_spec)
  qed
qed

section \<open>The invariants of the update\<close>

text \<open>The update keeps well-formed items, and schedules nothing at the first state.\<close>

definition only_backtracking :: "mcstack \<Rightarrow> mcstack \<Rightarrow> bool" where
  "only_backtracking s s' \<longleftrightarrow> same_but_backtracking s s' \<and> items_ok s'
     \<and> backtrackSet (stateStack s' ! 0) = backtrackSet (stateStack s ! 0)
     \<and> (\<forall>j < length (stateStack s). backtrackSet (stateStack s ! j) \<subseteq> backtrackSet (stateStack s' ! j))"

lemma only_backtracking_length:
  "only_backtracking s s' \<Longrightarrow> length (stateStack s') = length (stateStack s)"
  by (auto simp: only_backtracking_def same_but_backtracking_def dest: arg_cong [of _ _ length])

lemma only_backtracking_trans:
  assumes "only_backtracking s s'" and "only_backtracking s' s''"
  shows "only_backtracking s s''"
  using assms same_but_backtracking_trans only_backtracking_length [OF assms(1)]
  by (fastforce simp: only_backtracking_def)

lemma only_backtracking_refl: "items_ok s \<Longrightarrow> only_backtracking s s"
  by (auto simp: only_backtracking_def)

lemma no_race_with_the_start: "\<not> shouldProcess s nextSP 0 p"
  by (simp add: shouldProcess_def happensBeforeThread_def)

lemma helper_only_backtracking:
  assumes "iteration_order iter" and "items_ok s" and "i < length (stateStack s)"
  shows "only_backtracking s (snd (dynamicallyUpdateBacktrackSetsHelper iter nextSP i p s))"
proof -
  let ?it = "stateStack s ! i"
  have wf: "item_wf ?it" using assms(2,3) by (simp add: items_ok_def)
  then have fin: "finite (enabledThreads ?it)" by (simp add: item_wf_def)
  let ?new = "?it\<lparr>backtrackSet := backtrackSet ?it \<union> addedBacktracking iter s i p\<rparr>"
  have "item_wf ?new"
    using wf added_sound [OF assms(1) fin, of p] by (auto simp: item_wf_def)
  then have "items_ok (snd (dynamicallyUpdateBacktrackSetsHelper iter nextSP i p s))"
    using assms(2) set_update_subset_insert [of "stateStack s" i ?new]
    by (auto simp: helper_spec [OF assms(1) fin] updateStateItem_def items_ok_def)
  moreover have "backtrackSet (stateStack (snd (dynamicallyUpdateBacktrackSetsHelper iter nextSP i p s)) ! 0)
      = backtrackSet (stateStack s ! 0)"
    using no_race_with_the_start [of s nextSP p] fin
    by (cases "i = 0") (simp_all add: helper_spec [OF assms(1)] updateStateItem_def)
  moreover have "\<forall>j < length (stateStack s). backtrackSet (stateStack s ! j) \<subseteq> backtrackSet
      (stateStack (snd (dynamicallyUpdateBacktrackSetsHelper iter nextSP i p s)) ! j)"
    using assms(3) by (auto simp: helper_spec [OF assms(1) fin] updateStateItem_def nth_list_update)
  ultimately show ?thesis
    using helper_frame [OF assms(1) fin] by (simp add: only_backtracking_def)
qed

lemma backtrackDownLoop_only_backtracking:
  assumes "iteration_order iter" and "items_ok s" and "n \<le> length (stateStack s)"
  shows "only_backtracking s (backtrackDownLoop iter nextSP p n s)"
  using assms(2,3)
proof (induction n arbitrary: s)
  case 0
  then show ?case by (simp add: only_backtracking_refl)
next
  case (Suc n)
  let ?s = "snd (dynamicallyUpdateBacktrackSetsHelper iter nextSP n p s)"
  have step: "only_backtracking s ?s"
    using helper_only_backtracking [OF assms(1) Suc.prems(1)] Suc.prems(2) by simp
  then have "only_backtracking ?s (backtrackDownLoop iter nextSP p n ?s)"
    using Suc.IH [of ?s] Suc.prems(2) only_backtracking_length [OF step]
    by (simp add: only_backtracking_def)
  then show ?case
    using step only_backtracking_trans by (auto split: prod.splits)
qed

lemma update_first_loop:
  assumes "foldR (\<lambda>t s'. bindR (getNextTransitionForThread s' t) (\<lambda>nextSP.
        Inr (snd (dynamicallyUpdateBacktrackSetsHelper iter nextSP n t s')))) ts s = Inr s1"
    and "iteration_order iter" and "items_ok s" and "n < length (stateStack s)"
  shows "only_backtracking s s1"
proof (rule foldR_invariant [OF assms(1), where P = "only_backtracking s"])
  show "only_backtracking s s" by (rule only_backtracking_refl [OF assms(3)])
next
  fix t u u'
  assume u: "only_backtracking s u" and "bindR (getNextTransitionForThread u t) (\<lambda>nextSP.
        Inr (snd (dynamicallyUpdateBacktrackSetsHelper iter nextSP n t u))) = Inr u'"
  then obtain x where "u' = snd (dynamicallyUpdateBacktrackSetsHelper iter x n t u)"
    by (auto simp: result_simps)
  moreover have "items_ok u" "n < length (stateStack u)"
    using u assms(4) only_backtracking_length [OF u] by (simp_all add: only_backtracking_def)
  ultimately show "only_backtracking s u'"
    using helper_only_backtracking [OF assms(2)] only_backtracking_trans [OF u] by blast
qed

lemma update_only_backtracking:
  assumes "dynamicallyUpdateBacktrackSets iter s = Inr s'" and "iteration_order iter"
    and "items_ok s" and "length (transitionStack s) \<le> length (stateStack s)"
  shows "only_backtracking s s'"
proof -
  let ?top = "length (transitionStack s) - 1"
  let ?p = "getThreadId (last (transitionStack s))"
  from assms(1) obtain nxt s1 where ne: "transitionStack s \<noteq> []"
    and s1: "foldR (\<lambda>t s'. bindR (getNextTransitionForThread s' t) (\<lambda>nextSP.
        Inr (snd (dynamicallyUpdateBacktrackSetsHelper iter nextSP ?top t s'))))
        (iter ({0..<getNumProgramThreads s} - {?p})) s = Inr s1"
    and s': "s' = backtrackDownLoop iter nxt ?p ?top s1"
    by (auto simp: dynamicallyUpdateBacktrackSets_def Let_def result_simps)
  have top: "?top < length (stateStack s)" using ne assms(4) by (cases "transitionStack s") auto
  have "only_backtracking s s1" by (rule update_first_loop [OF s1 assms(2,3) top])
  moreover from this have "only_backtracking s1 s'"
    unfolding s' using backtrackDownLoop_only_backtracking [OF assms(2), of s1 ?top] top
      only_backtracking_length [of s s1] by (simp add: only_backtracking_def)
  ultimately show ?thesis by (rule only_backtracking_trans)
qed

text \<open>Whatever does not look at backtrack sets is unchanged.\<close>

lemma same_but_backtracking_fields:
  assumes "same_but_backtracking s s'"
  shows "transitionStack s' = transitionStack s" and "threadData s' = threadData s"
    and "irreversibleStatesStack s' = irreversibleStatesStack s"
    and "configuration s' = configuration s" and "objectStorage s' = objectStorage s"
    and "nextThreadId s' = nextThreadId s" and "nextTransitions s' = nextTransitions s"
    and "threadIdMap s' = threadIdMap s"
    and "map clockVector (stateStack s') = map clockVector (stateStack s)"
    and "map doneSet (stateStack s') = map doneSet (stateStack s)"
    and "map sleepSet (stateStack s') = map sleepSet (stateStack s)"
proof -
  from assms obtain items where s': "s' = s\<lparr>stateStack := items\<rparr>"
    and m: "map (backtrackSet_update (\<lambda>_. {})) items = map (backtrackSet_update (\<lambda>_. {})) (stateStack s)"
    by (auto simp: same_but_backtracking_def)
  show "transitionStack s' = transitionStack s" "threadData s' = threadData s"
    "irreversibleStatesStack s' = irreversibleStatesStack s"
    "configuration s' = configuration s" "objectStorage s' = objectStorage s"
    "nextThreadId s' = nextThreadId s" "nextTransitions s' = nextTransitions s"
    "threadIdMap s' = threadIdMap s"
    by (simp_all add: s')
  show "map clockVector (stateStack s') = map clockVector (stateStack s)"
    using arg_cong [OF m, of "map clockVector"] by (simp add: s' o_def)
  show "map doneSet (stateStack s') = map doneSet (stateStack s)"
    using arg_cong [OF m, of "map doneSet"] by (simp add: s' o_def)
  show "map sleepSet (stateStack s') = map sleepSet (stateStack s)"
    using arg_cong [OF m, of "map sleepSet"] by (simp add: s' o_def)
qed

lemma invariants_same_but_backtracking:
  assumes "same_but_backtracking s s'"
  shows "clocks_ok s' = clocks_ok s" and "irreversible_ok s' = irreversible_ok s"
proof -
  note f = same_but_backtracking_fields [OF assms]
  have len: "length (stateStack s') = length (stateStack s)" using f(9) by (metis length_map)
  show "clocks_ok s' = clocks_ok s"
    using f(1,9) len by (simp add: clocks_ok_def map_tl)
  show "irreversible_ok s' = irreversible_ok s"
    using f(1,3) len by (simp add: irreversible_ok_def)
qed

section \<open>The update as a whole\<close>

text \<open>The race test and the candidates read nothing the update writes.\<close>

lemma race_test_same_but_backtracking:
  assumes "same_but_backtracking s s'" and "i < length (stateStack s)"
  shows "shouldProcess s' nextSP i p = shouldProcess s nextSP i p"
    and "candidates s' i p = candidates s i p"
    and "doneSet (stateStack s' ! i) = doneSet (stateStack s ! i)"
    and "sleepSet (stateStack s' ! i) = sleepSet (stateStack s ! i)"
    and "enabledThreads (stateStack s' ! i) = enabledThreads (stateStack s ! i)"
    and "getNextTransitionForThread s' p = getNextTransitionForThread s p"
proof -
  from assms(1) obtain items where s': "s' = s\<lparr>stateStack := items\<rparr>"
    and m: "map (backtrackSet_update (\<lambda>_. {})) items = map (backtrackSet_update (\<lambda>_. {})) (stateStack s)"
    by (auto simp: same_but_backtracking_def)
  obtain B where B: "stateStack s' ! i = (stateStack s ! i)\<lparr>backtrackSet := B\<rparr>"
    using same_but_backtracking_item [OF assms] by blast
  then show "doneSet (stateStack s' ! i) = doneSet (stateStack s ! i)"
    "sleepSet (stateStack s' ! i) = sleepSet (stateStack s ! i)"
    "enabledThreads (stateStack s' ! i) = enabledThreads (stateStack s ! i)"
    by simp_all
  show "shouldProcess s' nextSP i p = shouldProcess s nextSP i p"
    by (simp add: s' shouldProcess_def happensBeforeThread_def)
  have "happensBeforeThread k q s' = happensBeforeThread k q s" for k q
    by (simp add: s' happensBeforeThread_def)
  then show "candidates s' i p = candidates s i p"
    using B by (simp add: candidates_def threadsRaceAfterDepth_def s' threadIsInSleepSet_def)
  have "getThreadWithId s' = getThreadWithId s"
    by (intro ext) (simp add: s' getThreadWithId_def cong: option.case_cong)
  then show "getNextTransitionForThread s' p = getNextTransitionForThread s p"
    by (simp add: s' getNextTransitionForThread_def cong: option.case_cong)
qed

text \<open>A race of \<open>p\<close> with the transition at \<open>i\<close> is scheduled for.\<close>

definition race_scheduled :: "mcstack \<Rightarrow> mcstack \<Rightarrow> nat \<Rightarrow> tid \<Rightarrow> bool" where
  "race_scheduled s s' i p \<longleftrightarrow>
     (if candidates s i p = {}
      then enabledThreads (stateStack s ! i) - sleepSet (stateStack s ! i) - doneSet (stateStack s ! i)
        \<subseteq> backtrackSet (stateStack s' ! i)
      else \<exists>q \<in> candidates s i p. q \<in> backtrackSet (stateStack s' ! i))"

lemma helper_schedules:
  assumes "iteration_order iter" and "only_backtracking s u" and "i < length (stateStack s)"
    and "doneSet (stateStack s ! i) \<subseteq> sleepSet (stateStack s ! i)" and "shouldProcess s nextSP i p"
    and "only_backtracking (snd (dynamicallyUpdateBacktrackSetsHelper iter nextSP i p u)) s'"
  shows "race_scheduled s s' i p"
proof -
  let ?u = "snd (dynamicallyUpdateBacktrackSetsHelper iter nextSP i p u)"
  have same: "same_but_backtracking s u" and ok: "items_ok u"
    using assms(2) by (simp_all add: only_backtracking_def)
  note eq = race_test_same_but_backtracking [OF same assms(3)]
  have i: "i < length (stateStack u)" using assms(3) only_backtracking_length [OF assms(2)] by simp
  then have fin: "finite (enabledThreads (stateStack u ! i))"
    using ok by (simp add: items_ok_def item_wf_def)
  have "length (stateStack ?u) = length (stateStack u)"
    by (rule only_backtracking_length [OF helper_only_backtracking [OF assms(1) ok i]])
  then have sub: "backtrackSet (stateStack ?u ! i) \<subseteq> backtrackSet (stateStack s' ! i)"
    using assms(6) i by (simp add: only_backtracking_def)
  show ?thesis
    using race_gets_candidate [OF assms(1) fin, of nextSP p] no_candidate_gets_all [OF assms(1) fin, of nextSP p]
      assms(4,5) i sub unfolding race_scheduled_def by (auto simp: eq)
qed

text \<open>
  After the update every thread whose pending transition races with the last transition is scheduled
  for at the state it ran from, and the last thread at the highest state below where its next
  transition races.
\<close>

lemma update_schedules_races:
  assumes "dynamicallyUpdateBacktrackSets iter s = Inr s'" and "iteration_order iter"
    and "items_ok s" and "length (transitionStack s) \<le> length (stateStack s)"
    and "doneSet (stateStack s ! n) \<subseteq> sleepSet (stateStack s ! n)"
    and "n = length (transitionStack s) - 1"
    and "p < getNumProgramThreads s" and "p \<noteq> getThreadId (last (transitionStack s))"
    and "getNextTransitionForThread s p = Inr nextSP" and "shouldProcess s nextSP n p"
  shows "race_scheduled s s' n p"
proof -
  let ?last = "getThreadId (last (transitionStack s))"
  let ?f = "\<lambda>t s'. bindR (getNextTransitionForThread s' t) (\<lambda>nextSP.
        Inr (snd (dynamicallyUpdateBacktrackSetsHelper iter nextSP n t s')))"
  let ?ts = "iter ({0..<getNumProgramThreads s} - {?last})"
  from assms(1,6) obtain nxt s1 where ne: "transitionStack s \<noteq> []"
    and s1: "foldR ?f ?ts s = Inr s1" and s': "s' = backtrackDownLoop iter nxt ?last n s1"
    by (auto simp: dynamicallyUpdateBacktrackSets_def Let_def result_simps)
  have n_less: "n < length (stateStack s)" using ne assms(4,6) by (cases "transitionStack s") auto
  have "p \<in> set ?ts" using assms(2,7,8) by (simp add: iter_set)
  from foldR_visit [OF s1 this] obtain us vs u u' where
    u: "foldR ?f us s = Inr u" and u': "?f p u = Inr u'" and rest: "foldR ?f vs u' = Inr s1" .
  have su: "only_backtracking s u" by (rule update_first_loop [OF u assms(2,3) n_less])
  have "foldR ?f [p] u = Inr u'" using u' by simp
  then have "only_backtracking u u'"
    using su n_less only_backtracking_length [OF su]
    by (intro update_first_loop [where ts = "[p]", OF _ assms(2)]) (auto simp: only_backtracking_def)
  then have su': "only_backtracking s u'" by (rule only_backtracking_trans [OF su])
  have u's1: "only_backtracking u' s1"
    using su' n_less only_backtracking_length [OF su']
    by (intro update_first_loop [OF rest assms(2)]) (auto simp: only_backtracking_def)
  then have "only_backtracking s s1" by (rule only_backtracking_trans [OF su'])
  moreover have "only_backtracking s1 s'"
    unfolding s' using calculation n_less only_backtracking_length [of s s1]
    by (intro backtrackDownLoop_only_backtracking [OF assms(2)]) (auto simp: only_backtracking_def)
  ultimately have u's': "only_backtracking u' s'" using only_backtracking_trans [OF u's1] by blast
  have same: "same_but_backtracking s u" using su by (simp add: only_backtracking_def)
  have "getNextTransitionForThread u p = Inr nextSP"
    using race_test_same_but_backtracking(6) [OF same n_less] assms(9) by simp
  then have "u' = snd (dynamicallyUpdateBacktrackSetsHelper iter nextSP n p u)" using u' by simp
  with u's' show ?thesis using helper_schedules [OF assms(2) su n_less assms(5,10)] by simp
qed

lemma update_schedules_last_thread:
  assumes "dynamicallyUpdateBacktrackSets iter s = Inr s'" and "iteration_order iter"
    and "items_ok s" and "length (transitionStack s) \<le> length (stateStack s)"
    and "p = getThreadId (last (transitionStack s))" and "getNextTransitionForThread s p = Inr nextSP"
    and "i < length (transitionStack s) - 1" and "shouldProcess s nextSP i p"
    and "\<forall>j. i < j \<and> j < length (transitionStack s) - 1 \<longrightarrow> \<not> shouldProcess s nextSP j p"
    and "doneSet (stateStack s ! i) \<subseteq> sleepSet (stateStack s ! i)"
  shows "race_scheduled s s' i p"
proof -
  let ?n = "length (transitionStack s) - 1"
  from assms(1,5,6) obtain s1 where
    s1: "foldR (\<lambda>t s'. bindR (getNextTransitionForThread s' t) (\<lambda>nextSP.
        Inr (snd (dynamicallyUpdateBacktrackSetsHelper iter nextSP ?n t s'))))
        (iter ({0..<getNumProgramThreads s} - {p})) s = Inr s1"
    and s': "s' = backtrackDownLoop iter nextSP p ?n s1"
    by (auto simp: dynamicallyUpdateBacktrackSets_def Let_def result_simps)
  have n: "?n < length (stateStack s)" using assms(4,7) by simp
  have ss1: "only_backtracking s s1"
    using s1 unfolding assms(5) by (rule update_first_loop [OF _ assms(2,3)]) (use n in simp)
  then have same: "same_but_backtracking s s1" and ok: "items_ok s1"
    by (simp_all add: only_backtracking_def)
  note len = only_backtracking_length [OF ss1]
  have race: "shouldProcess s1 nextSP j p = shouldProcess s nextSP j p" if "j < ?n" for j
    using race_test_same_but_backtracking(1) [OF same] that n by simp
  have "\<forall>j < ?n. finite (enabledThreads (stateStack s1 ! j))"
    using ok n len by (simp add: items_ok_def item_wf_def)
  then have eq: "s' = snd (dynamicallyUpdateBacktrackSetsHelper iter nextSP i p s1)"
    unfolding s' using assms(7-9) race by (intro backtrackDownLoop_highest [OF assms(2)]) auto
  have "only_backtracking s1 s'"
    unfolding s' using n len by (intro backtrackDownLoop_only_backtracking [OF assms(2) ok]) simp
  then have "only_backtracking s' s'" by (intro only_backtracking_refl) (simp add: only_backtracking_def)
  then show ?thesis
    using helper_schedules [OF assms(2) ss1 _ assms(10,8)] assms(7) n eq by simp
qed

end
