(* ===== verification/Replay.thy ===== *)
theory Replay
  imports Backtracking
begin

text \<open>
  \<^verbatim>\<open>MCStack::reflectStateAtTransitionIndex\<close> (\<^verbatim>\<open>src/MCStack.cpp\<close>): going back to the state after
  the transition at \<open>index\<close>, by undoing the transitions above it when all of them can be undone, and
  otherwise by resetting every object and replaying the trace.
\<close>

definition canRunInReverseToStateAtIndex :: "nat \<Rightarrow> mcstack \<Rightarrow> bool" where
  "canRunInReverseToStateAtIndex stateStackIndex s \<longleftrightarrow>
     (if MCSortedStack_empty (irreversibleStatesStack s) then True
      else stateStackIndex \<ge> hd (irreversibleStatesStack s))"

definition virtuallyRerunTransitionAtIndex :: "nat \<Rightarrow> mcstack \<Rightarrow> mcstack result" where
  "virtuallyRerunTransitionAtIndex i s =
     (let t = transitionStack s ! i; p = getThreadId t in
      bindR (virtuallyApplyTransition t s) (\<lambda>s1.
      bindR (updateThreadDataR p (pushNewLatestExecutionPoint i) (incrementThreadDepthIfNecessary t s1)) (\<lambda>s2.
        Inr (updateThreadData p (setClockVector (clockVectorForTransitionAtIndex i s2)) s2))))"

definition virtuallyRevertTransitionAtIndex :: "nat \<Rightarrow> mcstack \<Rightarrow> mcstack result" where
  "virtuallyRevertTransitionAtIndex i s =
     (let t = transitionStack s ! i; p = getThreadId t in
      bindR (virtuallyUnapplyTransition t s) (\<lambda>s1.
        Inr (updateThreadData p (setClockVector (clockVectorForTransitionAtIndex i s1))
          (updateThreadData p popLatestExecutionPoint (decrementThreadDepthIfNecessary t s1)))))"

text \<open>The lowest transition above \<open>index\<close> of every thread: what the thread will run next.\<close>

fun closestIndexLoop :: "transition list \<Rightarrow> nat list \<Rightarrow> (tid \<Rightarrow> nat option) \<Rightarrow> tid \<Rightarrow> nat option" where
  "closestIndexLoop ts [] m = m"
| "closestIndexLoop ts (i # is) m = closestIndexLoop ts is (m(getThreadId (ts ! i) := Some i))"

definition threadToClosestIndexMap :: "nat \<Rightarrow> transition list \<Rightarrow> tid \<Rightarrow> nat option" where
  "threadToClosestIndexMap index ts =
     closestIndexLoop ts (rev [index + 1..<length ts]) (\<lambda>_. None)"

definition restoreNextTransition ::
  "nat \<Rightarrow> tid \<Rightarrow> mcstack \<Rightarrow> mcstack result" where
  "restoreNextTransition latestIndex t s =
     bindR (dynamicCopyInState (methods_of (transitionStack s ! latestIndex))
              (getThreadWithId s) (objectStorage s)) (\<lambda>dynamicCopy.
       setNextTransitionForThread t dynamicCopy s)"

definition refreshNextTransition :: "tid \<Rightarrow> mcstack \<Rightarrow> mcstack result" where
  "refreshNextTransition t s =
     bindR (getNextTransitionForThread s t) (\<lambda>p.
     bindR (dynamicCopyInState (methods_of p) (getThreadWithId s) (objectStorage s)) (\<lambda>dynamicCopy.
       setNextTransitionForThread t dynamicCopy s))"

text \<open>
  The map of closest indices is visited in the order of its container; every visit sets another
  thread's entry, so ascending thread ids stand for any order.
\<close>

definition reflectStateAtTransitionIndex :: "nat \<Rightarrow> mcstack \<Rightarrow> mcstack result" where
  "reflectStateAtTransitionIndex index s =
     guardR AssertFailed (index < length (transitionStack s))
     (let numThreadsToProcess = getNumProgramThreads s;
          stateStackIndex = index + 1;
          canRunReverse = canRunInReverseToStateAtIndex stateStackIndex s;
          threads = [0..<numThreadsToProcess];
          closest = threadToClosestIndexMap index (transitionStack s) in
      bindR
        (if \<not> canRunReverse then
           foldR virtuallyRerunTransitionAtIndex [0..<index + 1]
             (fold (\<lambda>t. updateThreadData t resetExecutionData) threads
               (s\<lparr>objectStorage := resetObjectsToInitialStateInStore (objectStorage s)\<rparr>))
         else
           foldR virtuallyRevertTransitionAtIndex (rev [index + 1..<length (transitionStack s)])
             (fold (\<lambda>t. updateThreadData t (popExecutionPointsGreaterThan index)) threads s))
        (\<lambda>s1.
      bindR (foldR (\<lambda>t. restoreNextTransition (the (closest t)) t)
               (filter (\<lambda>t. closest t \<noteq> None) [0..<MAX_TOTAL_THREADS_IN_PROGRAM]) s1) (\<lambda>s2.
      bindR (if \<not> canRunReverse
             then foldR refreshNextTransition (filter (\<lambda>t. closest t = None) threads) s2
             else Inr s2) (\<lambda>s3.
        Inr (s3\<lparr>irreversibleStatesStack :=
                  MCSortedStack_popGreaterThan stateStackIndex (irreversibleStatesStack s3),
                transitionStack := take (index + 1) (transitionStack s3),
                stateStack := take (index + 2) (stateStack s3)\<rparr>)))))"

section \<open>When the reverse is possible\<close>

lemma closest_spec:
  assumes "sorted ks"
  shows "closestIndexLoop ts (rev ks) m t =
    (case filter (\<lambda>i. getThreadId (ts ! i) = t) ks of [] \<Rightarrow> m t | i # _ \<Rightarrow> Some i)"
proof -
  have snoc: "closestIndexLoop ts (js @ [j]) m' = (closestIndexLoop ts js m')(getThreadId (ts ! j) := Some j)"
    for js j m'
    by (induction js arbitrary: m') simp_all
  show ?thesis
    by (induction ks arbitrary: m) (auto simp: snoc)
qed

text \<open>The transition a thread runs next is the first one of the thread above \<open>index\<close>.\<close>

lemma closest_first:
  "threadToClosestIndexMap index ts t = Some k \<longleftrightarrow>
     index < k \<and> k < length ts \<and> getThreadId (ts ! k) = t
     \<and> (\<forall>i. index < i \<and> i < k \<longrightarrow> getThreadId (ts ! i) \<noteq> t)"
proof -
  have eq: "threadToClosestIndexMap index ts t =
      (case filter (\<lambda>i. getThreadId (ts ! i) = t) [index + 1..<length ts] of [] \<Rightarrow> None | i # _ \<Rightarrow> Some i)"
    unfolding threadToClosestIndexMap_def by (subst closest_spec) (auto split: list.splits)
  show ?thesis
  proof (cases "filter (\<lambda>i. getThreadId (ts ! i) = t) [index + 1..<length ts]")
    case Nil
    then have "\<forall>i \<in> set [index + 1..<length ts]. getThreadId (ts ! i) \<noteq> t"
      by (simp add: filter_empty_conv)
    then show ?thesis using eq Nil by auto
  next
    case (Cons i ks)
    then have i: "index < i" "i < length ts" "getThreadId (ts ! i) = t"
      using list.set_intros(1) [of i ks] unfolding Cons [symmetric] by auto
    have sorted: "sorted (i # ks)" unfolding Cons [symmetric] by (simp add: sorted_wrt_filter)
    have least: "i \<le> j" if "index < j" "j < length ts" "getThreadId (ts ! j) = t" for j
    proof -
      have "j \<in> set (i # ks)" unfolding Cons [symmetric] using that by simp
      then show ?thesis using sorted by auto
    qed
    have map: "threadToClosestIndexMap index ts t = Some i" using eq Cons by simp
    have none: "getThreadId (ts ! j) \<noteq> t" if "index < j" "j < i" for j
      using least [OF that(1)] that(2) i(2) by fastforce
    show ?thesis
    proof
      assume "threadToClosestIndexMap index ts t = Some k"
      then have "k = i" using map by simp
      then show "index < k \<and> k < length ts \<and> getThreadId (ts ! k) = t
          \<and> (\<forall>j. index < j \<and> j < k \<longrightarrow> getThreadId (ts ! j) \<noteq> t)"
        using i none by simp
    next
      assume k: "index < k \<and> k < length ts \<and> getThreadId (ts ! k) = t
          \<and> (\<forall>j. index < j \<and> j < k \<longrightarrow> getThreadId (ts ! j) \<noteq> t)"
      then have "i \<le> k" using least [of k] by simp
      moreover have "\<not> i < k" using k i(1,3) by blast
      ultimately show "threadToClosestIndexMap index ts t = Some k" using map by simp
    qed
  qed
qed

text \<open>Going back in reverse never meets a transition that cannot be undone.\<close>

lemma reverse_only_reversible:
  assumes "irreversible_ok s" and "canRunInReverseToStateAtIndex (index + 1) s"
    and "index < k" and "k < length (transitionStack s)"
  shows "isReversibleInState (methods_of (transitionStack s ! k))"
proof (rule ccontr)
  assume irr: "\<not> isReversibleInState (methods_of (transitionStack s ! k))"
  let ?ks = "filter (\<lambda>k. \<not> isReversibleInState (methods_of (transitionStack s ! k)))
       [0..<length (transitionStack s)]"
  have st: "irreversibleStatesStack s = rev (map Suc ?ks)"
    using assms(1) by (simp add: irreversible_ok_def)
  have mem: "Suc k \<in> set (irreversibleStatesStack s)"
    using irr assms(4) by (auto simp: st)
  then obtain x xs where x: "irreversibleStatesStack s = x # xs"
    by (cases "irreversibleStatesStack s") auto
  have "Suc k \<le> x"
    using sorted_stack_Cons_hd [of x xs "Suc k"] irreversible_sorted [OF assms(1)] mem x by simp
  moreover have "x \<le> index + 1"
    using assms(2) x by (simp add: canRunInReverseToStateAtIndex_def MCSortedStack_empty_def)
  ultimately show False using assms(3) by simp
qed

lemma reverse_iff:
  assumes "irreversible_ok s"
  shows "canRunInReverseToStateAtIndex (index + 1) s \<longleftrightarrow>
    (\<forall>k. index < k \<and> k < length (transitionStack s) \<longrightarrow>
       isReversibleInState (methods_of (transitionStack s ! k)))"
proof
  assume all: "\<forall>k. index < k \<and> k < length (transitionStack s) \<longrightarrow>
       isReversibleInState (methods_of (transitionStack s ! k))"
  have "\<forall>x \<in> set (irreversibleStatesStack s). x \<le> index + 1"
    using assms all by (auto simp: irreversible_ok_def not_less) (meson not_less_eq_eq not_le)
  then show "canRunInReverseToStateAtIndex (index + 1) s"
    by (cases "irreversibleStatesStack s")
       (auto simp: canRunInReverseToStateAtIndex_def MCSortedStack_empty_def)
qed (use reverse_only_reversible [OF assms] in blast)


section \<open>What going back does to the stacks\<close>

text \<open>Steps of the replay change objects, thread data and pending transitions only.\<close>

definition same_stacks :: "mcstack \<Rightarrow> mcstack \<Rightarrow> bool" where
  "same_stacks s s' \<longleftrightarrow> transitionStack s' = transitionStack s \<and> stateStack s' = stateStack s
     \<and> irreversibleStatesStack s' = irreversibleStatesStack s \<and> configuration s' = configuration s
     \<and> threadIdMap s \<subseteq>\<^sub>m threadIdMap s'"

lemma same_stacks_trans: "same_stacks s s' \<Longrightarrow> same_stacks s' s'' \<Longrightarrow> same_stacks s s''"
  by (auto simp: same_stacks_def intro: map_le_trans)

lemma same_search_stacks: "same_search s s' \<Longrightarrow> same_stacks s s'"
  by (simp add: same_search_def same_stacks_def)

lemma same_stacks_depth:
  "same_stacks s (incrementThreadDepthIfNecessary t s)"
  "same_stacks s (decrementThreadDepthIfNecessary t s)"
  "same_stacks s (updateThreadData p f s)"
  by (simp_all add: same_stacks_def incrementThreadDepthIfNecessary_def
      decrementThreadDepthIfNecessary_def updateThreadData_def)

lemma rerun_stacks: "virtuallyRerunTransitionAtIndex i s = Inr s' \<Longrightarrow> same_stacks s s'"
  by (auto simp: virtuallyRerunTransitionAtIndex_def Let_def result_simps virtuallyApplyTransition_def
      updateThreadDataR_def same_stacks_def incrementThreadDepthIfNecessary_def updateThreadData_def)

lemma revert_stacks: "virtuallyRevertTransitionAtIndex i s = Inr s' \<Longrightarrow> same_stacks s s'"
  by (auto simp: virtuallyRevertTransitionAtIndex_def Let_def result_simps
      virtuallyUnapplyTransition_def same_stacks_def decrementThreadDepthIfNecessary_def
      updateThreadData_def)

lemma restore_stacks: "restoreNextTransition k t s = Inr s' \<Longrightarrow> same_stacks s s'"
  by (auto simp: restoreNextTransition_def result_simps setNextTransitionForThread_def same_stacks_def)

lemma refresh_stacks: "refreshNextTransition t s = Inr s' \<Longrightarrow> same_stacks s s'"
  by (auto simp: refreshNextTransition_def result_simps setNextTransitionForThread_def same_stacks_def)

lemma foldR_stacks:
  assumes "foldR f xs s = Inr s'" and "\<And>x s s'. f x s = Inr s' \<Longrightarrow> same_stacks s s'"
  shows "same_stacks s s'"
  using assms(1)
  by (rule foldR_invariant [where P = "same_stacks s"])
     (simp add: same_stacks_def, use assms(2) same_stacks_trans in blast)

lemma fold_updateThreadData_stacks: "same_stacks s (fold (\<lambda>t. updateThreadData t f) ts s)"
  by (induction ts arbitrary: s)
     (simp add: same_stacks_def, metis fold_simps(2) same_stacks_depth(3) same_stacks_trans)

text \<open>The phases of the function: objects, restored pending transitions, refreshed ones, stacks.\<close>

lemma reflect_cases:
  assumes "reflectStateAtTransitionIndex index s = Inr s'"
  obtains s1 s2 s3 where "index < length (transitionStack s)"
    and "(if \<not> canRunInReverseToStateAtIndex (index + 1) s then
           foldR virtuallyRerunTransitionAtIndex [0..<index + 1]
             (fold (\<lambda>t. updateThreadData t resetExecutionData) [0..<getNumProgramThreads s]
               (s\<lparr>objectStorage := resetObjectsToInitialStateInStore (objectStorage s)\<rparr>))
         else
           foldR virtuallyRevertTransitionAtIndex (rev [index + 1..<length (transitionStack s)])
             (fold (\<lambda>t. updateThreadData t (popExecutionPointsGreaterThan index))
               [0..<getNumProgramThreads s] s)) = Inr s1"
    and "foldR (\<lambda>t. restoreNextTransition (the (threadToClosestIndexMap index (transitionStack s) t)) t)
               (filter (\<lambda>t. threadToClosestIndexMap index (transitionStack s) t \<noteq> None)
                 [0..<MAX_TOTAL_THREADS_IN_PROGRAM]) s1 = Inr s2"
    and "(if \<not> canRunInReverseToStateAtIndex (index + 1) s
             then foldR refreshNextTransition
               (filter (\<lambda>t. threadToClosestIndexMap index (transitionStack s) t = None)
                 [0..<getNumProgramThreads s]) s2
             else Inr s2) = Inr s3"
    and "s' = s3\<lparr>irreversibleStatesStack :=
                  MCSortedStack_popGreaterThan (index + 1) (irreversibleStatesStack s3),
                transitionStack := take (index + 1) (transitionStack s3),
                stateStack := take (index + 2) (stateStack s3)\<rparr>"
    and "same_stacks s s1" and "same_stacks s s2" and "same_stacks s s3"
proof -
  let ?rev = "canRunInReverseToStateAtIndex (index + 1) s"
  let ?closest = "threadToClosestIndexMap index (transitionStack s)"
  from assms obtain s1 s2 s3 where idx: "index < length (transitionStack s)"
    and s1: "(if \<not> ?rev then
           foldR virtuallyRerunTransitionAtIndex [0..<index + 1]
             (fold (\<lambda>t. updateThreadData t resetExecutionData) [0..<getNumProgramThreads s]
               (s\<lparr>objectStorage := resetObjectsToInitialStateInStore (objectStorage s)\<rparr>))
         else
           foldR virtuallyRevertTransitionAtIndex (rev [index + 1..<length (transitionStack s)])
             (fold (\<lambda>t. updateThreadData t (popExecutionPointsGreaterThan index))
               [0..<getNumProgramThreads s] s)) = Inr s1"
    and s2: "foldR (\<lambda>t. restoreNextTransition (the (?closest t)) t)
               (filter (\<lambda>t. ?closest t \<noteq> None) [0..<MAX_TOTAL_THREADS_IN_PROGRAM]) s1 = Inr s2"
    and s3: "(if \<not> ?rev
             then foldR refreshNextTransition
               (filter (\<lambda>t. ?closest t = None) [0..<getNumProgramThreads s]) s2
             else Inr s2) = Inr s3"
    and s': "s' = s3\<lparr>irreversibleStatesStack :=
                  MCSortedStack_popGreaterThan (index + 1) (irreversibleStatesStack s3),
                transitionStack := take (index + 1) (transitionStack s3),
                stateStack := take (index + 2) (stateStack s3)\<rparr>"
    unfolding reflectStateAtTransitionIndex_def Let_def guardR_eq_Inr bindR_eq_Inr
    by (elim conjE exE) (rule that, assumption+, simp)
  have start: "same_stacks s (fold (\<lambda>t. updateThreadData t f) ts s)"
    "same_stacks s (fold (\<lambda>t. updateThreadData t f) ts (s\<lparr>objectStorage := st\<rparr>))" for f ts st
    using fold_updateThreadData_stacks [of s f ts] fold_updateThreadData_stacks [of "s\<lparr>objectStorage := st\<rparr>" f ts]
    by (simp_all add: same_stacks_def)
  have ss1: "same_stacks s s1"
  proof (cases ?rev)
    case True
    then have "foldR virtuallyRevertTransitionAtIndex (rev [index + 1..<length (transitionStack s)])
        (fold (\<lambda>t. updateThreadData t (popExecutionPointsGreaterThan index))
          [0..<getNumProgramThreads s] s) = Inr s1"
      using s1 by simp
    from foldR_stacks [where f = virtuallyRevertTransitionAtIndex, OF this] revert_stacks start(1)
    show ?thesis using same_stacks_trans by blast
  next
    case False
    then have "foldR virtuallyRerunTransitionAtIndex [0..<index + 1]
        (fold (\<lambda>t. updateThreadData t resetExecutionData) [0..<getNumProgramThreads s]
          (s\<lparr>objectStorage := resetObjectsToInitialStateInStore (objectStorage s)\<rparr>)) = Inr s1"
      using s1 by simp
    from foldR_stacks [where f = virtuallyRerunTransitionAtIndex, OF this] rerun_stacks
      same_stacks_trans [OF start(2)]
    show ?thesis by blast
  qed
  have ss2: "same_stacks s s2" by (rule same_stacks_trans [OF ss1 foldR_stacks [OF s2 restore_stacks]])
  have "same_stacks s2 s3"
  proof (cases ?rev)
    case True
    then show ?thesis using s3 by (simp add: same_stacks_def)
  next
    case False
    then show ?thesis using s3 foldR_stacks [OF _ refresh_stacks] by simp
  qed
  then have ss3: "same_stacks s s3" by (rule same_stacks_trans [OF ss2])
  show thesis by (rule that [OF idx s1 s2 s3 s' ss1 ss2 ss3])
qed

lemma reflect_stacks:
  assumes "reflectStateAtTransitionIndex index s = Inr s'"
  shows "index < length (transitionStack s)"
    and "transitionStack s' = take (index + 1) (transitionStack s)"
    and "stateStack s' = take (index + 2) (stateStack s)"
    and "irreversibleStatesStack s' =
      MCSortedStack_popGreaterThan (index + 1) (irreversibleStatesStack s)"
    and "configuration s' = configuration s" and "threadIdMap s \<subseteq>\<^sub>m threadIdMap s'"
  by (rule reflect_cases [OF assms], simp add: same_stacks_def)+

lemma clocks_ok_reflect:
  assumes "reflectStateAtTransitionIndex index s = Inr s'" and "clocks_ok s"
  shows "clocks_ok s'"
proof -
  note st = reflect_stacks [OF assms(1)]
  have "map clockVector (tl (stateStack s')) = take (index + 1) (map clockVector (tl (stateStack s)))"
    by (simp add: st(3) tl_take take_map)
  then show ?thesis
    using assms(2) st(1,2,3) trace.clocked_take by (auto simp: clocks_ok_def)
qed

lemma items_ok_reflect:
  "reflectStateAtTransitionIndex index s = Inr s' \<Longrightarrow> items_ok s \<Longrightarrow> items_ok s'"
  using reflect_stacks(3) by (auto simp: items_ok_def dest: in_set_takeD)

lemma irreversible_ok_reflect:
  assumes "reflectStateAtTransitionIndex index s = Inr s'" and "irreversible_ok s"
  shows "irreversible_ok s'"
proof -
  note st = reflect_stacks [OF assms(1)]
  let ?P = "\<lambda>k. \<not> isReversibleInState (methods_of (transitionStack s ! k))"
  let ?n = "length (transitionStack s)"
  have split: "[0..<?n] = [0..<index + 1] @ [index + 1..<?n]"
  proof -
    obtain d where "?n = (index + 1) + d" using st(1) by (metis less_iff_Suc_add add_Suc_right add_Suc Suc_eq_plus1)
    then show ?thesis using upt_add_eq_append [of 0 "index + 1" d] by (simp del: upt_Suc)
  qed
  have "MCSortedStack_popGreaterThan (index + 1) (irreversibleStatesStack s) =
      filter (\<lambda>x. x \<le> index + 1) (rev (map Suc (filter ?P [0..<?n])))"
    using popGreaterThan_filter [OF irreversible_sorted [OF assms(2)]] assms(2)
    by (simp add: irreversible_ok_def)
  also have "\<dots> = rev (map Suc (filter ?P [0..<index + 1]))"
  proof -
    have "filter (\<lambda>x. x \<le> index) (filter ?P [0..<index + 1]) = filter ?P [0..<index + 1]"
      by (rule filter_True) auto
    moreover have "filter (\<lambda>x. x \<le> index) (filter ?P [index + 1..<?n]) = []"
      by (auto simp: filter_empty_conv)
    ultimately show ?thesis
      unfolding split by (simp add: rev_filter [symmetric] filter_map o_def del: upt_Suc)
  qed
  finally have irr: "irreversibleStatesStack s' = rev (map Suc (filter ?P [0..<index + 1]))"
    using st(4) by simp
  have "filter (\<lambda>k. \<not> isReversibleInState (methods_of (take (index + 1) (transitionStack s) ! k))) [0..<index + 1]
      = filter ?P [0..<index + 1]"
    by (rule filter_cong) auto
  then show ?thesis
    using assms(2) st(1,2,3) irr by (simp add: irreversible_ok_def del: upt_Suc)
qed

end
