(* ===== verification/ReadHandlers.thy ===== *)
theory ReadHandlers
  imports HappensBefore
begin

text \<open>
  The handlers \<^verbatim>\<open>MCRead<X>\<close> (\<^verbatim>\<open>src/transitions\<close>): a thread stopped in front of its next visible
  operation has written the kind of the operation and its operands to shared memory; the handler
  registered for the kind (\<^verbatim>\<open>mc_create_global_state_object\<close>) turns them into the thread's next
  transition, registering the objects seen for the first time.

  \<open>visible_operation\<close> is what the wrappers post (\<^verbatim>\<open>src/transitions/wrappers\<close>): the kind with the
  fields of the shadow the handler reads.  Handlers that meet an object without a constructor call
  compare the object's memory in the target with the static initializer; that observation of the
  target is the parameter \<open>initialized\<close>, by address.
\<close>

datatype visible_operation =
    OpThreadStart
  | OpThreadCreate nat nat sysid
  | OpThreadJoin sysid
  | OpThreadFinish
  | OpMutexInit sysid
  | OpMutexLock sysid
  | OpMutexTrylock sysid
  | OpMutexUnlock sysid
  | OpSemInit sysid u32
  | OpSemPost sysid
  | OpSemEnqueue sysid
  | OpSemWait sysid
  | OpBarrierInit sysid u32
  | OpBarrierEnqueue sysid
  | OpBarrierWait sysid
  | OpCondInit sysid
  | OpCondSignal sysid
  | OpCondBroadcast sysid
  | OpCondEnqueue sysid sysid
  | OpCondWait sysid sysid
  | OpRWLockInit sysid
  | OpRWLockReaderEnqueue sysid
  | OpRWLockReaderLock sysid
  | OpRWLockWriterEnqueue sysid
  | OpRWLockWriterLock sysid
  | OpRWLockUnlock sysid
  | OpRWWLockInit sysid
  | OpRWWLockReaderEnqueue sysid
  | OpRWWLockReaderLock sysid
  | OpRWWLockWriter1Enqueue sysid
  | OpRWWLockWriter1Lock sysid
  | OpRWWLockWriter2Enqueue sysid
  | OpRWWLockWriter2Lock sysid
  | OpRWWLockUnlock sysid
  | OpGlobalRead sysid
  | OpGlobalWrite sysid u64
  | OpAbort
  | OpExit int
  | OpProgress

type_synonym static_initializer = "sysid \<Rightarrow> bool"

section \<open>Finding and registering objects\<close>

text \<open>
  \<open>get\<close> is the read through the store with the cast of
  \<^verbatim>\<open>getVisibleObjectWithSystemIdentity<T>\<close>; \<open>None\<close> is the null pointer.
\<close>

definition find_object :: "(objid \<Rightarrow> object_store \<Rightarrow> 'a result) \<Rightarrow> sysid \<Rightarrow> mcstack \<Rightarrow> 'a option result" where
  "find_object get sys s =
     (case systemVisibleObjectMap (objectStorage s) sys of
        None \<Rightarrow> Inr None
      | Some i \<Rightarrow> bindR (get i (objectStorage s)) (\<lambda>x. Inr (Some x)))"

text \<open>The object and whether it was created by this call.\<close>

definition find_or_register ::
  "(objid \<Rightarrow> object_store \<Rightarrow> 'a result) \<Rightarrow> sysid \<Rightarrow> visible_object \<Rightarrow> mcstack \<Rightarrow>
     (bool \<times> 'a \<times> mcstack) result" where
  "find_or_register get sys fresh s =
     bindR (find_object get sys s) (\<lambda>found.
       case found of
         Some x \<Rightarrow> Inr (False, x, s)
       | None \<Rightarrow>
           bindR (registerVisibleObjectWithSystemIdentity sys fresh s) (\<lambda>(i, s').
           bindR (get i (objectStorage s')) (\<lambda>x. Inr (True, x, s'))))"

definition find_or_undefined ::
  "(objid \<Rightarrow> object_store \<Rightarrow> 'a result) \<Rightarrow> sysid \<Rightarrow> mcstack \<Rightarrow> 'a result" where
  "find_or_undefined get sys s =
     bindR (find_object get sys s) (\<lambda>found.
       case found of None \<Rightarrow> Inl UndefinedBehavior | Some x \<Rightarrow> Inr x)"

text \<open>A write to the fields of an object through the pointer the handler holds.\<close>

definition update_object ::
  "objid \<Rightarrow> (visible_object \<Rightarrow> visible_object result) \<Rightarrow> mcstack \<Rightarrow> mcstack result" where
  "update_object i f s =
     bindR (modify_object i f (objectStorage s)) (\<lambda>st. Inr (s\<lparr>objectStorage := st\<rparr>))"

definition with_executor ::
  "tid \<Rightarrow> (mcthread \<Rightarrow> transition) \<Rightarrow> mcstack \<Rightarrow> (mcstack \<times> transition) result" where
  "with_executor t mk s = bindR (getThreadWithId s t) (\<lambda>th. Inr (s, mk th))"

section \<open>Threads\<close>

definition find_or_addNewThread :: "mcthread \<Rightarrow> mcstack \<Rightarrow> (tid \<times> mcstack) result" where
  "find_or_addNewThread shadow s =
     bindR (find_object getThread (thread_sys shadow) s) (\<lambda>found.
       case found of Some th \<Rightarrow> Inr (thread_tid th, s) | None \<Rightarrow> addNewThread shadow s)"

definition MCReadThreadStart :: "tid \<Rightarrow> reader" where
  "MCReadThreadStart t s = Inl Fatal"

definition MCReadThreadCreate :: "tid \<Rightarrow> nat \<Rightarrow> nat \<Rightarrow> sysid \<Rightarrow> reader" where
  "MCReadThreadCreate t arg routine sys s =
     bindR (find_or_addNewThread (newMCThread 0 arg routine sys) s) (\<lambda>(newThreadId, s1).
     bindR (getThreadWithId s1 newThreadId) (\<lambda>newThread.
       with_executor t (\<lambda>th. MCThreadTransition th ThreadCreate newThread) s1))"

definition MCReadThreadJoin :: "tid \<Rightarrow> sysid \<Rightarrow> reader" where
  "MCReadThreadJoin t sys s =
     bindR (find_or_addNewThread (newMCThread 0 0 0 sys) s) (\<lambda>(newThreadId, s1).
     bindR (getThreadWithId s1 newThreadId) (\<lambda>joinThread.
       with_executor t (\<lambda>th. MCThreadTransition th ThreadJoin joinThread) s1))"

definition MCReadThreadFinish :: "tid \<Rightarrow> reader" where
  "MCReadThreadFinish t = with_executor t (\<lambda>th. MCThreadTransition th ThreadFinish th)"

section \<open>Mutexes\<close>

definition MCReadMutexInit :: "tid \<Rightarrow> sysid \<Rightarrow> reader" where
  "MCReadMutexInit t sys s =
     bindR (find_or_register getMutex sys (VMutex (newMCMutex sys)) s) (\<lambda>(_, m, s1).
       with_executor t (\<lambda>th. MCMutexTransition th MutexInit m) s1)"

text \<open>What \<^verbatim>\<open>MCReadMutexLock\<close> and \<^verbatim>\<open>MCReadMutexTrylock\<close> do before they build the transition.\<close>

definition mutex_to_lock :: "static_initializer \<Rightarrow> sysid \<Rightarrow> mcstack \<Rightarrow> (mcmutex \<times> mcstack) result" where
  "mutex_to_lock initialized sys s =
     bindR (find_or_register getMutex sys (VMutex (newMCMutex sys)) s) (\<lambda>(testIfValidMutex, m, s1).
     bindR (if testIfValidMutex \<or> mutex_state m = mutex_undefined
            then guardR StopModelChecking (initialized sys)
                   (if mutex_state m = mutex_undefined
                    then update_object (mutex_id m)
                           (on_mutex (\<lambda>m. m\<lparr>mutex_state := mutex_unlocked\<rparr>)) s1
                    else Inr s1)
            else Inr s1) (\<lambda>s2.
     bindR (getMutex (mutex_id m) (objectStorage s2)) (\<lambda>m'.
       guardR AssertFailed (mutex_state m' = mutex_unlocked \<or> mutex_state m' = mutex_locked)
         (guardR UndefinedBehavior (\<not> MCMutex_isDestroyed m') (Inr (m', s2))))))"

definition MCReadMutexLock :: "static_initializer \<Rightarrow> tid \<Rightarrow> sysid \<Rightarrow> reader" where
  "MCReadMutexLock initialized t sys s =
     bindR (mutex_to_lock initialized sys s) (\<lambda>(m, s1).
       with_executor t (\<lambda>th. MCMutexTransition th MutexLock m) s1)"

definition MCReadMutexTrylock :: "static_initializer \<Rightarrow> tid \<Rightarrow> sysid \<Rightarrow> reader" where
  "MCReadMutexTrylock initialized t sys s =
     bindR (mutex_to_lock initialized sys s) (\<lambda>(m, s1).
       with_executor t (\<lambda>th. MCMutexTransition th (MutexTrylock False) m) s1)"

definition MCReadMutexUnlock :: "tid \<Rightarrow> sysid \<Rightarrow> reader" where
  "MCReadMutexUnlock t sys s =
     bindR (find_or_undefined getMutex sys s) (\<lambda>m.
       guardR UndefinedBehavior (\<not> MCMutex_isUnlocked m \<and> \<not> MCMutex_isDestroyed m)
         (with_executor t (\<lambda>th. MCMutexTransition th MutexUnlock m) s))"

section \<open>Semaphores\<close>

definition MCReadSemInit :: "tid \<Rightarrow> sysid \<Rightarrow> u32 \<Rightarrow> reader" where
  "MCReadSemInit t sys n s =
     bindR (find_or_register getSem sys (VSemaphore (newMCSemaphore sys n)) s) (\<lambda>(_, x, s1).
       with_executor t (\<lambda>th. MCSemaphoreTransition th SemInit x) s1)"

definition MCReadSemPost :: "tid \<Rightarrow> sysid \<Rightarrow> reader" where
  "MCReadSemPost t sys s =
     bindR (find_or_undefined getSem sys s) (\<lambda>x.
       guardR UndefinedBehavior (\<not> MCSemaphore_isDestroyed x)
         (with_executor t (\<lambda>th. MCSemaphoreTransition th SemPost x) s))"

definition MCReadSemEnqueue :: "tid \<Rightarrow> sysid \<Rightarrow> reader" where
  "MCReadSemEnqueue t sys s =
     bindR (find_or_undefined getSem sys s) (\<lambda>x.
       guardR UndefinedBehavior (\<not> MCSemaphore_isDestroyed x)
         (with_executor t (\<lambda>th. MCSemaphoreTransition th SemEnqueue x) s))"

definition MCReadSemWait :: "tid \<Rightarrow> sysid \<Rightarrow> reader" where
  "MCReadSemWait t sys s =
     bindR (find_or_undefined getSem sys s) (\<lambda>x.
       guardR UndefinedBehavior (\<not> MCSemaphore_isDestroyed x)
         (with_executor t (\<lambda>th. MCSemaphoreTransition th SemWait x) s))"

section \<open>Barriers\<close>

definition MCReadBarrierInit :: "tid \<Rightarrow> sysid \<Rightarrow> u32 \<Rightarrow> reader" where
  "MCReadBarrierInit t sys n s =
     bindR (find_or_register getBarrier sys (VBarrier (newMCBarrier sys n)) s) (\<lambda>(_, b, s1).
       with_executor t (\<lambda>th. MCBarrierTransition th BarrierInit b) s1)"

definition MCReadBarrierEnqueue :: "tid \<Rightarrow> sysid \<Rightarrow> reader" where
  "MCReadBarrierEnqueue t sys s =
     bindR (find_or_undefined getBarrier sys s) (\<lambda>b.
       with_executor t (\<lambda>th. MCBarrierTransition th BarrierEnqueue b) s)"

text \<open>The thread joins the barrier when the wait is read, not when it runs.\<close>

definition MCReadBarrierWait :: "tid \<Rightarrow> sysid \<Rightarrow> reader" where
  "MCReadBarrierWait t sys s =
     bindR (find_object getBarrier sys s) (\<lambda>found.
       case found of
         None \<Rightarrow> Inl AssertFailed
       | Some b \<Rightarrow>
           bindR (if \<not> MCBarrier_isWaitingOnBarrier t b
                  then update_object (barrier_id b) (on_barrier (MCBarrier_wait t)) s
                  else Inr s) (\<lambda>s1.
           bindR (getBarrier (barrier_id b) (objectStorage s1)) (\<lambda>b'.
             with_executor t (\<lambda>th. MCBarrierTransition th BarrierWait b') s1)))"

section \<open>Condition variables\<close>

text \<open>Every condition variable gets the arbitrary wakeup policy.\<close>

definition find_or_register_cond :: "sysid \<Rightarrow> mcstack \<Rightarrow> (bool \<times> mccond \<times> mcstack) result" where
  "find_or_register_cond sys =
     find_or_register getCond sys
       (VCond (newMCConditionVariable sys (ArbitraryPolicy newSingleGroupPolicy)))"

definition mark_initialized :: "mccond \<Rightarrow> mcstack \<Rightarrow> mcstack result" where
  "mark_initialized c =
     update_object (cond_id c) (on_cond (\<lambda>c. Inr (c\<lparr>cond_state := cond_initialized\<rparr>)))"

text \<open>What the signal, broadcast and enqueue handlers do when they meet an undefined condition variable.\<close>

definition check_static_cond ::
  "static_initializer \<Rightarrow> sysid \<Rightarrow> bool \<Rightarrow> mccond \<Rightarrow> mcstack \<Rightarrow> mcstack result" where
  "check_static_cond initialized sys testIfValidCond c s =
     (if testIfValidCond \<or> cond_state c = cond_undefined
      then guardR StopModelChecking (initialized sys)
             (if cond_state c = cond_undefined then mark_initialized c s else Inr s)
      else Inr s)"

definition MCReadCondInit :: "tid \<Rightarrow> sysid \<Rightarrow> reader" where
  "MCReadCondInit t sys s =
     bindR (find_or_register_cond sys s) (\<lambda>(testIfValidCond, c, s1).
     bindR (if testIfValidCond then mark_initialized c s1 else Inr s1) (\<lambda>s2.
     bindR (getCond (cond_id c) (objectStorage s2)) (\<lambda>c'.
       guardR AssertFailed (cond_state c' = cond_initialized)
         (with_executor t (\<lambda>th. MCCondTransition th CondInit c') s2))))"

definition MCReadCondSignal :: "static_initializer \<Rightarrow> tid \<Rightarrow> sysid \<Rightarrow> reader" where
  "MCReadCondSignal initialized t sys s =
     bindR (find_or_register_cond sys s) (\<lambda>(testIfValidCond, c, s1).
     bindR (check_static_cond initialized sys testIfValidCond c s1) (\<lambda>s2.
     bindR (getCond (cond_id c) (objectStorage s2)) (\<lambda>c'.
       guardR AssertFailed (cond_state c' = cond_initialized)
       (guardR UndefinedBehavior (\<not> MCConditionVariable_isDestroyed c')
         (with_executor t (\<lambda>th. MCCondTransition th CondSignal c') s2)))))"

definition MCReadCondBroadcast :: "static_initializer \<Rightarrow> tid \<Rightarrow> sysid \<Rightarrow> reader" where
  "MCReadCondBroadcast initialized t sys s =
     bindR (find_or_register_cond sys s) (\<lambda>(testIfValidCond, c, s1).
     bindR (check_static_cond initialized sys testIfValidCond c s1) (\<lambda>s2.
     bindR (getCond (cond_id c) (objectStorage s2)) (\<lambda>c'.
       guardR AssertFailed (cond_state c' = cond_initialized \<or> cond_state c' = cond_destroyed)
       (guardR UndefinedBehavior (\<not> MCConditionVariable_isDestroyed c')
         (with_executor t (\<lambda>th. MCCondTransition th CondBroadcast c') s2)))))"

text \<open>
  The mutex a condition variable is bound to, if any, must be the one the thread names; the binding is
  made when the operation is read.
\<close>

definition bound_to :: "mcmutex \<Rightarrow> mccond \<Rightarrow> mcstack \<Rightarrow> bool result" where
  "bound_to m c s =
     (case cond_mutex c of None \<Rightarrow> Inr True
      | Some i \<Rightarrow> bindR (getMutex i (objectStorage s)) (\<lambda>m'. Inr (MCMutex_eq m' m)))"

definition MCReadCondEnqueue :: "static_initializer \<Rightarrow> tid \<Rightarrow> sysid \<Rightarrow> sysid \<Rightarrow> reader" where
  "MCReadCondEnqueue initialized t condSys mutexSys s =
     bindR (find_object getMutex mutexSys s) (\<lambda>mutexThatExists.
     bindR (find_or_register_cond condSys s) (\<lambda>(testIfValidCond, c, s1).
       case mutexThatExists of
         None \<Rightarrow> Inl AssertFailed
       | Some m \<Rightarrow>
           bindR (check_static_cond initialized condSys testIfValidCond c s1) (\<lambda>s2.
           bindR (getCond (cond_id c) (objectStorage s2)) (\<lambda>c'.
             guardR AssertFailed (cond_state c' = cond_initialized \<or> cond_state c' = cond_destroyed)
             (guardR UndefinedBehavior (MCMutex_isLocked m)
             (guardR UndefinedBehavior (\<not> MCConditionVariable_isDestroyed c')
             (bindR (bound_to m c' s2) (\<lambda>same.
              guardR UndefinedBehavior same
              (bindR (update_object (cond_id c) (on_cond (\<lambda>c. Inr (c\<lparr>cond_mutex := Some (mutex_id m)\<rparr>))) s2)
                 (\<lambda>s3.
               bindR (getCond (cond_id c) (objectStorage s3)) (\<lambda>c''.
                 with_executor t (\<lambda>th. MCCondTransition th (CondEnqueue m) c'') s3)))))))))))"

definition MCReadCondWait :: "tid \<Rightarrow> sysid \<Rightarrow> sysid \<Rightarrow> reader" where
  "MCReadCondWait t condSys mutexSys s =
     bindR (find_object getCond condSys s) (\<lambda>condThatExists.
     bindR (find_object getMutex mutexSys s) (\<lambda>mutexThatExists.
       case condThatExists of
         None \<Rightarrow> Inl UndefinedBehavior
       | Some c \<Rightarrow>
          (case mutexThatExists of
             None \<Rightarrow> Inl UndefinedBehavior
           | Some m \<Rightarrow>
               guardR UndefinedBehavior (\<not> MCConditionVariable_isDestroyed c)
               (bindR (bound_to m c s) (\<lambda>same.
                guardR UndefinedBehavior same
                (bindR (cond_mutex_in c (objectStorage s)) (\<lambda>bound.
                  with_executor t (\<lambda>th. MCCondTransition th (CondWait bound) c) s)))))))"

section \<open>Reader/writer locks\<close>

definition set_rw_unlocked :: "mcrwlock \<Rightarrow> mcstack \<Rightarrow> mcstack result" where
  "set_rw_unlocked l = update_object (rw_id l) (on_rwlock (\<lambda>l. Inr (l\<lparr>rw_state := rw_unlocked\<rparr>)))"

definition MCReadRWLockInit :: "tid \<Rightarrow> sysid \<Rightarrow> reader" where
  "MCReadRWLockInit t sys s =
     bindR (find_or_register getRWLock sys (VRWLock (newMCRWLock sys rw_no_preference)) s) (\<lambda>(_, l, s1).
     bindR (set_rw_unlocked l s1) (\<lambda>s2.
     bindR (getRWLock (rw_id l) (objectStorage s2)) (\<lambda>l'.
       with_executor t (\<lambda>th. MCRWLockTransition th RWLockInit l') s2)))"

text \<open>\<^verbatim>\<open>MCReadRWLockReaderEnqueue\<close> and \<^verbatim>\<open>MCReadRWLockWriterEnqueue\<close>.\<close>

definition MCReadRWLockEnqueue :: "rwlock_op \<Rightarrow> tid \<Rightarrow> sysid \<Rightarrow> reader" where
  "MCReadRWLockEnqueue k t sys s =
     bindR (find_or_undefined getRWLock sys s) (\<lambda>l.
       guardR UndefinedBehavior (\<not> MCRWLock_isDestroyed l)
         (with_executor t (\<lambda>th. MCRWLockTransition th k l) s))"

definition MCReadRWLockReaderEnqueue :: "tid \<Rightarrow> sysid \<Rightarrow> reader" where
  "MCReadRWLockReaderEnqueue = MCReadRWLockEnqueue RWLockReaderEnqueue"

definition MCReadRWLockWriterEnqueue :: "tid \<Rightarrow> sysid \<Rightarrow> reader" where
  "MCReadRWLockWriterEnqueue = MCReadRWLockEnqueue RWLockWriterEnqueue"

text \<open>\<^verbatim>\<open>MCReadRWLockReaderLock\<close> and \<^verbatim>\<open>MCReadRWLockWriterLock\<close>.\<close>

definition MCReadRWLockLock :: "rwlock_op \<Rightarrow> static_initializer \<Rightarrow> tid \<Rightarrow> sysid \<Rightarrow> reader" where
  "MCReadRWLockLock k initialized t sys s =
     bindR (find_or_register getRWLock sys (VRWLock (newMCRWLock sys rw_no_preference)) s)
       (\<lambda>(testIfValidRwlock, l, s1).
     bindR (if testIfValidRwlock \<or> rw_state l = rw_undefined
            then guardR StopModelChecking (initialized sys)
                   (if rw_state l = rw_undefined then set_rw_unlocked l s1 else Inr s1)
            else Inr s1) (\<lambda>s2.
     bindR (getRWLock (rw_id l) (objectStorage s2)) (\<lambda>l'.
       guardR AssertFailed (rw_state l' = rw_unlocked)
       (guardR UndefinedBehavior (\<not> MCRWLock_isDestroyed l')
         (with_executor t (\<lambda>th. MCRWLockTransition th k l') s2)))))"

definition MCReadRWLockReaderLock :: "static_initializer \<Rightarrow> tid \<Rightarrow> sysid \<Rightarrow> reader" where
  "MCReadRWLockReaderLock = MCReadRWLockLock RWLockReaderLock"

definition MCReadRWLockWriterLock :: "static_initializer \<Rightarrow> tid \<Rightarrow> sysid \<Rightarrow> reader" where
  "MCReadRWLockWriterLock = MCReadRWLockLock RWLockWriterLock"

definition MCReadRWLockUnlock :: "tid \<Rightarrow> sysid \<Rightarrow> reader" where
  "MCReadRWLockUnlock t sys s =
     bindR (find_or_undefined getRWLock sys s) (\<lambda>l.
       guardR UndefinedBehavior (\<not> MCRWLock_isUnlocked l \<and> \<not> MCRWLock_isDestroyed l)
         (with_executor t (\<lambda>th. MCRWLockTransition th RWLockUnlock l) s))"

text \<open>The reader/writer/writer locks: the lock handlers do not look for a static initializer.\<close>

definition MCReadRWWLockInit :: "tid \<Rightarrow> sysid \<Rightarrow> reader" where
  "MCReadRWWLockInit t sys s =
     bindR (find_or_register getRWWLock sys (VRWWLock (newMCRWWLock sys rww_no_preference)) s) (\<lambda>(_, l, s1).
       with_executor t (\<lambda>th. MCRWWLockTransition th RWWLockInit l) s1)"

text \<open>The three enqueue and the three lock handlers.\<close>

definition MCReadRWWLockOperation :: "rwwlock_op \<Rightarrow> tid \<Rightarrow> sysid \<Rightarrow> reader" where
  "MCReadRWWLockOperation k t sys s =
     bindR (find_or_undefined getRWWLock sys s) (\<lambda>l.
       guardR UndefinedBehavior (\<not> MCRWWLock_isDestroyed l)
         (with_executor t (\<lambda>th. MCRWWLockTransition th k l) s))"

definition MCReadRWWLockReaderEnqueue :: "tid \<Rightarrow> sysid \<Rightarrow> reader" where
  "MCReadRWWLockReaderEnqueue = MCReadRWWLockOperation RWWLockReaderEnqueue"

definition MCReadRWWLockReaderLock :: "tid \<Rightarrow> sysid \<Rightarrow> reader" where
  "MCReadRWWLockReaderLock = MCReadRWWLockOperation RWWLockReaderLock"

definition MCReadRWWLockWriter1Enqueue :: "tid \<Rightarrow> sysid \<Rightarrow> reader" where
  "MCReadRWWLockWriter1Enqueue = MCReadRWWLockOperation RWWLockWriter1Enqueue"

definition MCReadRWWLockWriter1Lock :: "tid \<Rightarrow> sysid \<Rightarrow> reader" where
  "MCReadRWWLockWriter1Lock = MCReadRWWLockOperation RWWLockWriter1Lock"

definition MCReadRWWLockWriter2Enqueue :: "tid \<Rightarrow> sysid \<Rightarrow> reader" where
  "MCReadRWWLockWriter2Enqueue = MCReadRWWLockOperation RWWLockWriter2Enqueue"

definition MCReadRWWLockWriter2Lock :: "tid \<Rightarrow> sysid \<Rightarrow> reader" where
  "MCReadRWWLockWriter2Lock = MCReadRWWLockOperation RWWLockWriter2Lock"

definition MCReadRWWLockUnlock :: "tid \<Rightarrow> sysid \<Rightarrow> reader" where
  "MCReadRWWLockUnlock t sys s =
     bindR (find_or_undefined getRWWLock sys s) (\<lambda>l.
       guardR UndefinedBehavior (\<not> MCRWWLock_isUnlocked l \<and> \<not> MCRWWLock_isDestroyed l)
         (with_executor t (\<lambda>th. MCRWWLockTransition th RWWLockUnlock l) s))"

section \<open>Global variables and process events\<close>

definition MCReadGlobalRead :: "tid \<Rightarrow> sysid \<Rightarrow> reader" where
  "MCReadGlobalRead t addr s =
     bindR (getThreadWithId s t) (\<lambda>th.
     bindR (find_or_register getGlobal addr (VGlobal (newMCGlobalVariable addr 0)) s) (\<lambda>(_, g, s1).
       Inr (s1, MCGlobalVariableTransition th GlobalRead g)))"

definition MCReadGlobalWrite :: "tid \<Rightarrow> sysid \<Rightarrow> u64 \<Rightarrow> reader" where
  "MCReadGlobalWrite t addr v s =
     bindR (getThreadWithId s t) (\<lambda>th.
     bindR (find_or_register getGlobal addr (VGlobal (newMCGlobalVariable addr 0)) s) (\<lambda>(_, g, s1).
       Inr (s1, MCGlobalVariableTransition th (GlobalWrite v) g)))"

definition MCReadAbortTransition :: "tid \<Rightarrow> reader" where
  "MCReadAbortTransition t = with_executor t MCAbortTransition"

definition MCReadExitTransition :: "tid \<Rightarrow> int \<Rightarrow> reader" where
  "MCReadExitTransition t exitCode = with_executor t (\<lambda>th. MCExitTransition th exitCode)"

definition MCReadProgressTransition :: "tid \<Rightarrow> reader" where
  "MCReadProgressTransition t = with_executor t MCProgressTransition"

section \<open>The table of handlers\<close>

definition read_operation :: "static_initializer \<Rightarrow> tid \<Rightarrow> visible_operation \<Rightarrow> reader" where
  "read_operation initialized t op = (case op of
      OpThreadStart \<Rightarrow> MCReadThreadStart t
    | OpThreadCreate arg routine sys \<Rightarrow> MCReadThreadCreate t arg routine sys
    | OpThreadJoin sys \<Rightarrow> MCReadThreadJoin t sys
    | OpThreadFinish \<Rightarrow> MCReadThreadFinish t
    | OpMutexInit sys \<Rightarrow> MCReadMutexInit t sys
    | OpMutexLock sys \<Rightarrow> MCReadMutexLock initialized t sys
    | OpMutexTrylock sys \<Rightarrow> MCReadMutexTrylock initialized t sys
    | OpMutexUnlock sys \<Rightarrow> MCReadMutexUnlock t sys
    | OpSemInit sys n \<Rightarrow> MCReadSemInit t sys n
    | OpSemPost sys \<Rightarrow> MCReadSemPost t sys
    | OpSemEnqueue sys \<Rightarrow> MCReadSemEnqueue t sys
    | OpSemWait sys \<Rightarrow> MCReadSemWait t sys
    | OpBarrierInit sys n \<Rightarrow> MCReadBarrierInit t sys n
    | OpBarrierEnqueue sys \<Rightarrow> MCReadBarrierEnqueue t sys
    | OpBarrierWait sys \<Rightarrow> MCReadBarrierWait t sys
    | OpCondInit sys \<Rightarrow> MCReadCondInit t sys
    | OpCondSignal sys \<Rightarrow> MCReadCondSignal initialized t sys
    | OpCondBroadcast sys \<Rightarrow> MCReadCondBroadcast initialized t sys
    | OpCondEnqueue sys m \<Rightarrow> MCReadCondEnqueue initialized t sys m
    | OpCondWait sys m \<Rightarrow> MCReadCondWait t sys m
    | OpRWLockInit sys \<Rightarrow> MCReadRWLockInit t sys
    | OpRWLockReaderEnqueue sys \<Rightarrow> MCReadRWLockReaderEnqueue t sys
    | OpRWLockReaderLock sys \<Rightarrow> MCReadRWLockReaderLock initialized t sys
    | OpRWLockWriterEnqueue sys \<Rightarrow> MCReadRWLockWriterEnqueue t sys
    | OpRWLockWriterLock sys \<Rightarrow> MCReadRWLockWriterLock initialized t sys
    | OpRWLockUnlock sys \<Rightarrow> MCReadRWLockUnlock t sys
    | OpRWWLockInit sys \<Rightarrow> MCReadRWWLockInit t sys
    | OpRWWLockReaderEnqueue sys \<Rightarrow> MCReadRWWLockReaderEnqueue t sys
    | OpRWWLockReaderLock sys \<Rightarrow> MCReadRWWLockReaderLock t sys
    | OpRWWLockWriter1Enqueue sys \<Rightarrow> MCReadRWWLockWriter1Enqueue t sys
    | OpRWWLockWriter1Lock sys \<Rightarrow> MCReadRWWLockWriter1Lock t sys
    | OpRWWLockWriter2Enqueue sys \<Rightarrow> MCReadRWWLockWriter2Enqueue t sys
    | OpRWWLockWriter2Lock sys \<Rightarrow> MCReadRWWLockWriter2Lock t sys
    | OpRWWLockUnlock sys \<Rightarrow> MCReadRWWLockUnlock t sys
    | OpGlobalRead addr \<Rightarrow> MCReadGlobalRead t addr
    | OpGlobalWrite addr v \<Rightarrow> MCReadGlobalWrite t addr v
    | OpAbort \<Rightarrow> MCReadAbortTransition t
    | OpExit code \<Rightarrow> MCReadExitTransition t code
    | OpProgress \<Rightarrow> MCReadProgressTransition t)"

section \<open>What a handler may change\<close>

text \<open>
  A handler adds objects and threads and writes object states; the search state (the stacks and the
  clocks) is left alone.
\<close>

named_theorems reader_frames "steps of the handlers that keep the search state"

lemma frame_find_or_register [reader_frames]:
  "find_or_register get sys fresh s = Inr (b, x, s') \<Longrightarrow> same_search s s'"
  by (auto simp: find_or_register_def registerVisibleObjectWithSystemIdentity_def same_search_def
      result_simps split: option.splits)

lemma frame_find_or_register_cond [reader_frames]:
  "find_or_register_cond sys s = Inr (b, x, s') \<Longrightarrow> same_search s s'"
  unfolding find_or_register_cond_def by (rule frame_find_or_register)

lemma frame_update_object [reader_frames]: "update_object i f s = Inr s' \<Longrightarrow> same_search s s'"
  by (auto simp: update_object_def same_search_def result_simps)

lemma frame_mark_initialized [reader_frames]: "mark_initialized c s = Inr s' \<Longrightarrow> same_search s s'"
  unfolding mark_initialized_def by (rule frame_update_object)

lemma frame_check_static_cond [reader_frames]:
  "check_static_cond initialized sys b c s = Inr s' \<Longrightarrow> same_search s s'"
  by (auto simp: check_static_cond_def result_simps dest: frame_mark_initialized split: if_splits)

lemma frame_set_rw_unlocked [reader_frames]: "set_rw_unlocked l s = Inr s' \<Longrightarrow> same_search s s'"
  unfolding set_rw_unlocked_def by (rule frame_update_object)

lemma frame_with_executor [reader_frames]: "with_executor t mk s = Inr (s', p) \<Longrightarrow> same_search s s'"
  by (auto simp: with_executor_def result_simps)

lemma frame_createNewThread: "createNewThread shadow s = Inr (t, s') \<Longrightarrow> same_search s s'"
  by (auto simp: createNewThread_def registerVisibleObjectWithSystemIdentity_def same_search_def
      result_simps Let_def map_le_def split: option.splits)

lemma frame_addNewThread [reader_frames]:
  assumes "addNewThread shadow s = Inr (t, s')"
  shows "same_search s s'"
proof -
  from assms obtain s1 where "createNewThread shadow s = Inr (t, s1)" and "same_search s1 s'"
    by (auto simp: addNewThread_def result_simps dest: setNext_frame)
  then show ?thesis using frame_createNewThread same_search_trans by blast
qed

lemma frame_find_or_addNewThread [reader_frames]:
  "find_or_addNewThread shadow s = Inr (t, s') \<Longrightarrow> same_search s s'"
  by (auto simp: find_or_addNewThread_def result_simps dest: frame_addNewThread split: option.splits)

lemma frame_mutex_to_lock [reader_frames]:
  "mutex_to_lock initialized sys s = Inr (m, s') \<Longrightarrow> same_search s s'"
  by (auto simp: mutex_to_lock_def result_simps split: if_splits
      dest!: frame_find_or_register frame_update_object elim: same_search_trans)

lemma read_operation_frame:
  assumes "read_operation initialized t op s = Inr (s', p)"
  shows "same_search s s'"
proof (cases op)
  case OpThreadStart
  then show ?thesis using assms by (simp add: read_operation_def MCReadThreadStart_def)
next
  case (OpBarrierWait x)
  then show ?thesis using assms
    by (auto simp: read_operation_def MCReadBarrierWait_def result_simps split: option.splits if_splits
        dest!: reader_frames elim: same_search_trans)
next
  case (OpCondEnqueue c m)
  then show ?thesis using assms
    by (auto simp: read_operation_def MCReadCondEnqueue_def result_simps split: option.splits
        dest!: reader_frames elim!: same_search_trans)
qed (use assms in \<open>auto simp: read_operation_def MCReadThreadCreate_def MCReadThreadJoin_def
    MCReadThreadFinish_def MCReadMutexInit_def MCReadMutexLock_def MCReadMutexTrylock_def
    MCReadMutexUnlock_def MCReadSemInit_def MCReadSemPost_def MCReadSemEnqueue_def MCReadSemWait_def
    MCReadBarrierInit_def MCReadBarrierEnqueue_def MCReadCondInit_def MCReadCondSignal_def
    MCReadCondBroadcast_def MCReadCondWait_def MCReadRWLockInit_def MCReadRWLockEnqueue_def
    MCReadRWLockLock_def MCReadRWLockUnlock_def MCReadRWWLockInit_def MCReadRWWLockOperation_def
    MCReadRWLockReaderEnqueue_def MCReadRWLockWriterEnqueue_def MCReadRWLockReaderLock_def
    MCReadRWLockWriterLock_def MCReadRWWLockReaderEnqueue_def MCReadRWWLockReaderLock_def MCReadRWWLockWriter1Enqueue_def
    MCReadRWWLockWriter1Lock_def MCReadRWWLockWriter2Enqueue_def MCReadRWWLockWriter2Lock_def
    MCReadRWWLockUnlock_def MCReadGlobalRead_def MCReadGlobalWrite_def MCReadAbortTransition_def
    MCReadExitTransition_def MCReadProgressTransition_def result_simps
    split: option.splits if_splits dest!: reader_frames elim: same_search_trans\<close>)

lemma frames_read_operation: "frames_search (read_operation initialized t op)"
  using read_operation_frame unfolding frames_search_def by blast

end
