(* ===== verification/Search.thy ===== *)
theory Search
  imports Replay ReadHandlers
begin

text \<open>
  The search (\<^verbatim>\<open>src/mcmini_private.cpp\<close>): \<^verbatim>\<open>mc_do_model_checking\<close>, \<^verbatim>\<open>mc_explore_branch\<close>,
  \<^verbatim>\<open>mc_search_dpor_branch_with_thread\<close> and the process control they use, and the schedule given by
  the user (\<^verbatim>\<open>getNextTraceSeqEntry\<close> in \<^verbatim>\<open>src/MCStack.cpp\<close>).

  The target program is a parameter: a fresh process that has run the schedule \<open>sched\<close> (thread ids in
  order) has stopped its last thread in front of the operation \<open>stops_at sched\<close>.  The process is
  represented by the schedule it has run since its \<^verbatim>\<open>fork\<close>, \<open>None\<close> when there is none
  (\<^verbatim>\<open>trace_pid == -1\<close>).  The search of this theory is the one without the livelock test
  (\<^verbatim>\<open>MCMINI_CHECK_FOR_LIVELOCK\<close> unset, see \<open>Livelock\<close>) and without \<^verbatim>\<open>mcmini back\<close> (\<^verbatim>\<open>mc_reset\<close>, set
  from the debugger, see \<open>Restarting\<close>); printing is left out, what is reported is kept in \<open>results\<close>.
\<close>

record target_program =
  stops_at :: "tid list \<Rightarrow> visible_operation"
  static_initializers :: "tid list \<Rightarrow> static_initializer"
  main_pthread :: sysid
  set_order :: iteration

text \<open>The environment variables and command line options the search reads.\<close>

record search_options =
  exploreRoundRobin :: bool
  continueAfterDataRace :: bool
  firstDeadlock :: bool
  traceSeq :: "int list option"
  quiet :: bool
  printBacktraceAtTraceNumber :: nat

datatype report = DataRaceDetected | DeadlockDetected | TruncatedTraceSeq | LivelockDetected

record search_state =
  programState :: mcstack
  traceId :: nat
  transitionId :: nat
  trace_process :: "tid list option"
  traceSeqIdx :: nat
  enabledTraceSeqIdx :: nat
  lastEndOfTraceId :: int
  results :: "(report \<times> nat) list"

text \<open>
  How a search stops: McMini exits with the results it has, exits or aborts with an error, or waits
  for ever for a target process that does not exist.
\<close>

datatype stop = Completed search_state | Aborted mc_error | Hangs

type_synonym 'a search = "stop + 'a"

definition liftR :: "'a result \<Rightarrow> 'a search" where
  "liftR r = (case r of Inl e \<Rightarrow> Inl (Aborted e) | Inr x \<Rightarrow> Inr x)"

lemma liftR_simps [simp]: "liftR (Inl e) = Inl (Aborted e)" "liftR (Inr x) = Inr x"
  by (simp_all add: liftR_def)

lemma liftR_eq_Inr [result_simps]: "liftR r = Inr x \<longleftrightarrow> r = Inr x"
  by (cases r) simp_all

section \<open>The schedule given by the user\<close>

text \<open>The array \<^verbatim>\<open>traceSeq\<close>: the numbers given, a -1, and zeros up to its size.\<close>

definition traceSeq_buflen :: nat where
  "traceSeq_buflen = 1000"

definition traceSeq_entry :: "int list \<Rightarrow> nat \<Rightarrow> int" where
  "traceSeq_entry sq i = (if i < length sq then sq ! i else if i = length sq then -1 else 0)"

definition traceSeqLength :: "search_options \<Rightarrow> nat" where
  "traceSeqLength opts = (case traceSeq opts of None \<Rightarrow> 0 | Some sq \<Rightarrow> length (takeWhile (\<lambda>x. x \<noteq> -1) sq))"

definition setEndOfTraceSeq :: "search_state \<Rightarrow> search_state" where
  "setEndOfTraceSeq st = st\<lparr>lastEndOfTraceId := int (traceId st)\<rparr>"

definition resetTraceSeqArray :: "search_state \<Rightarrow> search_state" where
  "resetTraceSeqArray st = st\<lparr>traceSeqIdx := 0\<rparr>"

definition getNextTraceSeqEntry :: "search_options \<Rightarrow> nat \<Rightarrow> search_state \<Rightarrow> (int \<times> search_state) search" where
  "getNextTraceSeqEntry opts index st =
     (if lastEndOfTraceId st = int (traceId st) then Inr (-1, st)
      else case traceSeq opts of
        None \<Rightarrow> Inr (-2, st)
      | Some sq \<Rightarrow>
          if lastEndOfTraceId st < int (traceId st) \<and> index < traceSeq_buflen \<and> traceSeq_entry sq index = -1
          then Inr (-1, setEndOfTraceSeq st)
          else guardR (Aborted OutOfBounds) (index < traceSeq_buflen) (Inr (traceSeq_entry sq index, st)))"

section \<open>The target process\<close>

definition mc_fork_new_trace :: "search_state \<Rightarrow> search_state search" where
  "mc_fork_new_trace st =
     guardR (Aborted AssertFailed) (trace_process st = None) (Inr (st\<lparr>trace_process := Some []\<rparr>))"

definition mc_run_thread_to_next_visible_operation :: "tid \<Rightarrow> search_state \<Rightarrow> search_state search" where
  "mc_run_thread_to_next_visible_operation t st =
     (case trace_process st of
        None \<Rightarrow> Inl Hangs
      | Some sched \<Rightarrow> Inr (st\<lparr>trace_process := Some (sched @ [t])\<rparr>))"

definition mc_fork_next_trace_at_current_state :: "search_state \<Rightarrow> search_state search" where
  "mc_fork_next_trace_at_current_state st =
     bindR (mc_fork_new_trace st)
       (foldR mc_run_thread_to_next_visible_operation (getThreadIdBacktrace (programState st)))"

definition mc_terminate_trace :: "search_state \<Rightarrow> search_state" where
  "mc_terminate_trace st = st\<lparr>trace_process := None\<rparr>"

text \<open>A result is added to the report once, with the trace it was first found in.\<close>

definition addResult :: "report \<Rightarrow> search_state \<Rightarrow> search_state" where
  "addResult r st =
     (if r \<in> fst ` set (results st) then st else st\<lparr>results := results st @ [(r, traceId st)]\<rparr>)"

section \<open>One iteration of the search loop\<close>

text \<open>The thread runs in the target, then its transition is run in the model.\<close>

definition runTransition ::
  "target_program \<Rightarrow> search_options \<Rightarrow> transition \<Rightarrow> search_state \<Rightarrow> search_state search" where
  "runTransition prog opts t st =
     bindR (mc_run_thread_to_next_visible_operation (getThreadId t) st) (\<lambda>st1.
     bindR (getNextTraceSeqEntry opts (enabledTraceSeqIdx st1)
              (st1\<lparr>enabledTraceSeqIdx := enabledTraceSeqIdx st1 + 1\<rparr>)) (\<lambda>(entry, st2).
     let sched = the (trace_process st2) in
     bindR (liftR (simulateRunningTransition entry t
              (read_operation (static_initializers prog sched) (getThreadId t) (stops_at prog sched))
              (programState st2))) (\<lambda>s.
       Inr (st2\<lparr>programState := s\<rparr>))))"

definition checkDataRace :: "search_options \<Rightarrow> tid \<Rightarrow> search_state \<Rightarrow> search_state search" where
  "checkDataRace opts t st =
     bindR (liftR (bindR (getNextTransitionForThread (programState st) t)
              (hasADataRaceWithNewTransition (programState st)))) (\<lambda>race.
       if race then
         let st' = (if quiet opts then st else addResult DataRaceDetected st) in
         if continueAfterDataRace opts then Inr st'
         else Inl (Completed (st'\<lparr>traceId := traceId st' + 1\<rparr>))
       else Inr st)"

definition isProgressTransition :: "transition \<Rightarrow> bool" where
  "isProgressTransition t \<longleftrightarrow> (case t of MCProgressTransition _ \<Rightarrow> True | _ \<Rightarrow> False)"

definition chooseNextTransition ::
  "search_options \<Rightarrow> transition \<Rightarrow> search_state \<Rightarrow> (transition option \<times> search_state) search" where
  "chooseNextTransition opts t st =
     bindR (getNextTraceSeqEntry opts (traceSeqIdx st) (st\<lparr>traceSeqIdx := traceSeqIdx st + 1\<rparr>))
       (\<lambda>(entry, st1).
     bindR (liftR
       (if isProgressTransition t
        then getNextFairTransition entry (of_nat (getThreadId t) - 1) (programState st1)
        else if exploreRoundRobin opts
        then getNextFairTransition entry (of_nat (getThreadId t)) (programState st1)
        else getFirstEnabledTransition entry (programState st1))) (\<lambda>nxt.
       Inr (nxt, st1)))"

text \<open>The block of the loop that ends a trace, taken when there is nothing to run or a given
  schedule has run into a deadlock.\<close>

definition finishTrace ::
  "search_options \<Rightarrow> transition option \<Rightarrow> search_state \<Rightarrow> (transition option \<times> search_state) search" where
  "finishTrace opts nxt st =
     bindR (liftR (if nxt = None then Inr True
              else if traceSeqLength opts > 0 then isInDeadlock (programState st) else Inr False)) (\<lambda>ends.
     if \<not> ends then Inr (nxt, st)
     else
       bindR (liftR (isInDeadlock (programState st))) (\<lambda>hasDeadlock.
       let st1 = (if hasDeadlock \<and> nxt \<noteq> None then addResult TruncatedTraceSeq st else st);
           nxt1 = (if hasDeadlock \<and> nxt \<noteq> None then None else nxt);
           st2 = (if hasDeadlock then addResult DeadlockDetected st1 else st1) in
       if hasDeadlock \<and> firstDeadlock opts
       then Inl (Completed (st2\<lparr>traceId := traceId st2 + 1\<rparr>))
       else Inr (nxt1, mc_terminate_trace st2)))"

definition searchIteration ::
  "target_program \<Rightarrow> search_options \<Rightarrow> transition \<Rightarrow> search_state \<Rightarrow>
     (transition option \<times> search_state) search" where
  "searchIteration prog opts t st =
     bindR (runTransition prog opts t (st\<lparr>transitionId := transitionId st + 1\<rparr>)) (\<lambda>st1.
     bindR (liftR (dynamicallyUpdateBacktrackSets (set_order prog) (programState st1))) (\<lambda>s.
     bindR (checkDataRace opts (getThreadId t) (st1\<lparr>programState := s\<rparr>)) (\<lambda>st2.
     bindR (chooseNextTransition opts t st2) (\<lambda>(nxt, st3).
       finishTrace opts nxt st3))))"

section \<open>Branches\<close>

text \<open>
  \<open>remaining\<close> counts the iterations left below the depth limit, at which the loop stops McMini.
\<close>

fun searchLoop ::
  "target_program \<Rightarrow> search_options \<Rightarrow> nat \<Rightarrow> transition \<Rightarrow> search_state \<Rightarrow> search_state search" where
  "searchLoop prog opts 0 t st = Inl (Aborted StopModelChecking)"
| "searchLoop prog opts (Suc remaining) t st =
     bindR (searchIteration prog opts t st) (\<lambda>(nxt, st').
       case nxt of None \<Rightarrow> Inr st' | Some t' \<Rightarrow> searchLoop prog opts remaining t' st')"

text \<open>What \<^verbatim>\<open>mc_search_dpor_branch_with_thread\<close> does before its loop.\<close>

definition beginSearch :: "search_options \<Rightarrow> tid \<Rightarrow> search_state \<Rightarrow> (transition \<times> search_state) search" where
  "beginSearch opts backtrackThread st =
     bindR (if traceId st \<ge> 1 \<and> traceSeq opts \<noteq> None
            then if length (transitionStack (programState st)) < traceSeqLength opts
                 then Inl (Completed st) else Inr (setEndOfTraceSeq st)
            else Inr st) (\<lambda>st1.
     bindR (liftR (getNextTransitionForThread (programState st1) backtrackThread)) (\<lambda>t.
       Inr (t, st1)))"

definition mc_search_dpor_branch_with_thread ::
  "target_program \<Rightarrow> search_options \<Rightarrow> tid \<Rightarrow> search_state \<Rightarrow> search_state search" where
  "mc_search_dpor_branch_with_thread prog opts backtrackThread st =
     (let depth = length (transitionStack (programState st)) in
      bindR (beginSearch opts backtrackThread st) (\<lambda>(t, st1).
        searchLoop prog opts (MC_STATE_CONFIG_MAX_TRANSITIONS_DEPTH_LIMIT_DEFAULT - depth) t st1))"

definition FIRST_BRANCH :: int where
  "FIRST_BRANCH = -1"

text \<open>
  The thread to run and the state to run it from.  A branch point at state 0 would make the code go
  back to index -1; no search reaches that (\<open>never_back_to_the_start\<close>).
\<close>

definition prepareBranch :: "int \<Rightarrow> search_state \<Rightarrow> (tid \<times> search_state) search" where
  "prepareBranch curBranchPoint st =
     (if curBranchPoint = FIRST_BRANCH
      then bindR (mc_fork_new_trace st) (\<lambda>st1. Inr (TID_MAIN_THREAD, st1))
      else
        let s = programState st; b = nat curBranchPoint in
        guardR (Aborted OutOfBounds) (0 \<le> curBranchPoint \<and> b < length (stateStack s))
        (bindR (liftR (popThreadToBacktrackOn (stateStack s ! b))) (\<lambda>(backtrackThread, item).
         guardR (Aborted OutOfBounds) (b \<noteq> 0)
         (bindR (liftR (reflectStateAtTransitionIndex (b - 1) (s\<lparr>stateStack := (stateStack s)[b := item]\<rparr>))) (\<lambda>s1.
          bindR (mc_fork_next_trace_at_current_state (st\<lparr>programState := s1\<rparr>)) (\<lambda>st1.
            Inr (backtrackThread, st1)))))))"

definition finishBranch :: "search_options \<Rightarrow> search_state \<Rightarrow> (int \<times> search_state) search" where
  "finishBranch opts st =
     (if traceId st = printBacktraceAtTraceNumber opts
      then Inl (Completed (st\<lparr>traceId := traceId st + 1\<rparr>))
      else let st1 = resetTraceSeqArray (st\<lparr>traceId := traceId st + 1\<rparr>) in
           Inr (getDeepestDPORBranchPoint (programState st1), st1))"

definition mc_explore_branch ::
  "target_program \<Rightarrow> search_options \<Rightarrow> int \<Rightarrow> search_state \<Rightarrow> (int \<times> search_state) search" where
  "mc_explore_branch prog opts curBranchPoint st =
     bindR (prepareBranch curBranchPoint st) (\<lambda>(backtrackThread, st1).
     bindR (mc_search_dpor_branch_with_thread prog opts backtrackThread st1) (finishBranch opts))"

section \<open>The whole search\<close>

definition mc_prepare_to_model_check_new_program :: "sysid \<Rightarrow> mcstack \<Rightarrow> mcstack result" where
  "mc_prepare_to_model_check_new_program self s =
     bindR (createMainThread self s) (\<lambda>(_, s1).
     bindR (getThreadWithId s1 TID_MAIN_THREAD) (\<lambda>mainThread.
       setNextTransitionForThread TID_MAIN_THREAD (createInitialTransitionForThread mainThread) s1))"

text \<open>The state \<^verbatim>\<open>mc_create_global_state_object\<close> builds, prepared for the target program.\<close>

definition initialSearch :: "target_program \<Rightarrow> stack_configuration \<Rightarrow> search_state search" where
  "initialSearch prog cfg =
     bindR (liftR (bindR (growStateStack (newMCStack cfg))
              (mc_prepare_to_model_check_new_program (main_pthread prog)))) (\<lambda>s.
       Inr \<lparr>programState = s, traceId = 0, transitionId = 0, trace_process = None, traceSeqIdx = 1,
            enabledTraceSeqIdx = 1, lastEndOfTraceId = -1, results = []\<rparr>)"

text \<open>
  The \<^verbatim>\<open>while\<close> loop of \<^verbatim>\<open>mc_do_model_checking\<close>, which asks for the deepest branch point itself;
  \<open>None\<close> would be a loop that does not end.
\<close>

partial_function (option) exploreBranches ::
  "target_program \<Rightarrow> search_options \<Rightarrow> int \<Rightarrow> search_state \<Rightarrow> search_state search option" where
  "exploreBranches prog opts nextBranchPoint st =
     (if nextBranchPoint = FIRST_BRANCH then Some (Inr st)
      else case mc_explore_branch prog opts nextBranchPoint st of
          Inl e \<Rightarrow> Some (Inl e)
        | Inr (_, st') \<Rightarrow> exploreBranches prog opts (getDeepestDPORBranchPoint (programState st')) st')"

declare exploreBranches.simps [code]

definition mc_do_model_checking ::
  "target_program \<Rightarrow> search_options \<Rightarrow> stack_configuration \<Rightarrow> search_state search option" where
  "mc_do_model_checking prog opts cfg =
     (case initialSearch prog cfg of Inl e \<Rightarrow> Some (Inl e)
      | Inr st \<Rightarrow>
          (case mc_explore_branch prog opts FIRST_BRANCH st of Inl e \<Rightarrow> Some (Inl e)
           | Inr (nextBranchPoint, st') \<Rightarrow> exploreBranches prog opts nextBranchPoint st'))"

end
