(* ===== verification/Exploration.thy ===== *)
theory Exploration
  imports Search
begin

text \<open>
  What holds throughout the search: the invariants of the stacks, the agreement of the model with
  the target process, and the termination of \<^verbatim>\<open>mc_do_model_checking\<close>.
\<close>

section \<open>The pieces of one iteration\<close>

lemma traceSeqEntry_keeps:
  assumes "getNextTraceSeqEntry opts i st = Inr (e, st')"
  shows "programState st' = programState st" and "trace_process st' = trace_process st"
    and "traceId st' = traceId st"
  using assms
  by (auto simp: getNextTraceSeqEntry_def setEndOfTraceSeq_def result_simps
      split: if_splits option.splits)

lemma runTransition_cases:
  assumes "runTransition prog opts t st = Inr st'"
  obtains sched entry handler where "trace_process st = Some sched" and "frames_search handler"
    and "handler = read_operation (static_initializers prog (sched @ [getThreadId t])) (getThreadId t)
          (stops_at prog (sched @ [getThreadId t]))"
    and "simulateRunningTransition entry t handler (programState st) = Inr (programState st')"
    and "trace_process st' = Some (sched @ [getThreadId t])"
proof -
  let ?p = "getThreadId t"
  from assms obtain st1 entry st2 s where
    st1: "mc_run_thread_to_next_visible_operation ?p st = Inr st1"
    and st2: "getNextTraceSeqEntry opts (enabledTraceSeqIdx st1)
      (st1\<lparr>enabledTraceSeqIdx := enabledTraceSeqIdx st1 + 1\<rparr>) = Inr (entry, st2)"
    and s: "simulateRunningTransition entry t
      (read_operation (static_initializers prog (the (trace_process st2))) ?p
        (stops_at prog (the (trace_process st2)))) (programState st2) = Inr s"
    and st': "st' = st2\<lparr>programState := s\<rparr>"
    by (auto simp: runTransition_def Let_def result_simps)
  from st1 obtain sched where sched: "trace_process st = Some sched"
    and st1': "st1 = st\<lparr>trace_process := Some (sched @ [?p])\<rparr>"
    by (auto simp: mc_run_thread_to_next_visible_operation_def split: option.splits)
  have same: "programState st2 = programState st" "trace_process st2 = Some (sched @ [?p])"
    using traceSeqEntry_keeps [OF st2] st1' by simp_all
  show ?thesis
    by (rule that [OF sched frames_read_operation refl]) (use s same st' in simp_all)
qed

lemma addResult_keeps [simp]:
  "programState (addResult r st) = programState st"
  "trace_process (addResult r st) = trace_process st"
  by (simp_all add: addResult_def)

lemma terminate_keeps [simp]:
  "programState (mc_terminate_trace st) = programState st"
  "trace_process (mc_terminate_trace st) = None"
  by (simp_all add: mc_terminate_trace_def)

lemma terminate_no_process: "mc_terminate_trace st = st' \<Longrightarrow> trace_process st' = None"
  by auto

lemma checkDataRace_keeps:
  assumes "checkDataRace opts t st = Inr st'"
  shows "programState st' = programState st" and "trace_process st' = trace_process st"
  using assms by (auto simp: checkDataRace_def Let_def result_simps split: if_splits)

lemma chooseNext_keeps:
  assumes "chooseNextTransition opts t st = Inr (nxt, st')"
  shows "programState st' = programState st" and "trace_process st' = trace_process st"
  using assms by (auto simp: chooseNextTransition_def result_simps dest: traceSeqEntry_keeps)

lemma finishTrace_keeps:
  assumes "finishTrace opts nxt st = Inr (nxt', st')"
  shows "programState st' = programState st"
    and "trace_process st' = (if nxt' = None then None else trace_process st)"
    and "nxt' \<noteq> None \<Longrightarrow> nxt' = nxt"
  using assms
  by (auto simp: finishTrace_def Let_def result_simps split: if_splits dest: terminate_no_process)

lemma searchIteration_cases:
  assumes "searchIteration prog opts t st = Inr (nxt, st')"
  obtains sched entry initialized op s1 where "trace_process st = Some sched"
    and "simulateRunningTransition entry t (read_operation initialized (getThreadId t) op)
      (programState st) = Inr s1"
    and "dynamicallyUpdateBacktrackSets (set_order prog) s1 = Inr (programState st')"
    and "trace_process st' = (if nxt = None then None else Some (sched @ [getThreadId t]))"
proof -
  from assms obtain st1 s st2 st3 nxt0 where
    st1: "runTransition prog opts t (st\<lparr>transitionId := transitionId st + 1\<rparr>) = Inr st1"
    and s: "dynamicallyUpdateBacktrackSets (set_order prog) (programState st1) = Inr s"
    and st2: "checkDataRace opts (getThreadId t) (st1\<lparr>programState := s\<rparr>) = Inr st2"
    and st3: "chooseNextTransition opts t st2 = Inr (nxt0, st3)"
    and st': "finishTrace opts nxt0 st3 = Inr (nxt, st')"
    by (auto simp: searchIteration_def result_simps)
  have ps: "programState st' = s"
    using finishTrace_keeps(1) [OF st'] chooseNext_keeps(1) [OF st3] checkDataRace_keeps(1) [OF st2]
    by simp
  have tr: "trace_process st' = (if nxt = None then None else trace_process st1)"
    using finishTrace_keeps(2) [OF st'] chooseNext_keeps(2) [OF st3] checkDataRace_keeps(2) [OF st2]
    by simp
  from st1 show ?thesis
  proof (cases rule: runTransition_cases)
    case (1 sched entry handler)
    then show ?thesis using s ps tr by (auto intro: that)
  qed
qed

section \<open>The invariant of the stacks\<close>

definition search_ok :: "mcstack \<Rightarrow> bool" where
  "search_ok s \<longleftrightarrow> clocks_ok s \<and> items_ok s \<and> irreversible_ok s
     \<and> backtrackSet (stateStack s ! 0) = {}
     \<and> length (transitionStack s) \<le> MC_STATE_CONFIG_MAX_TRANSITIONS_DEPTH_LIMIT_DEFAULT"

text \<open>The model has run what the target has run.\<close>

definition in_step :: "search_state \<Rightarrow> bool" where
  "in_step st \<longleftrightarrow> trace_process st = Some (getThreadIdBacktrace (programState st))"

text \<open>Items are only added, and a thread once searched stays searched.\<close>

definition done_grows :: "mcstack \<Rightarrow> mcstack \<Rightarrow> bool" where
  "done_grows s s' \<longleftrightarrow> length (stateStack s) \<le> length (stateStack s')
     \<and> (\<forall>j < length (stateStack s). doneSet (stateStack s ! j) \<subseteq> doneSet (stateStack s' ! j))"

lemma done_grows_refl [intro]: "done_grows s s"
  by (simp add: done_grows_def)

lemma done_grows_trans: "done_grows s s' \<Longrightarrow> done_grows s' s'' \<Longrightarrow> done_grows s s''"
  unfolding done_grows_def by (meson dual_order.trans order_less_le_trans)

lemma doneSet_departed [simp]: "doneSet (departed_item t en it) = insert t (doneSet it)"
  and backtrackSet_departed [simp]: "backtrackSet (departed_item t en it) = backtrackSet it - {t}"
  by (simp_all add: departed_item_def stack_item_defs)

lemma simulate_search_ok:
  assumes "simulateRunningTransition entry t handler s = Inr s'" and "frames_search handler"
    and "search_ok s"
  shows "search_ok s'" and "done_grows s s'"
    and "getThreadIdBacktrace s' = getThreadIdBacktrace s @ [getThreadId t]"
    and "length (stateStack s') = Suc (length (stateStack s))"
proof -
  have inv: "clocks_ok s'" "items_ok s'" "irreversible_ok s'"
    using assms clocks_ok_simulate items_ok_simulate irreversible_ok_simulate
    by (auto simp: search_ok_def)
  from assms(1,2) show "search_ok s'" and "done_grows s s'"
    and "getThreadIdBacktrace s' = getThreadIdBacktrace s @ [getThreadId t]"
    and "length (stateStack s') = Suc (length (stateStack s))"
  proof (atomize (full), cases rule: simulateRunningTransition_cases)
    case (1 en sl)
    from 1(2) obtain its it where st: "stateStack s = its @ [it]"
      by (cases "stateStack s" rule: rev_cases) auto
    have "backtrackSet (stateStack s' ! 0) \<subseteq> backtrackSet (stateStack s ! 0)"
      using 1(5) by (cases its) (auto simp: st)
    moreover have "doneSet (stateStack s ! j) \<subseteq> doneSet (stateStack s' ! j)"
      if "j < length (stateStack s)" for j
      using that 1(5) by (auto simp: st nth_append nth_Cons' less_Suc_eq)
    ultimately show "(search_ok s' \<and> done_grows s s') \<and>
        getThreadIdBacktrace s' = getThreadIdBacktrace s @ [getThreadId t] \<and>
        length (stateStack s') = Suc (length (stateStack s))"
      using assms(3) inv 1(1,4,5)
      by (auto simp: search_ok_def done_grows_def getThreadIdBacktrace_def getThreadId_staticCopy st)
  qed
qed


lemma update_search_ok:
  assumes "dynamicallyUpdateBacktrackSets iter s = Inr s'" and "iteration_order iter" and "search_ok s"
  shows "search_ok s'" and "done_grows s s'" and "getThreadIdBacktrace s' = getThreadIdBacktrace s"
    and "length (stateStack s') = length (stateStack s)"
proof -
  have "length (transitionStack s) \<le> length (stateStack s)" "items_ok s"
    using assms(3) by (simp_all add: search_ok_def clocks_ok_def)
  then have upd: "only_backtracking s s'" using update_only_backtracking [OF assms(1,2)] by simp
  then have same: "same_but_backtracking s s'" by (simp add: only_backtracking_def)
  note f = same_but_backtracking_fields [OF same]
  show len: "length (stateStack s') = length (stateStack s)" by (rule only_backtracking_length [OF upd])
  show "search_ok s'"
    using assms(3) upd f(1) invariants_same_but_backtracking [OF same]
    by (simp add: search_ok_def only_backtracking_def)
  have "doneSet (stateStack s' ! j) = doneSet (stateStack s ! j)" if "j < length (stateStack s)" for j
    using that len arg_cong [OF f(10), of "\<lambda>l. l ! j"] by simp
  then show "done_grows s s'" using len by (simp add: done_grows_def)
  show "getThreadIdBacktrace s' = getThreadIdBacktrace s" using f(1) by (simp add: getThreadIdBacktrace_def)
qed

lemma iteration_ok:
  assumes "searchIteration prog opts t st = Inr (nxt, st')" and "iteration_order (set_order prog)"
    and "search_ok (programState st)"
  shows "search_ok (programState st')" and "done_grows (programState st) (programState st')"
    and "in_step st \<Longrightarrow> nxt \<noteq> None \<Longrightarrow> in_step st'"
    and "nxt = None \<Longrightarrow> trace_process st' = None"
    and "length (stateStack (programState st')) = Suc (length (stateStack (programState st)))"
proof -
  from assms(1) obtain sched entry initialized op s1 where
    1: "trace_process st = Some sched"
      "simulateRunningTransition entry t (read_operation initialized (getThreadId t) op)
        (programState st) = Inr s1"
      "dynamicallyUpdateBacktrackSets (set_order prog) s1 = Inr (programState st')"
      "trace_process st' = (if nxt = None then None else Some (sched @ [getThreadId t]))"
    by (rule searchIteration_cases)
  note sim = simulate_search_ok [OF 1(2) frames_read_operation assms(3)]
  note upd = update_search_ok [OF 1(3) assms(2) sim(1)]
  show "search_ok (programState st')" "done_grows (programState st) (programState st')"
    "length (stateStack (programState st')) = Suc (length (stateStack (programState st)))"
    "nxt = None \<Longrightarrow> trace_process st' = None"
    using 1(4) sim upd done_grows_trans by auto
  show "in_step st'" if "in_step st" "nxt \<noteq> None"
    using that 1(1,4) sim(3) upd(3) by (simp add: in_step_def)
qed

section \<open>Going to the next branch\<close>

lemma run_schedule:
  "trace_process st = Some sched \<Longrightarrow>
   foldR mc_run_thread_to_next_visible_operation ts st = Inr (st\<lparr>trace_process := Some (sched @ ts)\<rparr>)"
proof (induction ts arbitrary: st sched)
  case Nil
  then show ?case by simp
next
  case (Cons t ts)
  then show ?case
    using Cons.IH [of "st\<lparr>trace_process := Some (sched @ [t])\<rparr>" "sched @ [t]"]
    by (simp add: mc_run_thread_to_next_visible_operation_def)
qed

lemma fork_next_trace:
  "mc_fork_next_trace_at_current_state st =
     (if trace_process st = None
      then Inr (st\<lparr>trace_process := Some (getThreadIdBacktrace (programState st))\<rparr>)
      else Inl (Aborted AssertFailed))"
  using run_schedule [of "st\<lparr>trace_process := Some []\<rparr>" "[]"]
  by (cases "trace_process st")
     (simp_all add: mc_fork_next_trace_at_current_state_def mc_fork_new_trace_def)

text \<open>The state a branch starts from: the branch point, with its thread searched.\<close>

lemma prepareBranch_cases:
  assumes "prepareBranch b st = Inr (t, st')" and "b \<noteq> FIRST_BRANCH"
  obtains item s1 where "0 < b" and "nat b < length (stateStack (programState st))"
    and "popThreadToBacktrackOn (stateStack (programState st) ! nat b) = Inr (t, item)"
    and "reflectStateAtTransitionIndex (nat b - 1) ((programState st)\<lparr>stateStack :=
           (stateStack (programState st))[nat b := item]\<rparr>) = Inr s1"
    and "trace_process st = None"
    and "st' = st\<lparr>programState := s1, trace_process := Some (getThreadIdBacktrace s1)\<rparr>"
  using assms
  by (auto simp: prepareBranch_def Let_def result_simps fork_next_trace split: if_splits)

lemma search_ok_popped:
  assumes "search_ok s" and "popThreadToBacktrackOn (stateStack s ! b) = Inr (t, item)"
    and "b \<noteq> 0" and "b < length (stateStack s)"
  shows "search_ok (s\<lparr>stateStack := (stateStack s)[b := item]\<rparr>)"
proof -
  have wf: "item_wf (stateStack s ! b)" using assms(1,4) by (simp add: search_ok_def items_ok_def)
  note pop = pop_spec [OF wf assms(2)]
  have items: "items_ok (s\<lparr>stateStack := (stateStack s)[b := item]\<rparr>)"
    using assms(1) pop(9) set_update_subset_insert [of "stateStack s" b item]
    by (auto simp: items_ok_def search_ok_def)
  have "map clockVector ((stateStack s)[b := item]) = map clockVector (stateStack s)"
    using pop(8) assms(4) by (simp add: map_update list_update_same_conv)
  then have "clocks_ok (s\<lparr>stateStack := (stateStack s)[b := item]\<rparr>)"
    using assms(1) by (simp add: search_ok_def clocks_ok_def map_tl)
  then show ?thesis
    using assms(1,3) items by (simp add: search_ok_def irreversible_ok_def)
qed

lemma branch_ok:
  assumes "prepareBranch b st = Inr (t, st')" and "b \<noteq> FIRST_BRANCH"
    and "search_ok (programState st)"
  shows "search_ok (programState st')" and "in_step st'"
    and "length (stateStack (programState st')) = Suc (nat b)"
    and "\<forall>j < nat b. doneSet (stateStack (programState st') ! j) = doneSet (stateStack (programState st) ! j)"
    and "doneSet (stateStack (programState st') ! nat b)
      = insert t (doneSet (stateStack (programState st) ! nat b))"
    and "t \<in> backtrackSet (stateStack (programState st) ! nat b)"
    and "t \<notin> doneSet (stateStack (programState st) ! nat b)"
proof -
  from assms(1,2) obtain item s1 where
    1: "0 < b" "nat b < length (stateStack (programState st))"
      "popThreadToBacktrackOn (stateStack (programState st) ! nat b) = Inr (t, item)"
      "reflectStateAtTransitionIndex (nat b - 1) ((programState st)\<lparr>stateStack :=
           (stateStack (programState st))[nat b := item]\<rparr>) = Inr s1"
      "trace_process st = None"
      "st' = st\<lparr>programState := s1, trace_process := Some (getThreadIdBacktrace s1)\<rparr>"
    by (rule prepareBranch_cases)
  let ?s = "programState st"
  let ?popped = "?s\<lparr>stateStack := (stateStack ?s)[nat b := item]\<rparr>"
  have wf: "item_wf (stateStack ?s ! nat b)"
    using assms(3) 1(2) by (simp add: search_ok_def items_ok_def)
  note pop = pop_spec [OF wf 1(3)]
  have "nat b \<noteq> 0" using 1(1) by simp
  then have ok: "search_ok ?popped" using search_ok_popped [OF assms(3) 1(3)] 1(2) by simp
  note st = reflect_stacks [OF 1(4)]
  have len: "length (stateStack s1) = Suc (nat b)"
    using st(3) 1(1,2) by (simp add: min_def)
  have "backtrackSet (stateStack s1 ! 0) = {}"
    using ok st(3) 1(1,2) by (simp add: search_ok_def)
  then have "search_ok s1"
    using ok clocks_ok_reflect [OF 1(4)] items_ok_reflect [OF 1(4)] irreversible_ok_reflect [OF 1(4)]
      st(2) by (auto simp: search_ok_def)
  moreover have "\<forall>j \<le> nat b. stateStack s1 ! j = (stateStack ?s)[nat b := item] ! j"
    using st(3) 1(1,2) by simp
  ultimately show "search_ok (programState st')" "in_step st'"
    "length (stateStack (programState st')) = Suc (nat b)"
    "\<forall>j < nat b. doneSet (stateStack (programState st') ! j) = doneSet (stateStack ?s ! j)"
    "doneSet (stateStack (programState st') ! nat b) = insert t (doneSet (stateStack ?s ! nat b))"
    "t \<in> backtrackSet (stateStack ?s ! nat b)" "t \<notin> doneSet (stateStack ?s ! nat b)"
    using 1(2,6) len pop(1,3,5) by (simp_all add: in_step_def)
qed

lemma branch_transitions:
  assumes "prepareBranch b st = Inr (t, st')" and "b \<noteq> FIRST_BRANCH"
  shows "transitionStack (programState st') = take (nat b) (transitionStack (programState st))"
proof -
  from assms obtain item s1 where b: "0 < b" and refl: "reflectStateAtTransitionIndex (nat b - 1)
      ((programState st)\<lparr>stateStack := (stateStack (programState st))[nat b := item]\<rparr>) = Inr s1"
    and st': "st' = st\<lparr>programState := s1, trace_process := Some (getThreadIdBacktrace s1)\<rparr>"
    by (rule prepareBranch_cases)
  from reflect_stacks(2) [OF refl] b show ?thesis by (simp add: st')
qed

section \<open>Reachable states of the search\<close>

text \<open>
  A state of the search with the transition it is about to run, \<open>None\<close> at the end of a trace.  The
  clauses are the calls \<^verbatim>\<open>mc_do_model_checking\<close> makes.
\<close>

inductive reachable ::
  "target_program \<Rightarrow> search_options \<Rightarrow> stack_configuration \<Rightarrow> transition option \<times> search_state \<Rightarrow> bool"
  for prog opts cfg where
  start: "initialSearch prog cfg = Inr st \<Longrightarrow> prepareBranch FIRST_BRANCH st = Inr (p, st1) \<Longrightarrow>
    beginSearch opts p st1 = Inr (t, st2) \<Longrightarrow> reachable prog opts cfg (Some t, st2)"
| iterate: "reachable prog opts cfg (Some t, st) \<Longrightarrow> searchIteration prog opts t st = Inr r \<Longrightarrow>
    reachable prog opts cfg r"
| next_branch: "reachable prog opts cfg (None, st) \<Longrightarrow> finishBranch opts st = Inr (b, st1) \<Longrightarrow>
    b \<noteq> FIRST_BRANCH \<Longrightarrow> prepareBranch b st1 = Inr (p, st2) \<Longrightarrow> beginSearch opts p st2 = Inr (t, st3) \<Longrightarrow>
    reachable prog opts cfg (Some t, st3)"

inductive_simps reachable_iff: "reachable prog opts cfg (nxt, st)"

lemma beginSearch_keeps:
  assumes "beginSearch opts p st = Inr (t, st')"
  shows "programState st' = programState st" and "trace_process st' = trace_process st"
    and "getNextTransitionForThread (programState st) p = Inr t"
  using assms by (auto simp: beginSearch_def setEndOfTraceSeq_def result_simps split: if_splits)

lemma finishBranch_keeps:
  assumes "finishBranch opts st = Inr (b, st')"
  shows "programState st' = programState st" and "trace_process st' = trace_process st"
    and "b = getDeepestDPORBranchPoint (programState st)"
  using assms by (auto simp: finishBranch_def resetTraceSeqArray_def Let_def split: if_splits)

lemma initial_ok:
  assumes "initialSearch prog cfg = Inr st"
  shows "search_ok (programState st)" and "trace_process st = None"
    and "transitionStack (programState st) = []"
    and "stateStack (programState st) = [newStackItem newEmptyClockVector False]"
proof -
  from assms obtain s0 s1 p s2 th where
    s0: "growStateStack (newMCStack cfg) = Inr s0"
    and s1: "createMainThread (main_pthread prog) s0 = Inr (p, s1)"
    and th: "getThreadWithId s1 TID_MAIN_THREAD = Inr th"
    and s2: "setNextTransitionForThread TID_MAIN_THREAD (createInitialTransitionForThread th) s1 = Inr s2"
    and st: "st = \<lparr>programState = s2, traceId = 0, transitionId = 0, trace_process = None,
      traceSeqIdx = 1, enabledTraceSeqIdx = 1, lastEndOfTraceId = -1, results = []\<rparr>"
    by (auto simp: initialSearch_def mc_prepare_to_model_check_new_program_def result_simps)
  have "same_search s0 s1"
    using s1 by (auto simp: createMainThread_def result_simps dest: frame_createNewThread)
  then have "same_search s0 s2" using setNext_frame [OF s2] same_search_trans by blast
  moreover have "transitionStack s0 = []" "irreversibleStatesStack s0 = []"
    "stateStack s0 = [newStackItem newEmptyClockVector False]"
    using s0 by (auto simp: growStateStack_def growStateStackWith_def newMCStack_def result_simps)
  ultimately have s: "transitionStack s2 = []" "irreversibleStatesStack s2 = []"
    "stateStack s2 = [newStackItem newEmptyClockVector False]"
    by (simp_all add: same_search_def)
  then show "transitionStack (programState st) = []"
    "stateStack (programState st) = [newStackItem newEmptyClockVector False]"
    "trace_process st = None"
    by (simp_all add: st)
  show "search_ok (programState st)"
    using s by (auto simp: st search_ok_def clocks_ok_def items_ok_def irreversible_ok_def
        trace.clocked_def newStackItem_def item_wf_def)
qed

lemma first_branch_ok:
  assumes "initialSearch prog cfg = Inr st" and "prepareBranch FIRST_BRANCH st = Inr (p, st1)"
  shows "search_ok (programState st1)" and "in_step st1" and "programState st1 = programState st"
  using initial_ok [OF assms(1)] assms(2)
  by (auto simp: prepareBranch_def mc_fork_new_trace_def result_simps in_step_def getThreadIdBacktrace_def)

text \<open>The model and the target have run the same schedule whenever a transition is about to run, and
  there is no target process between traces.\<close>

lemma reachable_ok:
  assumes "reachable prog opts cfg (nxt, st)" and "iteration_order (set_order prog)"
  shows "search_ok (programState st) \<and> (if nxt = None then trace_process st = None else in_step st)"
  using assms(1)
proof (induction "(nxt, st)" arbitrary: nxt st rule: reachable.induct)
  case (start st0 p st1 t st)
  then show ?case
    using first_branch_ok [OF start(1,2)] beginSearch_keeps [OF start(3)] by (simp add: in_step_def)
next
  case (iterate t st0)
  then show ?case using iteration_ok [OF iterate(3) assms(2)] by simp
next
  case (next_branch st0 b st1 p st2 t st)
  have "search_ok (programState st1)"
    using next_branch(2) finishBranch_keeps(1) [OF next_branch(3)] by simp
  from branch_ok(1,2) [OF next_branch(5,4) this] show ?case
    using beginSearch_keeps [OF next_branch(6)] by (simp add: in_step_def)
qed

section \<open>Branch points\<close>

lemma deepestBranchLoop_spec:
  "deepestBranchLoop items n = b \<longleftrightarrow>
     (b = -1 \<and> (\<forall>j < n. backtrackSet (items ! j) = {}))
   \<or> (0 \<le> b \<and> nat b < n \<and> backtrackSet (items ! nat b) \<noteq> {}
      \<and> (\<forall>j. nat b < j \<and> j < n \<longrightarrow> backtrackSet (items ! j) = {}))"
proof (induction n)
  case 0
  then show ?case by auto
next
  case (Suc n)
  show ?case
  proof (cases "backtrackSet (items ! n) = {}")
    case True
    then show ?thesis
      using Suc by (auto simp: hasThreadsToBacktrackOn_def less_Suc_eq)
  next
    case False
    then have "deepestBranchLoop items (Suc n) = int n" by (simp add: hasThreadsToBacktrackOn_def)
    moreover have "(b = -1 \<and> (\<forall>j < Suc n. backtrackSet (items ! j) = {}))
        \<or> (0 \<le> b \<and> nat b < Suc n \<and> backtrackSet (items ! nat b) \<noteq> {}
          \<and> (\<forall>j. nat b < j \<and> j < Suc n \<longrightarrow> backtrackSet (items ! j) = {})) \<longleftrightarrow> b = int n"
      using False by (auto simp: less_Suc_eq)
    ultimately show ?thesis by auto
  qed
qed

lemma deepest_spec:
  "getDeepestDPORBranchPoint s = b \<longleftrightarrow>
     (b = FIRST_BRANCH \<and> (\<forall>it \<in> set (stateStack s). backtrackSet it = {}))
   \<or> (0 \<le> b \<and> nat b < length (stateStack s) \<and> backtrackSet (stateStack s ! nat b) \<noteq> {}
      \<and> (\<forall>j. nat b < j \<and> j < length (stateStack s) \<longrightarrow> backtrackSet (stateStack s ! j) = {}))"
  unfolding getDeepestDPORBranchPoint_def deepestBranchLoop_spec FIRST_BRANCH_def
  by (simp add: all_set_conv_all_nth)

lemma never_back_to_the_start: "search_ok s \<Longrightarrow> getDeepestDPORBranchPoint s \<noteq> 0"
  using deepest_spec [of s 0] by (auto simp: search_ok_def FIRST_BRANCH_def)

text \<open>The deepest state with a thread scheduled, \<^const>\<open>FIRST_BRANCH\<close> if there is none.\<close>

definition deepest_scheduled :: "stack_item list \<Rightarrow> int \<Rightarrow> bool" where
  "deepest_scheduled items b \<longleftrightarrow>
     (if b = FIRST_BRANCH then \<forall>item \<in> set items. backtrackSet item = {}
      else 0 < b \<and> nat b < length items \<and> backtrackSet (items ! nat b) \<noteq> {}
        \<and> (\<forall>j. nat b < j \<and> j < length items \<longrightarrow> backtrackSet (items ! j) = {}))"

lemma deepest_branch_scheduled:
  assumes "search_ok s"
  shows "deepest_scheduled (stateStack s) (getDeepestDPORBranchPoint s)"
  using deepest_spec [of s "getDeepestDPORBranchPoint s"] never_back_to_the_start [OF assms]
  by (auto simp: deepest_scheduled_def FIRST_BRANCH_def)

section \<open>The search ends\<close>

lemma searchLoop_ok:
  assumes "searchLoop prog opts n t st = Inr st'" and "iteration_order (set_order prog)"
    and "search_ok (programState st)"
  shows "search_ok (programState st') \<and> done_grows (programState st) (programState st')
    \<and> trace_process st' = None"
  using assms(1,3)
proof (induction n arbitrary: t st)
  case 0
  then show ?case by simp
next
  case (Suc n)
  from Suc.prems(1) obtain nxt st1 where st1: "searchIteration prog opts t st = Inr (nxt, st1)"
    and rest: "(case nxt of None \<Rightarrow> Inr st1 | Some t' \<Rightarrow> searchLoop prog opts n t' st1) = Inr st'"
    by (auto simp: result_simps)
  note step = iteration_ok [OF st1 assms(2) Suc.prems(2)]
  show ?case
  proof (cases nxt)
    case None
    then show ?thesis using rest step by simp
  next
    case (Some t')
    then show ?thesis using rest step Suc.IH [of t' st1] done_grows_trans by auto
  qed
qed

lemma searchLoop_reachable:
  assumes "searchLoop prog opts n t st = Inr st'" and "reachable prog opts cfg (Some t, st)"
  shows "reachable prog opts cfg (None, st')"
  using assms
proof (induction n arbitrary: t st)
  case 0
  then show ?case by simp
next
  case (Suc n)
  from Suc.prems(1) obtain nxt st1 where st1: "searchIteration prog opts t st = Inr (nxt, st1)"
    and rest: "(case nxt of None \<Rightarrow> Inr st1 | Some t' \<Rightarrow> searchLoop prog opts n t' st1) = Inr st'"
    by (auto simp: result_simps)
  have "reachable prog opts cfg (nxt, st1)" by (rule reachable.iterate [OF Suc.prems(2) st1])
  then show ?case using rest Suc.IH by (auto split: option.splits)
qed

text \<open>
  The measure: for every position of the stack, the threads not yet searched from there, and more
  than that where there is no item.  Going to a branch searches one more thread there and leaves the
  items below alone.
\<close>

definition unsearched :: "mcstack \<Rightarrow> nat \<Rightarrow> nat" where
  "unsearched s j =
     (if j < length (stateStack s)
      then MAX_TOTAL_THREADS_IN_PROGRAM - card (doneSet (stateStack s ! j) \<inter> {..<MAX_TOTAL_THREADS_IN_PROGRAM})
      else Suc MAX_TOTAL_THREADS_IN_PROGRAM)"

definition search_rank :: "mcstack \<Rightarrow> nat list" where
  "search_rank s = map (unsearched s) [0..<Suc MC_STATE_CONFIG_MAX_TRANSITIONS_DEPTH_LIMIT_DEFAULT]"

lemma lex_map_upt:
  fixes f g :: "nat \<Rightarrow> nat"
  assumes "k < n" and "f k < g k" and "\<forall>j < k. f j \<le> g j"
  shows "(map f [0..<n], map g [0..<n]) \<in> lex less_than"
proof -
  define m where "m = (LEAST j. f j \<noteq> g j)"
  have ne: "f k \<noteq> g k" using assms(2) by simp
  have m: "f m \<noteq> g m" unfolding m_def by (rule LeastI [where P = "\<lambda>j. f j \<noteq> g j", OF ne])
  have eq: "f j = g j" if "j < m" for j using that not_less_Least unfolding m_def by blast
  have mk: "m \<le> k" unfolding m_def by (rule Least_le) (rule ne)
  then have less: "f m < g m" using assms(2,3) m by (cases "m = k") (auto simp: le_less)
  have split: "[0..<n] = [0..<m] @ m # [Suc m..<n]"
    using mk assms(1) by (metis le_add1 le_add_same_cancel1 le_less_trans upt_add_eq_append upt_conv_Cons zero_le
        ordered_cancel_comm_monoid_diff_class.add_diff_inverse less_imp_le)
  show ?thesis
    unfolding split lex_conv mem_Collect_eq prod.case map_append list.map using eq less
    by (intro conjI exI [of _ "map f [0..<m]"] exI [of _ "f m"] exI [of _ "g m"]
        exI [of _ "map f [Suc m..<n]"] exI [of _ "map g [Suc m..<n]"]) simp_all
qed

lemma unsearched_grows:
  assumes "done_grows s s'" and "j < length (stateStack s)"
  shows "unsearched s' j \<le> unsearched s j"
proof -
  have "j < length (stateStack s')" "doneSet (stateStack s ! j) \<subseteq> doneSet (stateStack s' ! j)"
    using assms by (auto simp: done_grows_def)
  moreover from this(2) have "card (doneSet (stateStack s ! j) \<inter> {..<MAX_TOTAL_THREADS_IN_PROGRAM})
      \<le> card (doneSet (stateStack s' ! j) \<inter> {..<MAX_TOTAL_THREADS_IN_PROGRAM})"
    by (intro card_mono) auto
  ultimately show ?thesis using assms(2) by (simp add: unsearched_def)
qed

lemma unsearched_one_less:
  assumes "j < length (stateStack s)" and "j < length (stateStack s')"
    and "doneSet (stateStack s' ! j) = insert t (doneSet (stateStack s ! j))"
    and "t \<notin> doneSet (stateStack s ! j)" and "t < MAX_TOTAL_THREADS_IN_PROGRAM"
  shows "unsearched s' j < unsearched s j"
proof -
  let ?D = "doneSet (stateStack s ! j) \<inter> {..<MAX_TOTAL_THREADS_IN_PROGRAM}"
  have "insert t (doneSet (stateStack s ! j)) \<inter> {..<MAX_TOTAL_THREADS_IN_PROGRAM} = insert t ?D"
    using assms(5) by auto
  moreover have "card (insert t ?D) = Suc (card ?D)" using assms(4) by simp
  moreover have "card (insert t ?D) \<le> MAX_TOTAL_THREADS_IN_PROGRAM"
    using assms(5) card_mono [of "{..<MAX_TOTAL_THREADS_IN_PROGRAM}" "insert t ?D"] by auto
  ultimately show ?thesis using assms(1-3) by (simp add: unsearched_def)
qed

lemma explore_branch_rank:
  assumes "mc_explore_branch prog opts b st = Inr (b', st')" and "b \<noteq> FIRST_BRANCH"
    and "iteration_order (set_order prog)" and "search_ok (programState st)"
  shows "search_ok (programState st')"
    and "(search_rank (programState st'), search_rank (programState st)) \<in> lex less_than"
proof -
  from assms(1) obtain p st1 t st2 n st3 where
    st1: "prepareBranch b st = Inr (p, st1)" and st2: "beginSearch opts p st1 = Inr (t, st2)"
    and st3: "searchLoop prog opts n t st2 = Inr st3" and st': "finishBranch opts st3 = Inr (b', st')"
    by (auto simp: mc_explore_branch_def mc_search_dpor_branch_with_thread_def Let_def result_simps)
  note br = branch_ok [OF st1 assms(2,4)]
  note bg = beginSearch_keeps [OF st2]
  have loop: "search_ok (programState st3)" "done_grows (programState st1) (programState st3)"
    using searchLoop_ok [OF st3 assms(3)] br(1) bg(1) by simp_all
  note fin = finishBranch_keeps(1) [OF st']
  show "search_ok (programState st')" using loop(1) fin by simp
  let ?s = "programState st" and ?s1 = "programState st1" and ?s' = "programState st'"
  have p: "p < MAX_TOTAL_THREADS_IN_PROGRAM"
    using bg(3) by (auto simp: getNextTransitionForThread_def guardR_eq_Inr)
  have b: "nat b < length (stateStack ?s)"
    using prepareBranch_cases [OF st1 assms(2)] by blast
  have "length (stateStack ?s) \<le> Suc MC_STATE_CONFIG_MAX_TRANSITIONS_DEPTH_LIMIT_DEFAULT"
    using assms(4) by (simp add: search_ok_def clocks_ok_def)
  then have bound: "nat b < Suc MC_STATE_CONFIG_MAX_TRANSITIONS_DEPTH_LIMIT_DEFAULT" using b by simp
  have "unsearched ?s1 (nat b) < unsearched ?s (nat b)"
    using unsearched_one_less [OF b _ br(5,7) p] br(3) by simp
  then have less: "unsearched ?s' (nat b) < unsearched ?s (nat b)"
    using unsearched_grows [OF loop(2), of "nat b"] br(3) fin by simp
  have "unsearched ?s1 j = unsearched ?s j" if "j < nat b" for j
    using that br(3,4) b by (simp add: unsearched_def)
  then have below: "\<forall>j < nat b. unsearched ?s' j \<le> unsearched ?s j"
    using unsearched_grows [OF loop(2)] br(3) fin by (metis less_SucI)
  show "(search_rank ?s', search_rank ?s) \<in> lex less_than"
    unfolding search_rank_def by (rule lex_map_upt [where k = "nat b"]) (use bound less below in auto)
qed

lemma exploreBranches_returns:
  assumes "iteration_order (set_order prog)"
  shows "search_ok (programState st) \<Longrightarrow> \<exists>r. exploreBranches prog opts b st = Some r"
proof (induction "search_rank (programState st)" arbitrary: b st
    rule: wf_induct_rule [OF wf_lex [OF wf_less_than]])
  case 1
  show ?case
  proof (cases "b = FIRST_BRANCH")
    case True
    then show ?thesis by (simp add: exploreBranches.simps)
  next
    case False
    then show ?thesis
    proof (cases "mc_explore_branch prog opts b st")
      case (Inr r)
      obtain b' st' where r: "r = (b', st')" by force
      note step = explore_branch_rank [OF Inr [unfolded r] False assms 1(2)]
      from 1(1) [OF step(2) step(1)] obtain r' where
        "exploreBranches prog opts (getDeepestDPORBranchPoint (programState st')) st' = Some r'" by blast
      then show ?thesis using False Inr r by (simp add: exploreBranches.simps)
    qed (simp add: exploreBranches.simps)
  qed
qed

lemma explore_first_branch_ok:
  assumes "initialSearch prog cfg = Inr st" and "mc_explore_branch prog opts FIRST_BRANCH st = Inr (b, st')"
    and "iteration_order (set_order prog)"
  shows "search_ok (programState st')" and "b = getDeepestDPORBranchPoint (programState st')"
    and "\<exists>st0. reachable prog opts cfg (None, st0) \<and> finishBranch opts st0 = Inr (b, st')"
proof -
  from assms(2) obtain p st1 t st2 n st3 where
    st1: "prepareBranch FIRST_BRANCH st = Inr (p, st1)" and st2: "beginSearch opts p st1 = Inr (t, st2)"
    and st3: "searchLoop prog opts n t st2 = Inr st3" and st': "finishBranch opts st3 = Inr (b, st')"
    by (auto simp: mc_explore_branch_def mc_search_dpor_branch_with_thread_def Let_def result_simps)
  have "search_ok (programState st2)"
    using first_branch_ok(1) [OF assms(1) st1] beginSearch_keeps(1) [OF st2] by simp
  then show "search_ok (programState st')"
    using searchLoop_ok [OF st3 assms(3)] finishBranch_keeps(1) [OF st'] by simp
  show "b = getDeepestDPORBranchPoint (programState st')"
    using finishBranch_keeps [OF st'] by simp
  show "\<exists>st0. reachable prog opts cfg (None, st0) \<and> finishBranch opts st0 = Inr (b, st')"
    using searchLoop_reachable [OF st3 reachable.start [OF assms(1) st1 st2]] st' by blast
qed

lemma model_checking_returns:
  assumes "iteration_order (set_order prog)"
  shows "\<exists>r. mc_do_model_checking prog opts cfg = Some r"
  using exploreBranches_returns [OF assms] explore_first_branch_ok(1) [OF _ _ assms]
  by (fastforce simp: mc_do_model_checking_def split: sum.splits)

text \<open>A search that comes to its end has no thread left to search.\<close>

lemma exploreBranches_exhausts:
  assumes "exploreBranches prog opts b st = Some r"
  shows "b = getDeepestDPORBranchPoint (programState st) \<longrightarrow>
     (\<forall>st'. r = Inr st' \<longrightarrow> getDeepestDPORBranchPoint (programState st') = FIRST_BRANCH)"
    (is "?Q b st r")
proof (rule exploreBranches.raw_induct [where P = "\<lambda>prog opts. ?Q", OF _ assms])
  fix explore prog opts b st r
  assume ih: "\<And>prog opts b st r. explore prog opts b st = Some r \<Longrightarrow> ?Q b st r"
    and step: "(if b = FIRST_BRANCH then Some (Inr st)
      else case mc_explore_branch prog opts b st of Inl e \<Rightarrow> Some (Inl e)
        | Inr (_, st') \<Rightarrow> explore prog opts (getDeepestDPORBranchPoint (programState st')) st') = Some r"
  show "?Q b st r"
  proof (cases "b = FIRST_BRANCH")
    case True
    then have "r = Inr st" using step by simp
    then show ?thesis using True by blast
  next
    case False
    show ?thesis
    proof (cases "mc_explore_branch prog opts b st")
      case (Inl e)
      then have "r = Inl e" using False step by simp
      then show ?thesis by simp
    next
      case (Inr x)
      then have "explore prog opts (getDeepestDPORBranchPoint (programState (snd x))) (snd x) = Some r"
        using False step by (simp add: case_prod_beta)
      from ih [OF this] show ?thesis by simp
    qed
  qed
qed

lemma model_checking_exhausts:
  assumes "mc_do_model_checking prog opts cfg = Some (Inr st)" and "iteration_order (set_order prog)"
  shows "getDeepestDPORBranchPoint (programState st) = FIRST_BRANCH"
proof -
  from assms(1) obtain st0 b st1 where "initialSearch prog cfg = Inr st0"
    and "mc_explore_branch prog opts FIRST_BRANCH st0 = Inr (b, st1)"
    and loop: "exploreBranches prog opts b st1 = Some (Inr st)"
    by (auto simp: mc_do_model_checking_def split: sum.splits prod.splits)
  then have "b = getDeepestDPORBranchPoint (programState st1)"
    using explore_first_branch_ok(2) assms(2) by blast
  then show ?thesis using exploreBranches_exhausts [OF loop] by blast
qed

end
