(* ===== verification/Typing.thy ===== *)
theory Typing
  imports StateStack
begin

text \<open>
  Types of the model: the class, the id and the system address of an object never change, a pending
  transition belongs to its thread and refers to existing objects of the classes it expects, and so
  reading it (\<open>getNextTransitionForThread\<close>) never meets a null pointer or a wrong cast.
\<close>

section \<open>Classes and identities of objects\<close>

datatype object_class = ThreadObject tid | MutexObject | SemaphoreObject | CondObject | BarrierObject
  | RWLockObject | RWWLockObject | GlobalObject

definition object_class :: "visible_object \<Rightarrow> object_class" where
  "object_class v = (case v of
      VThread x \<Rightarrow> ThreadObject (thread_tid x) | VMutex x \<Rightarrow> MutexObject | VSemaphore x \<Rightarrow> SemaphoreObject
    | VCond x \<Rightarrow> CondObject | VBarrier x \<Rightarrow> BarrierObject | VRWLock x \<Rightarrow> RWLockObject
    | VRWWLock x \<Rightarrow> RWWLockObject | VGlobal x \<Rightarrow> GlobalObject)"

definition identity :: "visible_object \<Rightarrow> object_class \<times> objid \<times> sysid" where
  "identity v = (object_class v, getObjectId v, getSystemId v)"

definition class_at :: "object_store \<Rightarrow> objid \<Rightarrow> object_class option" where
  "class_at st i = (if i < length (storage st) then Some (object_class (fst (storage st ! i))) else None)"

text \<open>A condition variable points to a mutex, or to nothing.\<close>

definition pointers_ok :: "object_store \<Rightarrow> visible_object \<Rightarrow> bool" where
  "pointers_ok st v = (case v of
      VCond c \<Rightarrow> (case cond_mutex c of None \<Rightarrow> True | Some m \<Rightarrow> class_at st m = Some MutexObject)
    | _ \<Rightarrow> True)"

definition store_wf :: "object_store \<Rightarrow> bool" where
  "store_wf st \<longleftrightarrow> (\<forall>i < length (storage st).
      getObjectId (fst (storage st ! i)) = i
    \<and> identity (snd (storage st ! i)) = identity (fst (storage st ! i))
    \<and> pointers_ok st (fst (storage st ! i)) \<and> pointers_ok st (snd (storage st ! i)))
  \<and> (\<forall>sys i. systemVisibleObjectMap st sys = Some i \<longrightarrow>
        i < length (storage st) \<and> getSystemId (fst (storage st ! i)) = sys)"

definition keeps_identities :: "object_store \<Rightarrow> object_store \<Rightarrow> bool" where
  "keeps_identities st st' \<longleftrightarrow> length (storage st) \<le> length (storage st')
    \<and> (\<forall>i < length (storage st). identity (fst (storage st' ! i)) = identity (fst (storage st ! i)))
    \<and> (\<forall>sys i. systemVisibleObjectMap st sys = Some i \<longrightarrow> systemVisibleObjectMap st' sys = Some i)"

definition evolves :: "object_store \<Rightarrow> object_store \<Rightarrow> bool" where
  "evolves st st' \<longleftrightarrow> keeps_identities st st' \<and> (store_wf st \<longrightarrow> store_wf st')"

lemma evolves_refl [simp, intro]: "evolves st st"
  by (simp add: evolves_def keeps_identities_def)

lemma evolves_trans [trans]: "evolves st st' \<Longrightarrow> evolves st' st'' \<Longrightarrow> evolves st st''"
  by (fastforce simp: evolves_def keeps_identities_def)

lemma class_at_evolves: "evolves st st' \<Longrightarrow> class_at st i = Some k \<Longrightarrow> class_at st' i = Some k"
  by (auto simp: evolves_def keeps_identities_def class_at_def identity_def split: if_splits)

lemma pointers_ok_mono:
  assumes "\<And>i k. class_at st i = Some k \<Longrightarrow> class_at st' i = Some k" and "pointers_ok st v"
  shows "pointers_ok st' v"
  using assms by (auto simp: pointers_ok_def split: visible_object.splits option.splits)

text \<open>A write that keeps class, ids and well-formed pointers.\<close>

lemma modify_evolves:
  assumes "modify_object i f st = Inr st'"
    and "\<And>v v'. f v = Inr v' \<Longrightarrow> identity v' = identity v"
    and "\<And>v v'. f v = Inr v' \<Longrightarrow> pointers_ok st v \<Longrightarrow> pointers_ok st v'"
  shows "evolves st st'"
proof -
  from assms(1) obtain v' where i: "i < length (storage st)" and v': "f (fst (storage st ! i)) = Inr v'"
    and st': "st' = st\<lparr>storage := (storage st)[i := (v', snd (storage st ! i))]\<rparr>"
    by (auto simp: modify_object_def getObjectWithId_def result_simps split: if_splits)
  note ident = assms(2) [OF v']
  have cls: "class_at st' k = class_at st k" for k
    using ident i by (auto simp: class_at_def st' nth_list_update identity_def)
  have ptr: "pointers_ok st' v = pointers_ok st v" for v
    by (simp add: pointers_ok_def cls split: visible_object.splits option.splits)
  have "keeps_identities st st'"
    using ident i by (auto simp: keeps_identities_def st' nth_list_update)
  moreover have "store_wf st'" if wf: "store_wf st"
  proof -
    have "pointers_ok st v'" using assms(3) [OF v'] wf i by (simp add: store_wf_def)
    then show ?thesis
      using wf ident i unfolding store_wf_def ptr
      by (auto simp: st' nth_list_update identity_def)
  qed
  ultimately show ?thesis by (simp add: evolves_def)
qed

lemma reset_evolves: "store_wf st \<Longrightarrow> evolves st (resetObjectsToInitialStateInStore st)"
proof -
  assume wf: "store_wf st"
  let ?st = "resetObjectsToInitialStateInStore st"
  have copy: "identity (object_copy v) = identity v" for v
    by (cases v) (simp_all add: identity_def object_class_def object_copy_def getObjectId_def getSystemId_def
        MCBarrier_copy_def)
  have nth: "storage ?st ! i = (object_copy (snd (storage st ! i)), snd (storage st ! i))"
    "length (storage ?st) = length (storage st)" if "i < length (storage st)" for i
    using that by (simp_all add: resetObjectsToInitialStateInStore_def split: prod.splits)
  have len: "length (storage ?st) = length (storage st)"
    by (simp add: resetObjectsToInitialStateInStore_def)
  have ident: "identity (fst (storage ?st ! i)) = identity (fst (storage st ! i))"
    if "i < length (storage st)" for i
    using that wf by (simp add: nth copy store_wf_def)
  have cls: "class_at ?st k = class_at st k" for k
    using ident by (auto simp: class_at_def len identity_def)
  have ptr: "pointers_ok ?st v = pointers_ok st v" for v
    by (simp add: pointers_ok_def cls split: visible_object.splits option.splits)
  have ptrc: "pointers_ok st (object_copy v) = pointers_ok st v" for v
    by (cases v) (simp_all add: pointers_ok_def object_copy_def)
  have map: "systemVisibleObjectMap ?st = systemVisibleObjectMap st"
    by (simp add: resetObjectsToInitialStateInStore_def)
  have "store_wf ?st"
    unfolding store_wf_def len map ptr
    using wf ident by (auto simp: store_wf_def nth copy ptrc identity_def)
  then show ?thesis
    using ident by (simp add: evolves_def keeps_identities_def len map)
qed

lemma register_evolves:
  assumes "registerNewObject v st = Inr (i, st1)" and "st' = mapSystemAddressToShadow sys i st1"
    and "pointers_ok st v" and "getSystemId v = sys"
  shows "evolves st st'" and "class_at st' i = Some (object_class v)" and "i = length (storage st)"
proof -
  let ?v = "setObjectId i v"
  from assms(1,2) have i: "i = length (storage st)"
    and sto: "storage st' = storage st @ [(?v, object_copy ?v)]"
    and map: "systemVisibleObjectMap st' = (case systemVisibleObjectMap st sys of
      None \<Rightarrow> (systemVisibleObjectMap st)(sys := Some i) | Some _ \<Rightarrow> systemVisibleObjectMap st)"
    by (auto simp: registerNewObject_def Let_def mapSystemAddressToShadow_def guardR_def
        split: if_splits option.splits)
  have ident: "object_class ?v = object_class v" "pointers_ok s ?v = pointers_ok s v"
      "identity (object_copy ?v) = identity ?v" "pointers_ok s (object_copy ?v) = pointers_ok s v" for s
    by (cases v; simp add: identity_def object_class_def setObjectId_def getObjectId_def
        getSystemId_def pointers_ok_def object_copy_def MCBarrier_copy_def)+
  have old: "class_at st j = Some k \<Longrightarrow> class_at st' j = Some k" for j k
    by (auto simp: class_at_def sto nth_append split: if_splits)
  have "keeps_identities st st'"
    by (auto simp: keeps_identities_def sto map nth_append split: option.splits)
  moreover have "store_wf st'" if wf: "store_wf st"
    using wf assms(3,4) ident pointers_ok_mono [OF old]
    unfolding store_wf_def
    by (auto simp: sto map i nth_append less_Suc_eq split: option.splits if_splits)
  ultimately show "evolves st st'" by (simp add: evolves_def)
  show "class_at st' i = Some (object_class v)" using ident(1) by (simp add: class_at_def sto i)
  show "i = length (storage st)" by (rule i)
qed

section \<open>Well-typed stacks\<close>

definition threads_wf :: "mcstack \<Rightarrow> bool" where
  "threads_wf s \<longleftrightarrow> (\<forall>q. threadIdMap s q \<noteq> None \<longleftrightarrow> q < nextThreadId s)
    \<and> (\<forall>q i. threadIdMap s q = Some i \<longrightarrow> class_at (objectStorage s) i = Some (ThreadObject q))"

definition typed :: "mcstack \<Rightarrow> bool" where
  "typed s \<longleftrightarrow> store_wf (objectStorage s) \<and> threads_wf s"

text \<open>The threads and objects a transition refers to exist and have the classes it expects.\<close>

definition refs_ok :: "mcstack \<Rightarrow> transition \<Rightarrow> bool" where
  "refs_ok s t \<longleftrightarrow> threadIdMap s (getThreadId t) \<noteq> None \<and> (case t of
      MCThreadTransition _ _ x \<Rightarrow> threadIdMap s (thread_tid x) \<noteq> None
    | MCMutexTransition _ _ x \<Rightarrow> class_at (objectStorage s) (mutex_id x) = Some MutexObject
    | MCSemaphoreTransition _ _ x \<Rightarrow> class_at (objectStorage s) (sem_id x) = Some SemaphoreObject
    | MCCondTransition _ op x \<Rightarrow> class_at (objectStorage s) (cond_id x) = Some CondObject
        \<and> (case op of CondEnqueue m \<Rightarrow> class_at (objectStorage s) (mutex_id m) = Some MutexObject
           | _ \<Rightarrow> True)
    | MCBarrierTransition _ _ x \<Rightarrow> class_at (objectStorage s) (barrier_id x) = Some BarrierObject
    | MCRWLockTransition _ _ x \<Rightarrow> class_at (objectStorage s) (rw_id x) = Some RWLockObject
    | MCRWWLockTransition _ _ x \<Rightarrow> class_at (objectStorage s) (rww_id x) = Some RWWLockObject
    | MCGlobalVariableTransition _ _ x \<Rightarrow> class_at (objectStorage s) (global_id x) = Some GlobalObject
    | MCAbortTransition _ \<Rightarrow> True
    | MCExitTransition _ _ \<Rightarrow> True
    | MCProgressTransition _ \<Rightarrow> True)"

named_theorems typed_reads "what a typed read gives"

lemma class_at_read:
  "class_at st i = Some k \<longleftrightarrow> (\<exists>v. getObjectWithId i st = Inr v \<and> object_class v = k)"
  by (auto simp: class_at_def getObjectWithId_def)

lemma object_class_simps [simp]:
  "object_class (VThread x) = ThreadObject (thread_tid x)"
  "object_class (VMutex m) = MutexObject" "object_class (VSemaphore sm) = SemaphoreObject"
  "object_class (VCond c) = CondObject" "object_class (VBarrier b) = BarrierObject"
  "object_class (VRWLock l) = RWLockObject" "object_class (VRWWLock w) = RWWLockObject"
  "object_class (VGlobal g) = GlobalObject"
  by (simp_all add: object_class_def)

lemma object_class_cases:
  "object_class v = ThreadObject q \<longleftrightarrow> (\<exists>x. v = VThread x \<and> thread_tid x = q)"
  "object_class v = MutexObject \<longleftrightarrow> (\<exists>x. v = VMutex x)"
  "object_class v = SemaphoreObject \<longleftrightarrow> (\<exists>x. v = VSemaphore x)"
  "object_class v = CondObject \<longleftrightarrow> (\<exists>x. v = VCond x)"
  "object_class v = BarrierObject \<longleftrightarrow> (\<exists>x. v = VBarrier x)"
  "object_class v = RWLockObject \<longleftrightarrow> (\<exists>x. v = VRWLock x)"
  "object_class v = RWWLockObject \<longleftrightarrow> (\<exists>x. v = VRWWLock x)"
  "object_class v = GlobalObject \<longleftrightarrow> (\<exists>x. v = VGlobal x)"
  by (cases v; simp)+

lemma get_iff:
  "getThread i st = Inr x0 \<longleftrightarrow> getObjectWithId i st = Inr (VThread x0)"
  "getMutex i st = Inr x1 \<longleftrightarrow> getObjectWithId i st = Inr (VMutex x1)"
  "getSem i st = Inr x2 \<longleftrightarrow> getObjectWithId i st = Inr (VSemaphore x2)"
  "getCond i st = Inr x3 \<longleftrightarrow> getObjectWithId i st = Inr (VCond x3)"
  "getBarrier i st = Inr x4 \<longleftrightarrow> getObjectWithId i st = Inr (VBarrier x4)"
  "getRWLock i st = Inr x5 \<longleftrightarrow> getObjectWithId i st = Inr (VRWLock x5)"
  "getRWWLock i st = Inr x6 \<longleftrightarrow> getObjectWithId i st = Inr (VRWWLock x6)"
  "getGlobal i st = Inr x7 \<longleftrightarrow> getObjectWithId i st = Inr (VGlobal x7)"
  by (auto simp: get_defs bindR_def split: sum.splits visible_object.splits)

lemma getObjectId_read: "store_wf st \<Longrightarrow> getObjectWithId i st = Inr v \<Longrightarrow> getObjectId v = i"
  by (auto simp: store_wf_def getObjectWithId_def split: if_splits)

lemma pointers_read: "store_wf st \<Longrightarrow> getObjectWithId i st = Inr v \<Longrightarrow> pointers_ok st v"
  by (auto simp: store_wf_def getObjectWithId_def split: if_splits)

lemma get_class:
  assumes "store_wf st"
  shows "getMutex i st = Inr x1 \<Longrightarrow> mutex_id x1 = i \<and> class_at st i = Some MutexObject"
    and "getSem i st = Inr x2 \<Longrightarrow> sem_id x2 = i \<and> class_at st i = Some SemaphoreObject"
    and "getCond i st = Inr x3 \<Longrightarrow> cond_id x3 = i \<and> class_at st i = Some CondObject"
    and "getBarrier i st = Inr x4 \<Longrightarrow> barrier_id x4 = i \<and> class_at st i = Some BarrierObject"
    and "getRWLock i st = Inr x5 \<Longrightarrow> rw_id x5 = i \<and> class_at st i = Some RWLockObject"
    and "getRWWLock i st = Inr x6 \<Longrightarrow> rww_id x6 = i \<and> class_at st i = Some RWWLockObject"
    and "getGlobal i st = Inr x7 \<Longrightarrow> global_id x7 = i \<and> class_at st i = Some GlobalObject"
  using getObjectId_read [OF assms]
  by (fastforce simp: get_iff class_at_read getObjectId_def split: visible_object.splits)+

lemma get_total:
  "class_at st i = Some MutexObject \<Longrightarrow> \<exists>x. getMutex i st = Inr x"
  "class_at st i = Some SemaphoreObject \<Longrightarrow> \<exists>x. getSem i st = Inr x"
  "class_at st i = Some CondObject \<Longrightarrow> \<exists>x. getCond i st = Inr x"
  "class_at st i = Some BarrierObject \<Longrightarrow> \<exists>x. getBarrier i st = Inr x"
  "class_at st i = Some RWLockObject \<Longrightarrow> \<exists>x. getRWLock i st = Inr x"
  "class_at st i = Some RWWLockObject \<Longrightarrow> \<exists>x. getRWWLock i st = Inr x"
  "class_at st i = Some GlobalObject \<Longrightarrow> \<exists>x. getGlobal i st = Inr x"
  by (auto simp: get_iff class_at_read object_class_cases)

lemma getThreadWithId_typed:
  assumes "typed s"
  shows "getThreadWithId s q = Inr th \<Longrightarrow> thread_tid th = q \<and> threadIdMap s q \<noteq> None"
    and "threadIdMap s q \<noteq> None \<Longrightarrow> \<exists>th. getThreadWithId s q = Inr th"
  using assms
  by (fastforce simp: typed_def threads_wf_def getThreadWithId_def class_at_read object_class_cases get_iff
      split: option.splits)+

lemma cond_mutex_in_typed:
  assumes "store_wf st" and "getCond i st = Inr c"
  shows "\<exists>mo. cond_mutex_in c st = Inr mo"
  using pointers_read [OF assms(1)] assms(2) get_total(1)
  by (fastforce simp: get_iff pointers_ok_def cond_mutex_in_def result_simps split: option.splits)

lemma ex_bindR: "(\<exists>r. bindR m f = Inr r) \<longleftrightarrow> (\<exists>x. m = Inr x \<and> (\<exists>r. f x = Inr r))"
  by (auto simp: result_simps)

lemma dynamicCopy_ok:
  assumes "typed s"
    and "dynamicCopyInState (methods_of t) (getThreadWithId s) (objectStorage s) = Inr t'"
  shows "getThreadId t' = getThreadId t \<and> refs_ok s t'"
proof -
  have wf: "store_wf (objectStorage s)" using assms(1) by (simp add: typed_def)
  note read = getThreadWithId_typed(1) [OF assms(1)] get_class [OF wf]
  note unf = methods_of_def class_methods result_simps refs_ok_def getThreadId_def transition_thread_def
  show ?thesis
    using assms(2)
  proof (cases t)
    case (MCThreadTransition th op x)
    then show ?thesis using assms(2) by (cases op) (auto simp: unf dest!: read)
  next
    case (MCMutexTransition th op x)
    then show ?thesis using assms(2) by (cases op) (auto simp: unf mutex_dispatch_def dest!: read)
  next
    case (MCSemaphoreTransition th op x)
    then show ?thesis using assms(2) by (cases op) (auto simp: unf dest!: read)
  next
    case (MCCondTransition th op x)
    then show ?thesis using assms(2) by (cases op) (auto simp: unf dest!: read)
  next
    case (MCBarrierTransition th op x)
    then show ?thesis using assms(2) by (cases op) (auto simp: unf dest!: read)
  next
    case (MCRWLockTransition th op x)
    then show ?thesis using assms(2) by (cases op) (auto simp: unf dest!: read)
  next
    case (MCRWWLockTransition th op x)
    then show ?thesis using assms(2) by (cases op) (auto simp: unf dest!: read)
  next
    case (MCGlobalVariableTransition th op x)
    then show ?thesis using assms(2) by (cases op) (auto simp: unf dest!: read)
  qed (auto simp: unf dest!: read)
qed

lemma dynamicCopy_total:
  assumes "typed s" and "refs_ok s t"
  shows "\<exists>t'. dynamicCopyInState (methods_of t) (getThreadWithId s) (objectStorage s) = Inr t'"
proof -
  have wf: "store_wf (objectStorage s)" using assms(1) by (simp add: typed_def)
  note thr = getThreadWithId_typed(2) [OF assms(1)]
  note unf = methods_of_def class_methods ex_bindR refs_ok_def getThreadId_def transition_thread_def
  show ?thesis
  proof (cases t)
    case (MCThreadTransition th op x)
    then show ?thesis using assms(2) by (cases op) (simp_all add: unf thr)
  next
    case (MCMutexTransition th op x)
    then show ?thesis using assms(2) by (cases op) (simp_all add: unf mutex_dispatch_def thr get_total)
  next
    case (MCSemaphoreTransition th op x)
    then show ?thesis using assms(2) by (cases op) (simp_all add: unf thr get_total)
  next
    case (MCCondTransition th op x)
    then obtain c where c: "getCond (cond_id x) (objectStorage s) = Inr c"
      using assms(2) get_total(3) by (auto simp: refs_ok_def)
    show ?thesis
      using assms(2) cond_mutex_in_typed [OF wf c] MCCondTransition
      by (cases op) (simp_all add: unf thr get_total c)
  next
    case (MCBarrierTransition th op x)
    then show ?thesis using assms(2) by (cases op) (simp_all add: unf thr get_total)
  next
    case (MCRWLockTransition th op x)
    then show ?thesis using assms(2) by (cases op) (simp_all add: unf thr get_total)
  next
    case (MCRWWLockTransition th op x)
    then show ?thesis using assms(2) by (cases op) (simp_all add: unf thr get_total)
  next
    case (MCGlobalVariableTransition th op x)
    then show ?thesis using assms(2) by (cases op) (simp_all add: unf thr get_total)
  qed (use assms(2) in \<open>simp_all add: unf thr\<close>)
qed

section \<open>Running a transition keeps the types\<close>

lemma modify_class_at:
  assumes "modify_object i f st = Inr st'" and "\<And>v v'. f v = Inr v' \<Longrightarrow> identity v' = identity v"
  shows "class_at st' k = class_at st k"
proof -
  from assms(1) obtain v' where i: "i < length (storage st)" and v': "f (fst (storage st ! i)) = Inr v'"
    and st': "st' = st\<lparr>storage := (storage st)[i := (v', snd (storage st ! i))]\<rparr>"
    by (auto simp: modify_object_def getObjectWithId_def result_simps split: if_splits)
  show ?thesis
    using assms(2) [OF v'] i by (auto simp: class_at_def st' nth_list_update identity_def)
qed

text \<open>The writes of the transitions, by the class of the object.\<close>

lemma write_evolves:
  "modify_object i (on_thread ft) st = Inr st' \<Longrightarrow>
     (\<And>x. thread_id (ft x) = thread_id x \<and> thread_sys (ft x) = thread_sys x \<and> thread_tid (ft x) = thread_tid x) \<Longrightarrow>
     evolves st st'"
  "modify_object i (on_mutex fm) st = Inr st' \<Longrightarrow>
     (\<And>x. mutex_id (fm x) = mutex_id x \<and> mutex_sys (fm x) = mutex_sys x) \<Longrightarrow> evolves st st'"
  "modify_object i (on_sem fs) st = Inr st' \<Longrightarrow>
     (\<And>x. sem_id (fs x) = sem_id x \<and> sem_sys (fs x) = sem_sys x) \<Longrightarrow> evolves st st'"
  "modify_object i (on_cond fc) st = Inr st' \<Longrightarrow>
     (\<And>x y. fc x = Inr y \<Longrightarrow> cond_id y = cond_id x \<and> cond_sys y = cond_sys x
        \<and> (pointers_ok st (VCond x) \<longrightarrow> pointers_ok st (VCond y))) \<Longrightarrow> evolves st st'"
  "modify_object i (on_barrier fb) st = Inr st' \<Longrightarrow>
     (\<And>x. barrier_id (fb x) = barrier_id x \<and> barrier_sys (fb x) = barrier_sys x) \<Longrightarrow> evolves st st'"
  "modify_object i (on_rwlock fr) st = Inr st' \<Longrightarrow>
     (\<And>x y. fr x = Inr y \<Longrightarrow> rw_id y = rw_id x \<and> rw_sys y = rw_sys x) \<Longrightarrow> evolves st st'"
  "modify_object i (on_rwwlock fw) st = Inr st' \<Longrightarrow>
     (\<And>x y. fw x = Inr y \<Longrightarrow> rww_id y = rww_id x \<and> rww_sys y = rww_sys x) \<Longrightarrow> evolves st st'"
  "modify_object i (on_global fg) st = Inr st' \<Longrightarrow>
     (\<And>x. global_id (fg x) = global_id x \<and> global_addr (fg x) = global_addr x) \<Longrightarrow> evolves st st'"
  by (erule modify_evolves;
      fastforce simp: on_defs identity_def getObjectId_def getSystemId_def pointers_ok_def result_simps
        split: visible_object.splits)+

lemma cond_enqueue_evolves:
  assumes "modify_object i (on_cond (\<lambda>c. Inr ((MCConditionVariable_addWaiter p c)\<lparr>cond_mutex := Some j\<rparr>))) st = Inr st1"
    and "modify_object j (on_mutex f) st1 = Inr st2"
  shows "evolves st st1"
proof (rule write_evolves(4) [OF assms(1)])
  have "class_at st1 j = Some MutexObject"
    using assms(2) by (auto simp: modify_object_def on_mutex_def bindR_def class_at_read
        split: visible_object.splits sum.splits)
  moreover have "class_at st1 j = class_at st j"
    by (rule modify_class_at [OF assms(1)])
       (auto simp: on_cond_def identity_def getObjectId_def getSystemId_def result_simps
         split: visible_object.splits)
  ultimately show "cond_id y = cond_id x \<and> cond_sys y = cond_sys x
      \<and> (pointers_ok st (VCond x) \<longrightarrow> pointers_ok st (VCond y))"
    if "Inr ((MCConditionVariable_addWaiter p x)\<lparr>cond_mutex := Some j\<rparr>) = Inr y" for x y
    using that by (auto simp: pointers_ok_def)
qed

lemma cond_pointers_kept:
  "pointers_ok st (VCond (MCConditionVariable_initialize c)) = pointers_ok st (VCond c)"
  "pointers_ok st (VCond (MCConditionVariable_sendSignalMessage c)) = pointers_ok st (VCond c)"
  "pointers_ok st (VCond (MCConditionVariable_sendBroadcastMessage c)) = pointers_ok st (VCond c)"
  "MCConditionVariable_removeWaiter p c = Inr c' \<Longrightarrow> pointers_ok st (VCond c') = pointers_ok st (VCond c)"
  "pointers_ok st (VCond (c\<lparr>cond_mutex := None\<rparr>))"
  by (auto simp: pointers_ok_def cond_simps result_simps Let_def split: if_splits)

lemmas written_identities = thread_keeps_identity mutex_keeps_identity sem_keeps_identity
  cond_keeps_identity barrier_keeps_identity rwlock_keeps_identity rwwlock_keeps_identity
  removeWaiter_keeps_identity rwlock_result_keeps_identity rwwlock_result_keeps_identity
  cond_pointers_kept

lemma apply_evolves:
  assumes "applyToState (methods_of t) st = Inr st'"
  shows "evolves st st'"
proof -
  note unf = methods_of_def class_methods result_simps
  show ?thesis
  proof (cases t)
    case (MCThreadTransition th op x)
    then show ?thesis using assms
      by (cases op) (auto simp: unf thread_simps intro!: write_evolves(1))
  next
    case (MCMutexTransition th op x)
    then show ?thesis using assms
      by (cases op) (auto simp: unf mutex_dispatch_def intro: write_evolves(2) split: if_splits)
  next
    case (MCSemaphoreTransition th op x)
    then show ?thesis using assms
      by (cases op) (auto simp: unf intro: write_evolves(3))
  next
    case (MCCondTransition th op x)
    show ?thesis
    proof (cases op)
      case (CondEnqueue m)
      then show ?thesis using assms MCCondTransition
        by (auto simp: unf intro: evolves_trans [OF cond_enqueue_evolves write_evolves(2)])
    next
      case (CondWait mo)
      then show ?thesis using assms MCCondTransition
        by (cases mo) (auto simp: unf written_identities split: if_splits
            intro!: evolves_trans [OF write_evolves(2) write_evolves(4)])
    qed (use assms MCCondTransition in \<open>auto simp: unf written_identities intro!: write_evolves(4)\<close>)
  next
    case (MCBarrierTransition th op x)
    then show ?thesis using assms
      by (cases op) (auto simp: unf intro: write_evolves(5))
  next
    case (MCRWLockTransition th op x)
    then show ?thesis using assms
      by (cases op) (auto simp: unf written_identities intro!: write_evolves(6))
  next
    case (MCRWWLockTransition th op x)
    then show ?thesis using assms
      by (cases op) (auto simp: unf written_identities intro!: write_evolves(7))
  next
    case (MCGlobalVariableTransition th op x)
    then show ?thesis using assms
      by (cases op) (auto simp: unf intro: write_evolves(8))
  qed (use assms in \<open>auto simp: unf\<close>)
qed

lemma unapply_evolves:
  assumes "unapplyToState (methods_of t) st = Inr st'"
  shows "evolves st st'"
proof -
  note unf = methods_of_def class_methods result_simps
  show ?thesis
  proof (cases t)
    case (MCThreadTransition th op x)
    then show ?thesis using assms
      by (cases op) (auto simp: unf thread_simps intro!: write_evolves(1))
  next
    case (MCMutexTransition th op x)
    then show ?thesis using assms
      by (cases op) (auto simp: unf mutex_dispatch_def intro: write_evolves(2) split: if_splits)
  next
    case (MCSemaphoreTransition th op x)
    then show ?thesis using assms by (cases op) (auto simp: unf)
  next
    case (MCCondTransition th op x)
    then show ?thesis using assms by (cases op) (auto simp: unf)
  next
    case (MCBarrierTransition th op x)
    then show ?thesis using assms by (cases op) (auto simp: unf)
  next
    case (MCRWLockTransition th op x)
    then show ?thesis using assms by (cases op) (auto simp: unf)
  next
    case (MCRWWLockTransition th op x)
    then show ?thesis using assms by (cases op) (auto simp: unf)
  next
    case (MCGlobalVariableTransition th op x)
    then show ?thesis using assms by (cases op) (auto simp: unf)
  qed (use assms in \<open>auto simp: unf\<close>)
qed

section \<open>Pending transitions belong to their thread\<close>

definition pending_ok :: "mcstack \<Rightarrow> bool" where
  "pending_ok s \<longleftrightarrow> nextThreadId s \<le> MAX_TOTAL_THREADS_IN_PROGRAM
    \<and> (\<forall>q < nextThreadId s. nextTransitions s q \<noteq> None)
    \<and> (\<forall>q p. nextTransitions s q = Some p \<longrightarrow> getThreadId p = q \<and> refs_ok s p)"

definition well_typed :: "mcstack \<Rightarrow> bool" where
  "well_typed s \<longleftrightarrow> typed s \<and> pending_ok s"

definition grows :: "mcstack \<Rightarrow> mcstack \<Rightarrow> bool" where
  "grows s s' \<longleftrightarrow> evolves (objectStorage s) (objectStorage s')
    \<and> (\<forall>q i. threadIdMap s q = Some i \<longrightarrow> threadIdMap s' q = Some i)"

lemma grows_refl [simp, intro]: "grows s s"
  by (simp add: grows_def)

lemma grows_trans [trans]: "grows s s' \<Longrightarrow> grows s' s'' \<Longrightarrow> grows s s''"
  using evolves_trans by (fastforce simp: grows_def)

lemma grows_class: "grows s s' \<Longrightarrow> class_at (objectStorage s) i = Some k \<Longrightarrow> class_at (objectStorage s') i = Some k"
  using class_at_evolves by (auto simp: grows_def)

lemma grows_thread: "grows s s' \<Longrightarrow> threadIdMap s q \<noteq> None \<Longrightarrow> threadIdMap s' q \<noteq> None"
  by (fastforce simp: grows_def)

lemma refs_ok_grows:
  assumes "grows s s'" and "refs_ok s t"
  shows "refs_ok s' t"
  using assms(2) grows_class [OF assms(1)] grows_thread [OF assms(1)]
  unfolding refs_ok_def by (auto split: transition.splits cond_op.splits)

text \<open>A change of the store alone.\<close>

lemma store_step:
  assumes "evolves (objectStorage s) (objectStorage s')"
    and "threadIdMap s' = threadIdMap s" and "nextThreadId s' = nextThreadId s"
    and "nextTransitions s' = nextTransitions s"
  shows "grows s s'" and "well_typed s \<Longrightarrow> well_typed s'"
proof -
  show g: "grows s s'" using assms by (simp add: grows_def)
  show "well_typed s'" if wt: "well_typed s"
    using wt assms grows_class [OF g] refs_ok_grows [OF g]
    by (auto simp: well_typed_def typed_def threads_wf_def pending_ok_def evolves_def)
qed

text \<open>The search fields are of no matter.\<close>

lemma well_typed_cong:
  assumes "objectStorage s' = objectStorage s" and "threadIdMap s' = threadIdMap s"
    and "nextThreadId s' = nextThreadId s" and "nextTransitions s' = nextTransitions s"
  shows "well_typed s' = well_typed s" and "grows s s'"
  using store_step [of s s'] store_step [of s' s] assms by auto

lemma setNext_typed:
  assumes "setNextTransitionForThread q p s = Inr s'" and "well_typed s"
    and "getThreadId p = q" and "refs_ok s p"
  shows "well_typed s' \<and> grows s s'"
proof -
  have s': "s' = s\<lparr>nextTransitions := (nextTransitions s)(q := Some p)\<rparr>"
    using assms(1) by (auto simp: setNextTransitionForThread_def result_simps)
  have g: "grows s s'" by (simp add: s' grows_def)
  show ?thesis
    using assms(2-4) g refs_ok_grows [OF g]
    by (auto simp: s' well_typed_def typed_def threads_wf_def pending_ok_def)
qed

text \<open>
  The pending transition of every thread can be read: it never crashes on a null pointer or a wrong
  cast, and it is an operation of that thread on objects of the right classes.
\<close>

lemma pending_readable:
  assumes "well_typed s" and "q < nextThreadId s"
  shows "\<exists>t. getNextTransitionForThread s q = Inr t \<and> getThreadId t = q \<and> refs_ok s t"
proof -
  have ty: "typed s" and q: "q < MAX_TOTAL_THREADS_IN_PROGRAM"
    using assms by (auto simp: well_typed_def pending_ok_def)
  obtain p where p: "nextTransitions s q = Some p" "getThreadId p = q" "refs_ok s p"
    using assms by (auto simp: well_typed_def pending_ok_def)
  from dynamicCopy_total [OF ty p(3)] obtain t' where
    t': "dynamicCopyInState (methods_of p) (getThreadWithId s) (objectStorage s) = Inr t'" by blast
  have ok: "getThreadId t' = q" "refs_ok s t'" using dynamicCopy_ok [OF ty t'] p(2) by simp_all
  then show ?thesis
    using t' p(1) q
    by (auto simp: getNextTransitionForThread_def refresh_def guardR_def refs_ok_def getThreadId_def
        transition_thread_def split: transition.splits mutex_op.splits)
qed

lemma pending_read:
  assumes "well_typed s" and "getNextTransitionForThread s q = Inr t"
  shows "getThreadId t = q" and "refs_ok s t"
proof -
  have ty: "typed s" using assms(1) by (simp add: well_typed_def)
  obtain p where p: "nextTransitions s q = Some p" and t: "refresh (getThreadWithId s) (objectStorage s) p = Inr t"
    using assms(2) by (auto simp: getNextTransitionForThread_def result_simps split: option.splits)
  then have own: "getThreadId p = q" using assms(1) by (simp add: well_typed_def pending_ok_def)
  obtain t' where t': "dynamicCopyInState (methods_of p) (getThreadWithId s) (objectStorage s) = Inr t'"
    using t by (auto simp: refresh_def result_simps)
  note ok = dynamicCopy_ok [OF ty t']
  show "getThreadId t = q" "refs_ok s t"
    using ok own t t'
    by (auto simp: refresh_def refs_ok_def getThreadId_def transition_thread_def
        split: transition.splits mutex_op.splits)
qed

section \<open>Registering objects and threads\<close>

lemma register_typed:
  assumes "registerVisibleObjectWithSystemIdentity sys v s = Inr (i, s')"
    and "pointers_ok (objectStorage s) v" and "getSystemId v = sys"
  shows "grows s s'" and "well_typed s \<Longrightarrow> well_typed s'"
    and "class_at (objectStorage s') i = Some (object_class v)"
    and "threadIdMap s' = threadIdMap s" and "nextThreadId s' = nextThreadId s"
    and "nextTransitions s' = nextTransitions s"
proof -
  from assms(1) obtain st1 where st1: "registerNewObject v (objectStorage s) = Inr (i, st1)"
    and s': "s' = s\<lparr>objectStorage := mapSystemAddressToShadow sys i st1\<rparr>"
    by (auto simp: registerVisibleObjectWithSystemIdentity_def result_simps)
  have st': "objectStorage s' = mapSystemAddressToShadow sys i st1" by (simp add: s')
  note reg = register_evolves [OF st1 st' assms(2,3)]
  show "grows s s'" "well_typed s \<Longrightarrow> well_typed s'" using store_step [of s s'] reg(1) by (simp_all add: s')
  show "class_at (objectStorage s') i = Some (object_class v)" by (rule reg(2))
  show "threadIdMap s' = threadIdMap s" "nextThreadId s' = nextThreadId s"
    "nextTransitions s' = nextTransitions s" by (simp_all add: s')
qed

lemma addNewThread_typed:
  assumes "addNewThread shadow s = Inr (q, s')" and "well_typed s"
  shows "well_typed s' \<and> grows s s' \<and> threadIdMap s' q \<noteq> None"
proof -
  let ?new = "nextThreadId s"
  let ?s0 = "s\<lparr>nextThreadId := nextThreadId s + 1\<rparr>"
  from assms(1) obtain i s2 th where
    reg: "registerVisibleObjectWithSystemIdentity (thread_sys shadow) (VThread (shadow\<lparr>thread_tid := ?new\<rparr>)) ?s0 = Inr (i, s2)"
    and th: "getThreadWithId (s2\<lparr>threadIdMap := (case threadIdMap s2 ?new of
        None \<Rightarrow> (threadIdMap s2)(?new := Some i) | Some _ \<Rightarrow> threadIdMap s2)\<rparr>) q = Inr th"
    and s': "setNextTransitionForThread q (createInitialTransitionForThread th)
      (s2\<lparr>threadIdMap := (case threadIdMap s2 ?new of
        None \<Rightarrow> (threadIdMap s2)(?new := Some i) | Some _ \<Rightarrow> threadIdMap s2)\<rparr>) = Inr s'"
    and q: "q = ?new"
    by (auto simp: addNewThread_def createNewThread_def Let_def result_simps)
  note r = register_typed [OF reg]
  have ty: "typed s" "pending_ok s" using assms(2) by (simp_all add: well_typed_def)
  have fresh: "threadIdMap s ?new = None" using ty(1) by (auto simp: typed_def threads_wf_def)
  have r': "grows ?s0 s2" "class_at (objectStorage s2) i = Some (ThreadObject ?new)"
    "threadIdMap s2 = threadIdMap s" "nextThreadId s2 = Suc ?new" "nextTransitions s2 = nextTransitions s"
    using r by (simp_all add: pointers_ok_def getSystemId_def)
  let ?s1 = "s2\<lparr>threadIdMap := (threadIdMap s)(?new := Some i)\<rparr>"
  have s1: "s2\<lparr>threadIdMap := (case threadIdMap s2 ?new of
        None \<Rightarrow> (threadIdMap s2)(?new := Some i) | Some _ \<Rightarrow> threadIdMap s2)\<rparr> = ?s1"
    by (simp add: r'(3) fresh)
  have ev: "evolves (objectStorage s) (objectStorage s2)" using r'(1) by (simp add: grows_def)
  have g: "grows s ?s1" using ev fresh by (auto simp: grows_def)
  have ty1: "typed ?s1"
    using ty(1) ev r'(2) class_at_evolves [OF ev]
    by (auto simp: typed_def threads_wf_def r'(3,4) evolves_def less_Suc_eq)
  have th': "thread_tid th = ?new"
    using getThreadWithId_typed(1) [OF ty1] th unfolding s1 q by simp
  have s'': "s' = ?s1\<lparr>nextTransitions := (nextTransitions s)(?new := Some (createInitialTransitionForThread th))\<rparr>"
    and lim: "?new < MAX_TOTAL_THREADS_IN_PROGRAM"
    using s' unfolding s1 q by (auto simp: setNextTransitionForThread_def result_simps r'(5))
  have g': "grows s s'" using g by (simp add: s'' grows_def)
  have new: "getThreadId (createInitialTransitionForThread th) = ?new"
    "refs_ok s' (createInitialTransitionForThread th)"
    using th' by (simp_all add: s'' createInitialTransitionForThread_def getThreadId_def
        transition_thread_def refs_ok_def)
  have "pending_ok s'"
    using ty(2) new lim refs_ok_grows [OF g'] unfolding pending_ok_def
    by (auto simp: s'' r'(4) less_Suc_eq)
  moreover have "typed s'" using ty1 by (simp add: s'' typed_def threads_wf_def)
  ultimately show ?thesis using g' by (simp add: well_typed_def s'' q)
qed

end
