(* ===== verification/ReaderTyping.thy ===== *)
theory ReaderTyping
  imports Typing ReadHandlers
begin

text \<open>
  Every handler of \<open>ReadHandlers\<close> takes a well-typed stack to a well-typed stack and delivers an
  operation of the thread that stopped, on objects that exist.
\<close>

section \<open>The steps of the handlers\<close>

lemma find_object_read: "find_object get sys s = Inr (Some x) \<Longrightarrow> \<exists>i. get i (objectStorage s) = Inr x"
  by (auto simp: find_object_def result_simps split: option.splits)

lemma find_or_undefined_read: "find_or_undefined get sys s = Inr x \<Longrightarrow> \<exists>i. get i (objectStorage s) = Inr x"
  by (auto simp: find_or_undefined_def result_simps dest!: find_object_read split: option.splits)

lemma find_or_register_typed:
  assumes "find_or_register get sys fresh s = Inr (b, x, s')"
    and "pointers_ok (objectStorage s) fresh" and "getSystemId fresh = sys"
  shows "grows s s'" and "well_typed s \<Longrightarrow> well_typed s'" and "\<exists>i. get i (objectStorage s') = Inr x"
proof -
  from assms(1) consider "find_object get sys s = Inr (Some x)" "s' = s"
    | i where "registerVisibleObjectWithSystemIdentity sys fresh s = Inr (i, s')"
        "get i (objectStorage s') = Inr x"
    by (auto simp: find_or_register_def result_simps split: option.splits)
  then have "grows s s' \<and> (well_typed s \<longrightarrow> well_typed s') \<and> (\<exists>i. get i (objectStorage s') = Inr x)"
  proof cases
    case 1
    then show ?thesis using find_object_read by auto
  next
    case 2
    then show ?thesis using register_typed [OF 2(1) assms(2,3)] by auto
  qed
  then show "grows s s'" "well_typed s \<Longrightarrow> well_typed s'" "\<exists>i. get i (objectStorage s') = Inr x"
    by auto
qed

lemma update_object_typed:
  assumes "update_object i f s = Inr s'" and "well_typed s"
    and "\<And>st'. modify_object i f (objectStorage s) = Inr st' \<Longrightarrow> evolves (objectStorage s) st'"
  shows "well_typed s' \<and> grows s s'"
proof -
  from assms(1) obtain st' where st': "modify_object i f (objectStorage s) = Inr st'"
    and s': "s' = s\<lparr>objectStorage := st'\<rparr>"
    by (auto simp: update_object_def result_simps)
  show ?thesis
    using store_step [of s s'] assms(3) [OF st'] assms(2) by (simp add: s')
qed

lemma with_executor_typed:
  "with_executor t mk s = Inr (s', p) \<Longrightarrow> well_typed s \<Longrightarrow>
     s' = s \<and> (\<exists>th. p = mk th \<and> thread_tid th = t \<and> threadIdMap s t \<noteq> None)"
  using getThreadWithId_typed(1) by (auto simp: with_executor_def result_simps well_typed_def)

text \<open>In the shape in which the handlers use them: what is known after a successful step.\<close>

named_theorems typed_steps "what is known after a successful step of a handler"

lemma read_typed [typed_steps]:
  "find_object getMutex sys s = Inr (Some m) \<Longrightarrow> well_typed s \<Longrightarrow>
     class_at (objectStorage s) (mutex_id m) = Some MutexObject"
  "find_object getBarrier sys s = Inr (Some b) \<Longrightarrow> well_typed s \<Longrightarrow>
     class_at (objectStorage s) (barrier_id b) = Some BarrierObject"
  "find_object getCond sys s = Inr (Some c) \<Longrightarrow> well_typed s \<Longrightarrow>
     class_at (objectStorage s) (cond_id c) = Some CondObject"
  "find_or_undefined getMutex sys s = Inr m \<Longrightarrow> well_typed s \<Longrightarrow>
     class_at (objectStorage s) (mutex_id m) = Some MutexObject"
  "find_or_undefined getSem sys s = Inr x \<Longrightarrow> well_typed s \<Longrightarrow>
     class_at (objectStorage s) (sem_id x) = Some SemaphoreObject"
  "find_or_undefined getBarrier sys s = Inr b \<Longrightarrow> well_typed s \<Longrightarrow>
     class_at (objectStorage s) (barrier_id b) = Some BarrierObject"
  "find_or_undefined getRWLock sys s = Inr l \<Longrightarrow> well_typed s \<Longrightarrow>
     class_at (objectStorage s) (rw_id l) = Some RWLockObject"
  "find_or_undefined getRWWLock sys s = Inr w \<Longrightarrow> well_typed s \<Longrightarrow>
     class_at (objectStorage s) (rww_id w) = Some RWWLockObject"
  "getMutex i (objectStorage s) = Inr m \<Longrightarrow> well_typed s \<Longrightarrow>
     class_at (objectStorage s) (mutex_id m) = Some MutexObject"
  "getCond i (objectStorage s) = Inr c \<Longrightarrow> well_typed s \<Longrightarrow>
     class_at (objectStorage s) (cond_id c) = Some CondObject"
  "getBarrier i (objectStorage s) = Inr b \<Longrightarrow> well_typed s \<Longrightarrow>
     class_at (objectStorage s) (barrier_id b) = Some BarrierObject"
  "getRWLock i (objectStorage s) = Inr l \<Longrightarrow> well_typed s \<Longrightarrow>
     class_at (objectStorage s) (rw_id l) = Some RWLockObject"
  by (auto dest!: find_object_read find_or_undefined_read dest: get_class [rotated]
      simp: well_typed_def typed_def)

lemma fresh_objects [simp]:
  "pointers_ok st (VMutex (newMCMutex sys))" "getSystemId (VMutex (newMCMutex sys)) = sys"
  "pointers_ok st (VSemaphore (newMCSemaphore sys n))" "getSystemId (VSemaphore (newMCSemaphore sys n)) = sys"
  "pointers_ok st (VBarrier (newMCBarrier sys n))" "getSystemId (VBarrier (newMCBarrier sys n)) = sys"
  "pointers_ok st (VCond (newMCConditionVariable sys pol))" "getSystemId (VCond (newMCConditionVariable sys pol)) = sys"
  "pointers_ok st (VRWLock (newMCRWLock sys ty))" "getSystemId (VRWLock (newMCRWLock sys ty)) = sys"
  "pointers_ok st (VRWWLock (newMCRWWLock sys ty'))" "getSystemId (VRWWLock (newMCRWWLock sys ty')) = sys"
  "pointers_ok st (VGlobal (newMCGlobalVariable sys v))" "getSystemId (VGlobal (newMCGlobalVariable sys v)) = sys"
  by (simp_all add: pointers_ok_def getSystemId_def newMCMutex_def newMCSemaphore_def newMCBarrier_def
      newMCConditionVariable_def newMCRWLock_def newMCRWWLock_def newMCGlobalVariable_def)

lemma register_and_read:
  assumes "find_or_register get sys fresh s = Inr (b, x, s')"
    and "pointers_ok (objectStorage s) fresh" and "getSystemId fresh = sys" and "well_typed s"
    and "\<And>i. store_wf (objectStorage s') \<Longrightarrow> get i (objectStorage s') = Inr x \<Longrightarrow>
      class_at (objectStorage s') (ident x) = Some k"
  shows "well_typed s' \<and> grows s s' \<and> class_at (objectStorage s') (ident x) = Some k"
  using find_or_register_typed [OF assms(1-3)] assms(4,5) by (auto simp: well_typed_def typed_def)

lemma registered_typed [typed_steps]:
  "find_or_register getMutex sys (VMutex (newMCMutex sys)) s = Inr (b, m, s') \<Longrightarrow> well_typed s \<Longrightarrow>
      well_typed s' \<and> grows s s' \<and> class_at (objectStorage s') (mutex_id m) = Some MutexObject"
  "find_or_register getSem sys (VSemaphore (newMCSemaphore sys n)) s = Inr (b, x, s') \<Longrightarrow> well_typed s \<Longrightarrow>
      well_typed s' \<and> grows s s' \<and> class_at (objectStorage s') (sem_id x) = Some SemaphoreObject"
  "find_or_register getBarrier sys (VBarrier (newMCBarrier sys n)) s = Inr (b, ba, s') \<Longrightarrow> well_typed s \<Longrightarrow>
      well_typed s' \<and> grows s s' \<and> class_at (objectStorage s') (barrier_id ba) = Some BarrierObject"
  "find_or_register getCond sys (VCond (newMCConditionVariable sys pol)) s = Inr (b, c, s') \<Longrightarrow> well_typed s \<Longrightarrow>
      well_typed s' \<and> grows s s' \<and> class_at (objectStorage s') (cond_id c) = Some CondObject"
  "find_or_register getRWLock sys (VRWLock (newMCRWLock sys ty)) s = Inr (b, l, s') \<Longrightarrow> well_typed s \<Longrightarrow>
      well_typed s' \<and> grows s s' \<and> class_at (objectStorage s') (rw_id l) = Some RWLockObject"
  "find_or_register getRWWLock sys (VRWWLock (newMCRWWLock sys ty')) s = Inr (b, w, s') \<Longrightarrow> well_typed s \<Longrightarrow>
      well_typed s' \<and> grows s s' \<and> class_at (objectStorage s') (rww_id w) = Some RWWLockObject"
  "find_or_register getGlobal sys (VGlobal (newMCGlobalVariable sys v)) s = Inr (b, g, s') \<Longrightarrow> well_typed s \<Longrightarrow>
      well_typed s' \<and> grows s s' \<and> class_at (objectStorage s') (global_id g) = Some GlobalObject"
  by - ((rule register_and_read [where ident = mutex_id], assumption, simp, simp, assumption, drule (1) get_class, simp),
    (rule register_and_read [where ident = sem_id], assumption, simp, simp, assumption, drule (1) get_class, simp),
    (rule register_and_read [where ident = barrier_id], assumption, simp, simp, assumption, drule (1) get_class, simp),
    (rule register_and_read [where ident = cond_id], assumption, simp, simp, assumption, drule (1) get_class, simp),
    (rule register_and_read [where ident = rw_id], assumption, simp, simp, assumption, drule (1) get_class, simp),
    (rule register_and_read [where ident = rww_id], assumption, simp, simp, assumption, drule (1) get_class, simp),
    (rule register_and_read [where ident = global_id], assumption, simp, simp, assumption, drule (1) get_class, simp))

lemma registered_cond_typed [typed_steps]:
  "find_or_register_cond sys s = Inr (b, c, s') \<Longrightarrow> well_typed s \<Longrightarrow>
     well_typed s' \<and> grows s s' \<and> class_at (objectStorage s') (cond_id c) = Some CondObject"
  unfolding find_or_register_cond_def by (rule registered_typed(4))

lemma written_typed [typed_steps]:
  "update_object i (on_mutex (\<lambda>m. m\<lparr>mutex_state := mutex_unlocked\<rparr>)) s = Inr s' \<Longrightarrow> well_typed s \<Longrightarrow>
     well_typed s' \<and> grows s s'"
  "update_object i (on_barrier (MCBarrier_wait t)) s = Inr s' \<Longrightarrow> well_typed s \<Longrightarrow>
     well_typed s' \<and> grows s s'"
  "mark_initialized c s = Inr s' \<Longrightarrow> well_typed s \<Longrightarrow> well_typed s' \<and> grows s s'"
  "set_rw_unlocked l s = Inr s' \<Longrightarrow> well_typed s \<Longrightarrow> well_typed s' \<and> grows s s'"
  unfolding mark_initialized_def set_rw_unlocked_def
  by (erule update_object_typed; assumption?; erule write_evolves; auto simp: pointers_ok_def)+

lemma bind_mutex_typed [typed_steps]:
  "update_object i (on_cond (\<lambda>c. Inr (c\<lparr>cond_mutex := Some j\<rparr>))) s = Inr s' \<Longrightarrow> well_typed s \<Longrightarrow>
   class_at (objectStorage s) j = Some MutexObject \<Longrightarrow> well_typed s' \<and> grows s s'"
  by (erule update_object_typed; assumption?; erule write_evolves; auto simp: pointers_ok_def)

lemma check_static_cond_typed [typed_steps]:
  "check_static_cond initialized sys b c s = Inr s' \<Longrightarrow> well_typed s \<Longrightarrow> well_typed s' \<and> grows s s'"
  by (auto simp: check_static_cond_def result_simps split: if_splits dest: written_typed(3))

lemma mutex_to_lock_typed [typed_steps]:
  assumes "mutex_to_lock initialized sys s = Inr (m, s')" and "well_typed s"
  shows "well_typed s' \<and> grows s s' \<and> class_at (objectStorage s') (mutex_id m) = Some MutexObject"
proof -
  from assms(1) obtain b m0 s1 s2 where
    s1: "find_or_register getMutex sys (VMutex (newMCMutex sys)) s = Inr (b, m0, s1)"
    and s2: "s2 = s1 \<or> update_object (mutex_id m0) (on_mutex (\<lambda>m. m\<lparr>mutex_state := mutex_unlocked\<rparr>)) s1 = Inr s2"
    and m: "getMutex (mutex_id m0) (objectStorage s2) = Inr m" and s': "s' = s2"
    by (auto simp: mutex_to_lock_def result_simps split: if_splits)
  have "well_typed s2 \<and> grows s s2"
    using registered_typed(1) [OF s1 assms(2)] s2 written_typed(1) grows_trans by blast
  then show ?thesis using read_typed(9) [OF m] s' by blast
qed

lemma find_or_addNewThread_typed [typed_steps]:
  "find_or_addNewThread shadow s = Inr (q, s') \<Longrightarrow> well_typed s \<Longrightarrow> well_typed s' \<and> grows s s'"
  using addNewThread_typed by (auto simp: find_or_addNewThread_def result_simps split: option.splits)

lemma executor_typed [typed_steps]:
  "with_executor t mk s = Inr (s', p) \<Longrightarrow> well_typed s \<Longrightarrow>
     s' = s \<and> (\<exists>th. p = mk th \<and> thread_tid th = t \<and> threadIdMap s t \<noteq> None)"
  "getThreadWithId s q = Inr th \<Longrightarrow> well_typed s \<Longrightarrow> thread_tid th = q \<and> threadIdMap s q \<noteq> None"
  using with_executor_typed getThreadWithId_typed(1) by (auto simp: well_typed_def)

section \<open>The handlers\<close>

text \<open>
  What every handler delivers: a typed stack that has grown from the one before, and an operation of the
  thread on existing objects.
\<close>

definition delivers :: "tid \<Rightarrow> mcstack \<Rightarrow> mcstack \<Rightarrow> transition \<Rightarrow> bool" where
  "delivers t s s' p \<longleftrightarrow> well_typed s' \<and> grows s s' \<and> getThreadId p = t \<and> refs_ok s' p"

lemmas delivers_intro = delivers_def refs_ok_def getThreadId_def transition_thread_def

lemma thread_handlers:
  assumes "well_typed s"
  shows "MCReadThreadCreate t arg routine sys s = Inr (s', p) \<Longrightarrow> delivers t s s' p"
    and "MCReadThreadJoin t sys s = Inr (s', p) \<Longrightarrow> delivers t s s' p"
    and "MCReadThreadFinish t s = Inr (s', p) \<Longrightarrow> delivers t s s' p"
  using assms
  by (auto simp: MCReadThreadCreate_def MCReadThreadJoin_def MCReadThreadFinish_def result_simps
      delivers_intro dest!: typed_steps intro: grows_trans split: prod.splits)

lemma mutex_handlers:
  assumes "well_typed s"
  shows "MCReadMutexInit t sys s = Inr (s', p) \<Longrightarrow> delivers t s s' p"
    and "MCReadMutexLock initialized t sys s = Inr (s', p) \<Longrightarrow> delivers t s s' p"
    and "MCReadMutexTrylock initialized t sys s = Inr (s', p) \<Longrightarrow> delivers t s s' p"
    and "MCReadMutexUnlock t sys s = Inr (s', p) \<Longrightarrow> delivers t s s' p"
  using assms
  by (auto simp: MCReadMutexInit_def MCReadMutexLock_def MCReadMutexTrylock_def MCReadMutexUnlock_def
      result_simps delivers_intro dest!: typed_steps intro: grows_trans)

lemma sem_handlers:
  assumes "well_typed s"
  shows "MCReadSemInit t sys n s = Inr (s', p) \<Longrightarrow> delivers t s s' p"
    and "MCReadSemPost t sys s = Inr (s', p) \<Longrightarrow> delivers t s s' p"
    and "MCReadSemEnqueue t sys s = Inr (s', p) \<Longrightarrow> delivers t s s' p"
    and "MCReadSemWait t sys s = Inr (s', p) \<Longrightarrow> delivers t s s' p"
  using assms
  by (auto simp: MCReadSemInit_def MCReadSemPost_def MCReadSemEnqueue_def MCReadSemWait_def
      result_simps delivers_intro dest!: typed_steps intro: grows_trans)

lemma barrier_handlers:
  assumes "well_typed s"
  shows "MCReadBarrierInit t sys n s = Inr (s', p) \<Longrightarrow> delivers t s s' p"
    and "MCReadBarrierEnqueue t sys s = Inr (s', p) \<Longrightarrow> delivers t s s' p"
    and "MCReadBarrierWait t sys s = Inr (s', p) \<Longrightarrow> delivers t s s' p"
  using assms
  by (auto simp: MCReadBarrierInit_def MCReadBarrierEnqueue_def MCReadBarrierWait_def
      result_simps delivers_intro dest!: typed_steps intro: grows_trans split: option.splits if_splits)

lemma cond_handlers:
  assumes "well_typed s"
  shows "MCReadCondInit t sys s = Inr (s', p) \<Longrightarrow> delivers t s s' p"
    and "MCReadCondSignal initialized t sys s = Inr (s', p) \<Longrightarrow> delivers t s s' p"
    and "MCReadCondBroadcast initialized t sys s = Inr (s', p) \<Longrightarrow> delivers t s s' p"
  using assms
  by (auto simp: MCReadCondInit_def MCReadCondSignal_def MCReadCondBroadcast_def
      result_simps delivers_intro dest!: typed_steps intro: grows_trans split: option.splits if_splits)

lemma cond_wait_handler:
  assumes "MCReadCondWait t sys msys s = Inr (s', p)" and "well_typed s"
  shows "delivers t s s' p"
proof -
  from assms(1) obtain c bound where c: "find_object getCond sys s = Inr (Some c)"
    and p: "with_executor t (\<lambda>th. MCCondTransition th (CondWait bound) c) s = Inr (s', p)"
    unfolding MCReadCondWait_def
    by (auto simp: bindR_def guardR_def split: sum.splits option.splits if_splits)
  show ?thesis
    using executor_typed(1) [OF p assms(2)] read_typed(3) [OF c assms(2)] assms(2)
    by (auto simp: delivers_intro)
qed

lemma cond_enqueue_handler:
  assumes "MCReadCondEnqueue initialized t sys msys s = Inr (s', p)" and "well_typed s"
  shows "delivers t s s' p"
proof -
  from assms(1) obtain m b c s1 s2 c' s3 c'' where
    m: "find_object getMutex msys s = Inr (Some m)"
    and s1: "find_or_register_cond sys s = Inr (b, c, s1)"
    and s2: "check_static_cond initialized sys b c s1 = Inr s2"
    and s3: "update_object (cond_id c) (on_cond (\<lambda>c. Inr (c\<lparr>cond_mutex := Some (mutex_id m)\<rparr>))) s2 = Inr s3"
    and c'': "getCond (cond_id c) (objectStorage s3) = Inr c''"
    and p: "with_executor t (\<lambda>th. MCCondTransition th (CondEnqueue m) c'') s3 = Inr (s', p)"
    by (auto simp: MCReadCondEnqueue_def result_simps split: option.splits)
  have t1: "well_typed s1" "grows s s1" using registered_cond_typed [OF s1 assms(2)] by auto
  have t2: "well_typed s2" "grows s1 s2" using check_static_cond_typed [OF s2 t1(1)] by auto
  have m2: "class_at (objectStorage s2) (mutex_id m) = Some MutexObject"
    using grows_class [OF grows_trans [OF t1(2) t2(2)] read_typed(1) [OF m assms(2)]] .
  have t3: "well_typed s3" "grows s2 s3" using bind_mutex_typed [OF s3 t2(1) m2] by auto
  have m3: "class_at (objectStorage s3) (mutex_id m) = Some MutexObject"
    using grows_class [OF t3(2) m2] .
  show ?thesis
    using executor_typed(1) [OF p t3(1)] t3(1) m3 read_typed(10) [OF c'' t3(1)]
      grows_trans [OF grows_trans [OF t1(2) t2(2)] t3(2)]
    by (auto simp: delivers_intro)
qed

lemma rwlock_handlers:
  assumes "well_typed s"
  shows "MCReadRWLockInit t sys s = Inr (s', p) \<Longrightarrow> delivers t s s' p"
    and "MCReadRWLockEnqueue k t sys s = Inr (s', p) \<Longrightarrow> delivers t s s' p"
    and "MCReadRWLockLock k initialized t sys s = Inr (s', p) \<Longrightarrow> delivers t s s' p"
    and "MCReadRWLockUnlock t sys s = Inr (s', p) \<Longrightarrow> delivers t s s' p"
  using assms
  by (auto simp: MCReadRWLockInit_def MCReadRWLockEnqueue_def MCReadRWLockLock_def MCReadRWLockUnlock_def
      result_simps delivers_intro dest!: typed_steps intro: grows_trans split: if_splits)

lemma rwwlock_handlers:
  assumes "well_typed s"
  shows "MCReadRWWLockInit t sys s = Inr (s', p) \<Longrightarrow> delivers t s s' p"
    and "MCReadRWWLockOperation k' t sys s = Inr (s', p) \<Longrightarrow> delivers t s s' p"
    and "MCReadRWWLockUnlock t sys s = Inr (s', p) \<Longrightarrow> delivers t s s' p"
  using assms
  by (auto simp: MCReadRWWLockInit_def MCReadRWWLockOperation_def MCReadRWWLockUnlock_def
      result_simps delivers_intro dest!: typed_steps intro: grows_trans)

lemma global_handlers:
  assumes "well_typed s"
  shows "MCReadGlobalRead t addr s = Inr (s', p) \<Longrightarrow> delivers t s s' p"
    and "MCReadGlobalWrite t addr v s = Inr (s', p) \<Longrightarrow> delivers t s s' p"
  using assms
  by (auto simp: MCReadGlobalRead_def MCReadGlobalWrite_def result_simps delivers_intro
      dest!: typed_steps intro: grows_trans dest: grows_thread)

lemma event_handlers:
  assumes "well_typed s"
  shows "MCReadAbortTransition t s = Inr (s', p) \<Longrightarrow> delivers t s s' p"
    and "MCReadExitTransition t code s = Inr (s', p) \<Longrightarrow> delivers t s s' p"
    and "MCReadProgressTransition t s = Inr (s', p) \<Longrightarrow> delivers t s s' p"
  using assms
  by (auto simp: MCReadAbortTransition_def MCReadExitTransition_def MCReadProgressTransition_def
      delivers_intro dest!: typed_steps intro: grows_trans)

lemma read_operation_typed:
  assumes "read_operation initialized t op s = Inr (s', p)" and "well_typed s"
  shows "delivers t s s' p"
  using assms(1)
  by (cases op)
    (auto simp: read_operation_def MCReadThreadStart_def MCReadRWLockReaderEnqueue_def
      MCReadRWLockWriterEnqueue_def MCReadRWLockReaderLock_def MCReadRWLockWriterLock_def
      MCReadRWWLockReaderEnqueue_def MCReadRWWLockReaderLock_def MCReadRWWLockWriter1Enqueue_def
      MCReadRWWLockWriter1Lock_def MCReadRWWLockWriter2Enqueue_def MCReadRWWLockWriter2Lock_def
      intro: thread_handlers [OF assms(2)] mutex_handlers [OF assms(2)] sem_handlers [OF assms(2)]
        barrier_handlers [OF assms(2)] cond_handlers [OF assms(2)] cond_wait_handler [OF _ assms(2)] cond_enqueue_handler [OF _ assms(2)]
        rwlock_handlers [OF assms(2)] rwwlock_handlers [OF assms(2)] global_handlers [OF assms(2)]
        event_handlers [OF assms(2)])

end
