(* ===== verification/TypedSearch.thy ===== *)
theory TypedSearch
  imports Exploration ReaderTyping
begin

text \<open>
  The typing of \<^theory_text>\<open>Typing\<close> and \<^theory_text>\<open>ReaderTyping\<close> carried through the search of
  \<^verbatim>\<open>src/mcmini_private.cpp\<close>: every reachable stack is well-typed, so every pending transition
  can be read.  With it, two invariants the races need: what the search is about to run is the
  pending transition of its thread, and a thread searched from a state sleeps there.
\<close>

section \<open>Steps of the model\<close>

text \<open>The parts of the stack the typing reads.\<close>

definition same_objects :: "mcstack \<Rightarrow> mcstack \<Rightarrow> bool" where
  "same_objects s s' \<longleftrightarrow> objectStorage s' = objectStorage s \<and> threadIdMap s' = threadIdMap s
     \<and> nextThreadId s' = nextThreadId s \<and> nextTransitions s' = nextTransitions s"

lemma same_objects_typed: "same_objects s s' \<Longrightarrow> well_typed s' = well_typed s"
  unfolding same_objects_def by (rule well_typed_cong(1)) simp_all

lemma getNext_same_objects:
  assumes "same_objects s s'"
  shows "getNextTransitionForThread s' = getNextTransitionForThread s"
proof -
  have "getThreadWithId s' = getThreadWithId s"
    using assms by (intro ext) (simp add: same_objects_def getThreadWithId_def cong: option.case_cong)
  then show ?thesis
    using assms by (intro ext)
      (simp add: same_objects_def getNextTransitionForThread_def cong: option.case_cong)
qed

lemma virtuallyApply_typed:
  assumes "virtuallyApplyTransition t s = Inr s'" and "well_typed s"
  shows "well_typed s'"
proof -
  from assms(1) obtain t' st where "applyToState (methods_of t') (objectStorage s) = Inr st"
    and s': "s' = s\<lparr>objectStorage := st\<rparr>"
    by (auto simp: virtuallyApplyTransition_def result_simps)
  then show ?thesis using apply_evolves store_step(2) [of s s'] assms(2) by (simp add: s')
qed

lemma virtuallyUnapply_typed:
  assumes "virtuallyUnapplyTransition t s = Inr s'" and "well_typed s"
  shows "well_typed s'"
proof -
  from assms(1) obtain t' st where "unapplyToState (methods_of t') (objectStorage s) = Inr st"
    and s': "s' = s\<lparr>objectStorage := st\<rparr>"
    by (auto simp: virtuallyUnapplyTransition_def result_simps)
  then show ?thesis using unapply_evolves store_step(2) [of s s'] assms(2) by (simp add: s')
qed

lemma search_fields_same_objects:
  "growTransitionStackRunning t s = Inr s' \<Longrightarrow> same_objects s s'"
  "growStateStackWith cv r s = Inr s' \<Longrightarrow> same_objects s s'"
  "same_objects s (updateThreadData q f s)"
  "updateThreadDataR q g s = Inr s' \<Longrightarrow> same_objects s s'"
  "same_objects s (incrementThreadDepthIfNecessary t s)"
  "same_objects s (decrementThreadDepthIfNecessary t s)"
  by (auto simp: growTransitionStackRunning_def growStateStackWith_def updateThreadData_def
      updateThreadDataR_def incrementThreadDepthIfNecessary_def decrementThreadDepthIfNecessary_def
      same_objects_def result_simps)

lemma same_objects_refl [simp]: "same_objects s s"
  by (simp add: same_objects_def)

lemma same_objects_trans: "same_objects s s' \<Longrightarrow> same_objects s' s'' \<Longrightarrow> same_objects s s''"
  by (simp add: same_objects_def)

lemma growStateStackRunning_same_objects:
  "growStateStackRunningTransition entry t s = Inr s' \<Longrightarrow> same_objects s s'"
  by (erule growStateStackRunning_cases) (simp add: same_objects_def)

lemma virtuallyRun_typed:
  assumes "virtuallyRunTransition t s = Inr s'" and "well_typed s"
  shows "well_typed s'"
proof -
  from assms(1) obtain s1 where s1: "virtuallyApplyTransition t s = Inr s1"
    and s': "updateThreadDataR (getThreadId t) (pushNewLatestExecutionPoint (nat (transitionStackTop s)))
         (incrementThreadDepthIfNecessary t s1) = Inr s'"
    by (auto simp: virtuallyRunTransition_def result_simps)
  have "same_objects s1 s'"
    using search_fields_same_objects(4) [OF s'] search_fields_same_objects(5) same_objects_trans by blast
  then show ?thesis using virtuallyApply_typed [OF s1 assms(2)] same_objects_typed by blast
qed

lemma virtuallyRun_grows:
  assumes "virtuallyRunTransition t s = Inr s'"
  shows "grows s s'"
proof -
  from assms obtain t' st s1 where st: "applyToState (methods_of t') (objectStorage s) = Inr st"
    and s1: "s1 = s\<lparr>objectStorage := st\<rparr>"
    and s': "updateThreadDataR (getThreadId t) (pushNewLatestExecutionPoint (nat (transitionStackTop s)))
         (incrementThreadDepthIfNecessary t s1) = Inr s'"
    by (auto simp: virtuallyRunTransition_def virtuallyApplyTransition_def result_simps)
  have "same_objects s1 s'"
    using search_fields_same_objects(4) [OF s'] search_fields_same_objects(5) same_objects_trans by blast
  then show ?thesis using apply_evolves [OF st] by (simp add: s1 grows_def same_objects_def)
qed

lemma simulate_typed_grows:
  assumes "simulateRunningTransition entry t (read_operation initialized (getThreadId t) op) s = Inr s'"
    and "well_typed s"
  shows "well_typed s' \<and> grows s s'"
proof -
  from assms(1) obtain s1 s2 s3 s4 nxt where s1: "growTransitionStackRunning t s = Inr s1"
    and s2: "growStateStackRunningTransition entry t s1 = Inr s2"
    and s3: "virtuallyRunTransition t s2 = Inr s3"
    and s4: "read_operation initialized (getThreadId t) op s3 = Inr (s4, nxt)"
    and s': "setNextTransitionForThread (getThreadId t) nxt s4 = Inr s'"
    by (auto simp: simulateRunningTransition_def result_simps)
  have same: "same_objects s s2"
    using search_fields_same_objects(1) [OF s1] growStateStackRunning_same_objects [OF s2] same_objects_trans by blast
  then have "grows s s2" by (simp add: grows_def same_objects_def)
  note grows_trans [OF this virtuallyRun_grows [OF s3]]
  moreover have "delivers (getThreadId t) s3 s4 nxt"
    using read_operation_typed [OF s4] virtuallyRun_typed [OF s3] same same_objects_typed assms(2) by blast
  ultimately show ?thesis using setNext_typed [OF s'] grows_trans by (simp add: delivers_def) blast
qed

lemmas simulate_typed = simulate_typed_grows [THEN conjunct1]
lemmas simulate_grows = simulate_typed_grows [THEN conjunct2]

lemma only_backtracking_same_objects: "only_backtracking s s' \<Longrightarrow> same_objects s s'"
  using same_but_backtracking_fields by (simp add: only_backtracking_def same_objects_def)

section \<open>Going back\<close>

lemma foldR_typed:
  assumes "foldR f xs s = Inr s'" and "well_typed s"
    and "\<And>x s s'. x \<in> set xs \<Longrightarrow> f x s = Inr s' \<Longrightarrow> well_typed s \<Longrightarrow> well_typed s'"
  shows "well_typed s'"
  by (rule foldR_invariant [OF assms(1), where P = well_typed]) (use assms(2,3) in auto)

lemma rerun_typed:
  assumes "virtuallyRerunTransitionAtIndex i s = Inr s'" and "well_typed s"
  shows "well_typed s'"
proof -
  let ?p = "getThreadId (transitionStack s ! i)"
  from assms(1) obtain s1 s2 where s1: "virtuallyApplyTransition (transitionStack s ! i) s = Inr s1"
    and s2: "updateThreadDataR ?p (pushNewLatestExecutionPoint i)
      (incrementThreadDepthIfNecessary (transitionStack s ! i) s1) = Inr s2"
    and s': "s' = updateThreadData ?p (setClockVector (clockVectorForTransitionAtIndex i s2)) s2"
    by (auto simp: virtuallyRerunTransitionAtIndex_def Let_def result_simps)
  have "same_objects s1 s'"
    unfolding s' using search_fields_same_objects(3,5) search_fields_same_objects(4) [OF s2]
      same_objects_trans by blast
  then show ?thesis using virtuallyApply_typed [OF s1 assms(2)] same_objects_typed by blast
qed

lemma revert_typed: "virtuallyRevertTransitionAtIndex i s = Inr s' \<Longrightarrow> well_typed s \<Longrightarrow> well_typed s'"
  by (auto simp: virtuallyRevertTransitionAtIndex_def Let_def result_simps
      dest!: virtuallyUnapply_typed
      intro: same_objects_typed [OF search_fields_same_objects(3), THEN iffD2]
        same_objects_typed [OF search_fields_same_objects(6), THEN iffD2])

lemma restore_typed:
  assumes "restoreNextTransition k q s = Inr s'" and "well_typed s"
    and "getThreadId (transitionStack s ! k) = q"
  shows "well_typed s'"
proof -
  from assms(1) obtain d where
    d: "dynamicCopyInState (methods_of (transitionStack s ! k)) (getThreadWithId s) (objectStorage s) = Inr d"
    and s': "setNextTransitionForThread q d s = Inr s'"
    by (auto simp: restoreNextTransition_def result_simps)
  have "typed s" using assms(2) by (simp add: well_typed_def)
  from dynamicCopy_ok [OF this d] show ?thesis using setNext_typed [OF s' assms(2)] assms(3) by simp
qed

lemma refreshNext_typed:
  assumes "refreshNextTransition q s = Inr s'" and "well_typed s"
  shows "well_typed s'"
proof -
  from assms(1) obtain p d where p: "getNextTransitionForThread s q = Inr p"
    and d: "dynamicCopyInState (methods_of p) (getThreadWithId s) (objectStorage s) = Inr d"
    and s': "setNextTransitionForThread q d s = Inr s'"
    by (auto simp: refreshNextTransition_def result_simps)
  have "typed s" using assms(2) by (simp add: well_typed_def)
  from dynamicCopy_ok [OF this d] show ?thesis
    using setNext_typed [OF s' assms(2)] pending_read(1) [OF assms(2) p] by simp
qed

lemma fold_updateThreadData_same_objects: "same_objects s (fold (\<lambda>q. updateThreadData q f) qs s)"
  by (induction qs arbitrary: s)
     (simp, metis fold_simps(2) search_fields_same_objects(3) same_objects_trans)

lemma reset_typed:
  assumes "well_typed s"
  shows "well_typed (s\<lparr>objectStorage := resetObjectsToInitialStateInStore (objectStorage s)\<rparr>)"
  using assms reset_evolves store_step(2) [of s "s\<lparr>objectStorage := resetObjectsToInitialStateInStore (objectStorage s)\<rparr>"]
  by (simp add: well_typed_def typed_def)

lemma reflect_typed:
  assumes "reflectStateAtTransitionIndex index s = Inr s'" and "well_typed s"
  shows "well_typed s'"
  using assms(1)
proof (cases rule: reflect_cases)
  case (1 s1 s2 s3)
  let ?closest = "threadToClosestIndexMap index (transitionStack s)"
  let ?ts = "filter (\<lambda>t. ?closest t \<noteq> None) [0..<MAX_TOTAL_THREADS_IN_PROGRAM]"
  have start: "well_typed (fold (\<lambda>t. updateThreadData t f) ts u)" if "well_typed u" for f ts u
    using that fold_updateThreadData_same_objects same_objects_typed by blast
  have t1: "well_typed s1"
    using 1(2) start [OF assms(2)] start [OF reset_typed [OF assms(2)]]
    by (auto split: if_splits intro: foldR_typed [OF _ _ revert_typed] foldR_typed [OF _ _ rerun_typed])
  have "well_typed s2 \<and> transitionStack s2 = transitionStack s"
  proof (rule foldR_invariant [OF 1(3), where P = "\<lambda>u. well_typed u \<and> transitionStack u = transitionStack s"])
    show "well_typed s1 \<and> transitionStack s1 = transitionStack s"
      using t1 1(6) by (simp add: same_stacks_def)
  next
    fix q u u'
    assume q: "q \<in> set ?ts" and u: "well_typed u \<and> transitionStack u = transitionStack s"
      and u': "restoreNextTransition (the (?closest q)) q u = Inr u'"
    from q obtain k where k: "?closest q = Some k" by auto
    then have "getThreadId (transitionStack s ! k) = q" using closest_first by blast
    then have "getThreadId (transitionStack u ! the (?closest q)) = q" using k u by simp
    then show "well_typed u' \<and> transitionStack u' = transitionStack s"
      using restore_typed [OF u'] restore_stacks [OF u'] u by (simp add: same_stacks_def)
  qed
  then have "well_typed s3"
    using 1(4) foldR_typed [OF _ _ refreshNext_typed] by (auto split: if_splits)
  moreover have "same_objects s3 s'" by (simp add: 1(5) same_objects_def)
  ultimately show ?thesis using same_objects_typed by blast
qed

section \<open>Reachable states are well-typed\<close>

lemma createMainThread_typed:
  assumes "createMainThread sys s = Inr (p, s1)" and "objectStorage s = newMCObjectStore"
    and "threadIdMap s = (\<lambda>_. None)" and "nextThreadId s = 0" and "nextTransitions s = (\<lambda>_. None)"
    and "getThreadWithId s1 TID_MAIN_THREAD = Inr th"
    and "setNextTransitionForThread TID_MAIN_THREAD (createInitialTransitionForThread th) s1 = Inr s2"
  shows "well_typed s2"
proof -
  let ?th = "(newMCThread 0 0 0 sys)\<lparr>thread_state := alive, thread_tid := 0, thread_id := 0\<rparr>"
  have s1: "objectStorage s1 = \<lparr>storage = [(VThread ?th, VThread ?th)], systemVisibleObjectMap = [sys \<mapsto> 0]\<rparr>"
    "threadIdMap s1 = [0 \<mapsto> 0]" "nextThreadId s1 = 1" "nextTransitions s1 = (\<lambda>_. None)"
    using assms(1-5)
    by (auto simp: createMainThread_def createNewThread_def Let_def result_simps newMCThread_def
        registerVisibleObjectWithSystemIdentity_def registerNewObject_def newMCObjectStore_def
        mapSystemAddressToShadow_def setObjectId_def object_copy_def guardR_def fun_eq_iff
        split: if_splits)
  have th: "th = ?th"
    using assms(6) by (auto simp: getThreadWithId_def s1 TID_MAIN_THREAD_def getThread_def
        getObjectWithId_def result_simps newMCThread_def)
  have "s2 = s1\<lparr>nextTransitions := [0 \<mapsto> createInitialTransitionForThread ?th]\<rparr>"
    using assms(7) by (auto simp: setNextTransitionForThread_def result_simps s1 th TID_MAIN_THREAD_def)
  then show ?thesis
    by (auto simp: well_typed_def typed_def pending_ok_def threads_wf_def store_wf_def s1 getObjectId_def
        getSystemId_def pointers_ok_def class_at_def newMCThread_def MAX_TOTAL_THREADS_IN_PROGRAM_def
        createInitialTransitionForThread_def getThreadId_def transition_thread_def refs_ok_def)
qed

lemma initial_typed:
  assumes "initialSearch prog cfg = Inr st"
  shows "well_typed (programState st)"
proof -
  from assms obtain s0 s1 p s2 th where
    s0: "growStateStack (newMCStack cfg) = Inr s0"
    and s1: "createMainThread (main_pthread prog) s0 = Inr (p, s1)"
    and th: "getThreadWithId s1 TID_MAIN_THREAD = Inr th"
    and s2: "setNextTransitionForThread TID_MAIN_THREAD (createInitialTransitionForThread th) s1 = Inr s2"
    and st: "programState st = s2"
    by (auto simp: initialSearch_def mc_prepare_to_model_check_new_program_def result_simps)
  have "objectStorage s0 = newMCObjectStore" "threadIdMap s0 = (\<lambda>_. None)" "nextThreadId s0 = 0"
    "nextTransitions s0 = (\<lambda>_. None)"
    using s0 by (auto simp: growStateStack_def growStateStackWith_def newMCStack_def result_simps)
  from createMainThread_typed [OF s1 this th s2] show ?thesis by (simp add: st)
qed

lemma iteration_typed:
  assumes "searchIteration prog opts t st = Inr (nxt, st')" and "iteration_order (set_order prog)"
    and "search_ok (programState st)" and "well_typed (programState st)"
  shows "well_typed (programState st')"
proof -
  from assms(1) obtain entry initialized op s1 where
    s1: "simulateRunningTransition entry t (read_operation initialized (getThreadId t) op) (programState st) = Inr s1"
    and upd: "dynamicallyUpdateBacktrackSets (set_order prog) s1 = Inr (programState st')"
    by (rule searchIteration_cases)
  have "search_ok s1" by (rule simulate_search_ok(1) [OF s1 frames_read_operation assms(3)])
  then have "only_backtracking s1 (programState st')"
    using update_only_backtracking [OF upd assms(2)] by (simp add: search_ok_def clocks_ok_def)
  then show ?thesis
    using simulate_typed [OF s1 assms(4)] same_objects_typed only_backtracking_same_objects by blast
qed

lemma branch_typed:
  assumes "prepareBranch b st = Inr (q, st')" and "b \<noteq> FIRST_BRANCH" and "well_typed (programState st)"
  shows "well_typed (programState st')"
  using assms(1,2)
proof (cases rule: prepareBranch_cases)
  case (1 item s1)
  have "same_objects (programState st) ((programState st)\<lparr>stateStack :=
      (stateStack (programState st))[nat b := item]\<rparr>)"
    by (simp add: same_objects_def)
  then have "well_typed ((programState st)\<lparr>stateStack := (stateStack (programState st))[nat b := item]\<rparr>)"
    using assms(3) same_objects_typed by blast
  then show ?thesis using reflect_typed [OF 1(4)] 1(6) by simp
qed

lemma reachable_typed:
  assumes "reachable prog opts cfg (nxt, st)" and "iteration_order (set_order prog)"
  shows "well_typed (programState st)"
  using assms(1)
proof (induction "(nxt, st)" arbitrary: nxt st rule: reachable.induct)
  case (start st0 p st1 t st)
  then show ?case
    using initial_typed [OF start(1)] first_branch_ok(3) [OF start(1,2)] beginSearch_keeps(1) [OF start(3)]
    by simp
next
  case (iterate t st0)
  have "search_ok (programState st0)" using reachable_ok [OF iterate(1) assms(2)] by simp
  then show ?case using iteration_typed [OF iterate(3) assms(2)] iterate(2) by simp
next
  case (next_branch st0 b st1 p st2 t st)
  have "well_typed (programState st1)"
    using next_branch(2) finishBranch_keeps(1) [OF next_branch(3)] by simp
  then show ?case
    using branch_typed [OF next_branch(5,4)] beginSearch_keeps(1) [OF next_branch(6)] by simp
qed

section \<open>The transition about to run\<close>

lemma firstEnabledLoop_reads:
  "firstEnabledLoop s sTop qs = Inr (Some t) \<Longrightarrow> \<exists>q. getNextTransitionForThread s q = Inr t"
  by (induction qs) (auto simp: result_simps split: if_splits)

lemma nextFairLoop_reads:
  "nextFairLoop s sTop w qs = Inr (Some t) \<Longrightarrow> \<exists>q. getNextTransitionForThread s q = Inr t"
  by (induction qs arbitrary: w) (auto simp: result_simps Let_def split: if_splits)

lemma chooseNext_reads:
  assumes "chooseNextTransition opts t st = Inr (Some t', st')"
  shows "\<exists>q. getNextTransitionForThread (programState st') q = Inr t'"
  using assms firstEnabledLoop_reads nextFairLoop_reads
  by (fastforce simp: chooseNextTransition_def getFirstEnabledTransition_def getNextFairTransition_def
      result_simps split: if_splits dest: traceSeqEntry_keeps(1))

lemma iteration_reads:
  assumes "searchIteration prog opts t st = Inr (Some t', st')"
  shows "\<exists>q. getNextTransitionForThread (programState st') q = Inr t'"
proof -
  from assms obtain st2 nxt0 st3 where
    st3: "chooseNextTransition opts t st2 = Inr (nxt0, st3)"
    and st': "finishTrace opts nxt0 st3 = Inr (Some t', st')"
    by (auto simp: searchIteration_def result_simps)
  have "nxt0 = Some t'" using finishTrace_keeps(3) [OF st'] by simp
  then show ?thesis using chooseNext_reads [of opts t st2 t' st3] st3 finishTrace_keeps(1) [OF st'] by simp
qed

text \<open>The search only ever runs what the pending transition of a thread reads as.\<close>

lemma runs_pending:
  assumes "reachable prog opts cfg (Some t, st)" and "iteration_order (set_order prog)"
  shows "getNextTransitionForThread (programState st) (getThreadId t) = Inr t"
proof -
  from assms(1) have "\<exists>q. getNextTransitionForThread (programState st) q = Inr t"
    by (cases rule: reachable.cases)
       (auto dest: beginSearch_keeps(1,3) iteration_reads, (metis beginSearch_keeps(1,3))+)
  then show ?thesis
    using pending_read(1) reachable_typed [OF assms] by blast
qed

section \<open>Searched threads sleep\<close>

text \<open>
  A thread that has run from a state sleeps there, apart from the thread that is just going to run
  from the state on top.
\<close>

definition searched_asleep :: "tid set \<Rightarrow> stack_item list \<Rightarrow> bool" where
  "searched_asleep X items \<longleftrightarrow> (\<forall>j < length items. doneSet (items ! j) \<subseteq>
     sleepSet (items ! j) \<union> (if Suc j = length items then X else {}))"

lemma searched_asleep_mono: "searched_asleep {} items \<Longrightarrow> searched_asleep X items"
  unfolding searched_asleep_def by fastforce

lemma sleepSet_departed [simp]: "sleepSet (departed_item t en it) = insert t (sleepSet it)"
  by (simp add: departed_item_def stack_item_defs)

lemma simulate_asleep:
  assumes "simulateRunningTransition entry t handler s = Inr s'" and "frames_search handler"
    and "searched_asleep {getThreadId t} (stateStack s)"
  shows "searched_asleep {} (stateStack s')"
  using assms(1,2)
proof (cases rule: simulateRunningTransition_cases)
  case (1 en sl)
  obtain its it where st: "stateStack s = its @ [it]" using 1(2) by (cases "stateStack s" rule: rev_cases) auto
  have old: "\<forall>j < length its. doneSet (its ! j) \<subseteq> sleepSet (its ! j)"
    and top: "doneSet it \<subseteq> insert (getThreadId t) (sleepSet it)"
    using assms(3) unfolding searched_asleep_def st
    by (auto simp: nth_append split: if_splits)
  show ?thesis
    using 1(5) old top by (auto simp: searched_asleep_def st nth_append nth_Cons' less_Suc_eq newStackItem_def)
qed

lemma update_asleep:
  assumes "only_backtracking s s'" and "searched_asleep X (stateStack s)"
  shows "searched_asleep X (stateStack s')"
proof -
  have "same_but_backtracking s s'" using assms(1) by (simp add: only_backtracking_def)
  note eq = race_test_same_but_backtracking(3,4) [OF this]
  show ?thesis
    using assms(2) eq only_backtracking_length [OF assms(1)] by (simp add: searched_asleep_def)
qed

lemma iteration_asleep:
  assumes "searchIteration prog opts t st = Inr (nxt, st')" and "iteration_order (set_order prog)"
    and "search_ok (programState st)" and "searched_asleep {getThreadId t} (stateStack (programState st))"
  shows "searched_asleep {} (stateStack (programState st'))"
proof -
  from assms(1) obtain entry initialized op s1 where
    s1: "simulateRunningTransition entry t (read_operation initialized (getThreadId t) op) (programState st) = Inr s1"
    and upd: "dynamicallyUpdateBacktrackSets (set_order prog) s1 = Inr (programState st')"
    by (rule searchIteration_cases)
  have "search_ok s1" by (rule simulate_search_ok(1) [OF s1 frames_read_operation assms(3)])
  then have "only_backtracking s1 (programState st')"
    using update_only_backtracking [OF upd assms(2)] by (simp add: search_ok_def clocks_ok_def)
  then show ?thesis
    using simulate_asleep [OF s1 frames_read_operation assms(4)] update_asleep by blast
qed

lemma branch_asleep:
  assumes "prepareBranch b st = Inr (q, st')" and "b \<noteq> FIRST_BRANCH"
    and "search_ok (programState st)" and "searched_asleep {} (stateStack (programState st))"
  shows "searched_asleep {q} (stateStack (programState st'))"
  using assms(1,2)
proof (cases rule: prepareBranch_cases)
  case (1 item s1)
  have wf: "item_wf (stateStack (programState st) ! nat b)"
    using assms(3) 1(2) by (simp add: search_ok_def items_ok_def)
  note pop = pop_spec [OF wf 1(3)]
  have "stateStack s1 = take (Suc (nat b)) ((stateStack (programState st))[nat b := item])"
    using reflect_stacks(3) [OF 1(4)] 1(1) by simp
  then show ?thesis
    using assms(4) 1(2,6) pop(5,6)
    by (auto simp: searched_asleep_def nth_list_update min_def split: if_splits) 
qed

lemma reachable_asleep:
  assumes "reachable prog opts cfg (nxt, st)" and "iteration_order (set_order prog)"
  shows "searched_asleep (case nxt of None \<Rightarrow> {} | Some t \<Rightarrow> {getThreadId t}) (stateStack (programState st))"
  using assms(1)
proof (induction "(nxt, st)" arbitrary: nxt st rule: reachable.induct)
  case (start st0 p st1 t st)
  then show ?case
    using initial_ok(4) [OF start(1)] first_branch_ok(3) [OF start(1,2)] beginSearch_keeps(1) [OF start(3)]
    by (simp add: searched_asleep_def newStackItem_def)
next
  case (iterate t st0)
  have "search_ok (programState st0)" using reachable_ok [OF iterate(1) assms(2)] by simp
  then have "searched_asleep {} (stateStack (programState st))"
    using iteration_asleep [OF iterate(3) assms(2)] iterate(2) by simp
  then show ?case by (rule searched_asleep_mono)
next
  case (next_branch st0 b st1 p st2 t st)
  have ps: "programState st1 = programState st0" by (rule finishBranch_keeps(1) [OF next_branch(3)])
  have ok: "search_ok (programState st1)" and ty: "well_typed (programState st1)"
    using reachable_ok [OF next_branch(1) assms(2)] reachable_typed [OF next_branch(1) assms(2)] ps by simp_all
  have "searched_asleep {p} (stateStack (programState st2))"
    using branch_asleep [OF next_branch(5,4) ok] next_branch(2) ps by simp
  moreover have "getThreadId t = p"
    using pending_read(1) [OF branch_typed [OF next_branch(5,4) ty] beginSearch_keeps(3) [OF next_branch(6)]] .
  ultimately show ?case using beginSearch_keeps(1) [OF next_branch(6)] by simp
qed

section \<open>Races are scheduled for\<close>

text \<open>One iteration, seen from the stack it runs the transition on.\<close>

lemma iteration_schedules:
  assumes "reachable prog opts cfg (Some t, st)" and "iteration_order (set_order prog)"
    and "searchIteration prog opts t st = Inr (nxt, st')"
  obtains s where "dynamicallyUpdateBacktrackSets (set_order prog) s = Inr (programState st')"
    and "search_ok s" and "well_typed s" and "searched_asleep {} (stateStack s)"
    and "only_backtracking s (programState st')"
    and "transitionStack s = transitionStack (programState st) @ [staticCopy (methods_of t)]"
proof -
  from assms(3) obtain entry initialized op s1 where
    s1: "simulateRunningTransition entry t (read_operation initialized (getThreadId t) op) (programState st) = Inr s1"
    and upd: "dynamicallyUpdateBacktrackSets (set_order prog) s1 = Inr (programState st')"
    by (rule searchIteration_cases)
  have ok: "search_ok (programState st)" and ty: "well_typed (programState st)"
    and asl: "searched_asleep {getThreadId t} (stateStack (programState st))"
    using reachable_ok [OF assms(1,2)] reachable_typed [OF assms(1,2)] reachable_asleep [OF assms(1,2)] by simp_all
  have ok1: "search_ok s1" by (rule simulate_search_ok(1) [OF s1 frames_read_operation ok])
  show thesis
  proof (rule that [OF upd ok1 simulate_typed [OF s1 ty] simulate_asleep [OF s1 frames_read_operation asl]])
    show "only_backtracking s1 (programState st')"
      using update_only_backtracking [OF upd assms(2)] ok1 by (simp add: search_ok_def clocks_ok_def)
    show "transitionStack s1 = transitionStack (programState st) @ [staticCopy (methods_of t)]"
      using s1 frames_read_operation by (rule simulateRunningTransition_cases) 
  qed
qed

lemma race_scheduled_view:
  assumes "same_but_backtracking s s'" and "i < length (stateStack s)"
  shows "race_scheduled s' u i p = race_scheduled s u i p"
  by (simp add: race_scheduled_def race_test_same_but_backtracking [OF assms])

text \<open>The same, seen from the stack the iteration ends with.\<close>

lemma iteration_schedules_races:
  assumes "reachable prog opts cfg (Some t, st)" and "iteration_order (set_order prog)"
    and "searchIteration prog opts t st = Inr (nxt, st')"
    and "n = length (transitionStack (programState st))"
    and "getNextTransitionForThread (programState st') p = Inr nextSP"
    and "shouldProcess (programState st') nextSP n p"
    and "p < getNumProgramThreads (programState st')" and "p \<noteq> getThreadId t"
  shows "race_scheduled (programState st') (programState st') n p"
proof -
  from assms(1-3) obtain s where upd: "dynamicallyUpdateBacktrackSets (set_order prog) s = Inr (programState st')"
    and ok: "search_ok s" and asleep: "searched_asleep {} (stateStack s)"
    and ob: "only_backtracking s (programState st')"
    and ts: "transitionStack s = transitionStack (programState st) @ [staticCopy (methods_of t)]"
    by (rule iteration_schedules)
  have same: "same_but_backtracking s (programState st')" using ob by (simp add: only_backtracking_def)
  have n: "n < length (stateStack s)" and items: "items_ok s" 
    and len: "length (transitionStack s) \<le> length (stateStack s)"
    using ok ts assms(4) by (simp_all add: search_ok_def clocks_ok_def)
  note view = race_test_same_but_backtracking [OF same n]
  have "race_scheduled s (programState st') n p"
  proof (rule update_schedules_races [OF upd assms(2) items len])
    show "doneSet (stateStack s ! n) \<subseteq> sleepSet (stateStack s ! n)"
      using asleep n by (auto simp: searched_asleep_def)
    show "p < getNumProgramThreads s"
      using assms(7) same_but_backtracking_fields(6) [OF same] by (simp add: getNumProgramThreads_def)
    show "getNextTransitionForThread s p = Inr nextSP" "shouldProcess s nextSP n p"
      using assms(5,6) view(1,6) by simp_all
  qed (use ts assms(4,8) in simp_all)
  then show ?thesis using race_scheduled_view [OF same n] by simp
qed

lemma iteration_schedules_last:
  assumes "reachable prog opts cfg (Some t, st)" and "iteration_order (set_order prog)"
    and "searchIteration prog opts t st = Inr (nxt, st')"
    and "getNextTransitionForThread (programState st') (getThreadId t) = Inr nextSP"
    and "shouldProcess (programState st') nextSP i (getThreadId t)"
    and "i < length (transitionStack (programState st))"
    and "\<forall>j. i < j \<and> j < length (transitionStack (programState st)) \<longrightarrow>
      \<not> shouldProcess (programState st') nextSP j (getThreadId t)"
  shows "race_scheduled (programState st') (programState st') i (getThreadId t)"
proof -
  let ?n = "length (transitionStack (programState st))" and ?p = "getThreadId t"
  from assms(1-3) obtain s where upd: "dynamicallyUpdateBacktrackSets (set_order prog) s = Inr (programState st')"
    and ok: "search_ok s" and asleep: "searched_asleep {} (stateStack s)"
    and ob: "only_backtracking s (programState st')"
    and ts: "transitionStack s = transitionStack (programState st) @ [staticCopy (methods_of t)]"
    by (rule iteration_schedules)
  have same: "same_but_backtracking s (programState st')" using ob by (simp add: only_backtracking_def)
  have lens: "length (stateStack s) = Suc (Suc ?n)" and items: "items_ok s" 
    and len: "length (transitionStack s) \<le> length (stateStack s)"
    using ok ts by (simp_all add: search_ok_def clocks_ok_def)
  have i: "i < length (stateStack s)" using assms(6) lens by simp
  have view: "shouldProcess s nextSP j ?p = shouldProcess (programState st') nextSP j ?p"
    "getNextTransitionForThread s ?p = Inr nextSP" if "j \<le> ?n" for j
    using race_test_same_but_backtracking(1,6) [OF same, of j] that lens assms(4) by simp_all
  have "race_scheduled s (programState st') i ?p"
  proof (rule update_schedules_last_thread [OF upd assms(2) items len])
    show "doneSet (stateStack s ! i) \<subseteq> sleepSet (stateStack s ! i)"
      using asleep i assms(6) lens by (auto simp: searched_asleep_def)
    show "shouldProcess s nextSP i ?p"
      using view(1) [of i] assms(5,6) by simp
    show "\<forall>j. i < j \<and> j < length (transitionStack s) - 1 \<longrightarrow> \<not> shouldProcess s nextSP j ?p"
      using view(1) assms(7) ts by simp
  qed (use ts assms(6) view(2) [of 0] in simp_all)
  then show ?thesis using race_scheduled_view [OF same i] by simp
qed

end
