(* ===== verification/Selection.thy ===== *)
theory Selection
  imports TypedSearch
begin

text \<open>
  What the loops of \<^verbatim>\<open>MCStack\<close> over the threads compute (\<^verbatim>\<open>getFirstEnabledTransition\<close>,
  \<^verbatim>\<open>isInDeadlock\<close>, \<^verbatim>\<open>hasADataRaceWithNewTransition\<close>), stated over all threads at once, and what the
  search reports with their answers.
\<close>

section \<open>Pending transitions\<close>

definition readable :: "mcstack \<Rightarrow> bool" where
  "readable s \<longleftrightarrow> (\<forall>q < getNumProgramThreads s. \<exists>t. getNextTransitionForThread s q = Inr t)"

definition pending :: "mcstack \<Rightarrow> tid \<Rightarrow> transition" where
  "pending s q = projr (getNextTransitionForThread s q)"

lemma well_typed_readable: "well_typed s \<Longrightarrow> readable s"
  using pending_readable by (fastforce simp: readable_def getNumProgramThreads_def)

lemma readable_pending:
  "readable s \<Longrightarrow> q < getNumProgramThreads s \<Longrightarrow> getNextTransitionForThread s q = Inr (pending s q)"
  by (auto simp: readable_def pending_def)

definition can_run :: "mcstack \<Rightarrow> tid \<Rightarrow> bool" where
  "can_run s q \<longleftrightarrow> transitionIsEnabled s (pending s q) \<and> q \<notin> sleepSet (last (stateStack s))"

definition stuck :: "mcstack \<Rightarrow> tid \<Rightarrow> bool" where
  "stuck s q \<longleftrightarrow> \<not> ensuresDeadlockIsImpossible (methods_of (pending s q))
     \<and> \<not> transitionEnabledInState (pending s q)"

section \<open>The first thread that can run\<close>

lemma firstEnabledLoop_find:
  assumes "readable s" and "set qs \<subseteq> {..<getNumProgramThreads s}"
  shows "firstEnabledLoop s (last (stateStack s)) qs = Inr (map_option (pending s) (find (can_run s) qs))"
  using assms(2)
  by (induction qs) (simp_all add: readable_pending [OF assms(1)] can_run_def threadIsInSleepSet_def)

lemma find_least:
  "find P [0..<n] = (if \<exists>q < n. P q then Some (LEAST q. P q) else None)"
proof (cases "\<exists>q < n. P q")
  case True
  define m where "m = (LEAST q. P q)"
  obtain q where q: "q < n" "P q" using True by blast
  have m: "P m" unfolding m_def by (rule LeastI [of P, OF q(2)])
  have "m \<le> q" unfolding m_def by (rule Least_le [of P, OF q(2)])
  then have "m < n" using q(1) by simp
  moreover have "\<forall>j < m. \<not> P j" using not_less_Least unfolding m_def by blast
  ultimately have "find P [0..<n] = Some m"
    using m unfolding find_Some_iff by (intro exI [of _ m]) simp
  then show ?thesis using True by (simp add: m_def)
qed (auto simp: find_None_iff)

lemma first_enabled_spec:
  assumes "readable s" and "stateStack s \<noteq> []" and "entry < 0" and "\<not> depthLimitReached s"
  shows "getFirstEnabledTransition entry s =
    Inr (if \<exists>q < getNumProgramThreads s. can_run s q then Some (pending s (LEAST q. can_run s q)) else None)"
  using assms by (simp add: getFirstEnabledTransition_def firstEnabledLoop_find [OF assms(1)] find_least subset_eq)

section \<open>Deadlocks and data races\<close>

lemma deadlockLoop_all:
  assumes "readable s" and "set qs \<subseteq> {..<getNumProgramThreads s}"
  shows "deadlockLoop s qs = Inr (\<forall>q \<in> set qs. stuck s q)"
  using assms(2) by (induction qs) (simp_all add: readable_pending [OF assms(1)] stuck_def)

lemma deadlock_spec: "readable s \<Longrightarrow> isInDeadlock s = Inr (\<forall>q < getNumProgramThreads s. stuck s q)"
  by (auto simp: isInDeadlock_def deadlockLoop_all subset_eq)

lemma dataRaceLoop_ex:
  assumes "readable s" and "set qs \<subseteq> {..<getNumProgramThreads s}"
  shows "dataRaceLoop s t qs =
    Inr (\<exists>q \<in> set qs. q \<noteq> getThreadId t \<and> transitionsInDataRace (pending s q) t)"
  using assms(2) by (induction qs) (simp_all add: readable_pending [OF assms(1)])

lemma data_race_spec:
  "readable s \<Longrightarrow> hasADataRaceWithNewTransition s t =
    Inr (\<exists>q < getNumProgramThreads s. q \<noteq> getThreadId t \<and> transitionsInDataRace (pending s q) t)"
  by (auto simp: hasADataRaceWithNewTransition_def dataRaceLoop_ex subset_eq)

section \<open>What is reported\<close>

definition reported :: "report \<Rightarrow> search_state \<Rightarrow> bool" where
  "reported r st \<longleftrightarrow> r \<in> fst ` set (results st)"

lemma reported_addResult [simp]: "reported r (addResult r' st) \<longleftrightarrow> r = r' \<or> reported r st"
  by (auto simp: reported_def addResult_def)

lemma reported_update [simp]:
  "reported r (st\<lparr>programState := s\<rparr>) = reported r st"
  "reported r (st\<lparr>transitionId := n\<rparr>) = reported r st"
  by (simp_all add: reported_def)

lemma reported_terminate [simp]: "reported r (mc_terminate_trace st) = reported r st"
  by (simp add: reported_def mc_terminate_trace_def)

lemma iteration_parts:
  assumes "searchIteration prog opts t st = Inr (nxt, st')"
  obtains st1 s st2 nxt0 st3 where "runTransition prog opts t (st\<lparr>transitionId := transitionId st + 1\<rparr>) = Inr st1"
    and "dynamicallyUpdateBacktrackSets (set_order prog) (programState st1) = Inr s"
    and "checkDataRace opts (getThreadId t) (st1\<lparr>programState := s\<rparr>) = Inr st2"
    and "chooseNextTransition opts t st2 = Inr (nxt0, st3)"
    and "finishTrace opts nxt0 st3 = Inr (nxt, st')"
  using assms by (auto simp: searchIteration_def result_simps)

lemma chooseNext_reported: "chooseNextTransition opts t st = Inr (nxt, st') \<Longrightarrow> reported r st' = reported r st"
  by (auto simp: chooseNextTransition_def getNextTraceSeqEntry_def setEndOfTraceSeq_def reported_def
      result_simps split: if_splits option.splits)

lemma finishTrace_cases:
  assumes "finishTrace opts nxt0 st = Inr (nxt, st')"
  shows "(nxt0 \<noteq> None \<and> nxt = nxt0 \<and> st' = st) \<or>
    (\<exists>d. isInDeadlock (programState st) = Inr d \<and> nxt = (if d then None else nxt0) \<and>
      st' = mc_terminate_trace (if d then addResult DeadlockDetected
        (if nxt0 \<noteq> None then addResult TruncatedTraceSeq st else st) else st))"
proof (cases "isInDeadlock (programState st)")
  case (Inr d)
  then show ?thesis
    using assms
    by (cases "nxt0 = None"; cases "traceSeqLength opts > 0"; cases d)
       (auto simp: finishTrace_def Let_def split: if_splits)
qed (use assms in \<open>simp add: finishTrace_def split: if_splits\<close>)

lemma finishTrace_reported:
  assumes "finishTrace opts nxt0 st = Inr (nxt, st')"
  shows "reported r st \<Longrightarrow> reported r st'"
    and "nxt = None \<Longrightarrow> isInDeadlock (programState st) = Inr True \<Longrightarrow> reported DeadlockDetected st'"
    and "reported DeadlockDetected st' \<Longrightarrow> \<not> reported DeadlockDetected st \<Longrightarrow>
      isInDeadlock (programState st) = Inr True"
  using finishTrace_cases [OF assms] by (auto split: if_splits)

lemma finishTrace_report_iff:
  assumes "finishTrace opts nxt0 st = Inr (nxt, st')"
  shows "\<not> reported DeadlockDetected st \<Longrightarrow> reported DeadlockDetected st' \<longleftrightarrow>
      nxt = None \<and> isInDeadlock (programState st) = Inr True"
    and "reported DataRaceDetected st' = reported DataRaceDetected st"
  using finishTrace_cases [OF assms] by (auto split: if_splits)

lemma runTransition_reported: "runTransition prog opts t st = Inr st' \<Longrightarrow> reported r st' = reported r st"
  by (auto simp: runTransition_def mc_run_thread_to_next_visible_operation_def getNextTraceSeqEntry_def
      setEndOfTraceSeq_def reported_def result_simps Let_def split: if_splits option.splits)

lemma checkDataRace_cases:
  assumes "checkDataRace opts p st = Inr st'" and "readable (programState st)"
    and "p < getNumProgramThreads (programState st)"
  obtains d where "hasADataRaceWithNewTransition (programState st) (pending (programState st) p) = Inr d"
    and "st' = (if d \<and> \<not> quiet opts then addResult DataRaceDetected st else st)"
proof (cases "hasADataRaceWithNewTransition (programState st) (pending (programState st) p)")
  case (Inl e)
  then show ?thesis using data_race_spec [OF assms(2)] by simp
next
  case (Inr d)
  then have "st' = (if d \<and> \<not> quiet opts then addResult DataRaceDetected st else st)"
    using assms(1) readable_pending [OF assms(2,3)]
    by (cases d; cases "continueAfterDataRace opts"; cases "quiet opts") (simp_all add: checkDataRace_def Let_def)
  with Inr show ?thesis by (rule that)
qed

lemma pending_thread_exists:
  assumes "well_typed s" and "getNextTransitionForThread s q = Inr t"
  shows "q < getNumProgramThreads s"
  using assms(1) pending_read [OF assms]
  by (auto simp: refs_ok_def well_typed_def typed_def threads_wf_def getNumProgramThreads_def)

text \<open>What one iteration from a reachable state reports.\<close>

lemma iteration_reports:
  assumes "reachable prog opts cfg (Some t, st)" and "iteration_order (set_order prog)"
    and "searchIteration prog opts t st = Inr (nxt, st')"
  shows "readable (programState st')" and "getThreadId t < getNumProgramThreads (programState st')"
    and "\<not> reported DeadlockDetected st \<Longrightarrow> reported DeadlockDetected st' \<longleftrightarrow>
      nxt = None \<and> isInDeadlock (programState st') = Inr True"
    and "\<not> reported DataRaceDetected st \<Longrightarrow> reported DataRaceDetected st' \<longleftrightarrow> \<not> quiet opts \<and>
      hasADataRaceWithNewTransition (programState st') (pending (programState st') (getThreadId t)) = Inr True"
proof -
  from assms(3) obtain st1 s st2 nxt0 st3 where
    run: "runTransition prog opts t (st\<lparr>transitionId := transitionId st + 1\<rparr>) = Inr st1"
    and race: "checkDataRace opts (getThreadId t) (st1\<lparr>programState := s\<rparr>) = Inr st2"
    and choose: "chooseNextTransition opts t st2 = Inr (nxt0, st3)"
    and fin: "finishTrace opts nxt0 st3 = Inr (nxt, st')"
    by (rule iteration_parts)
  have ps: "programState st' = s" "programState st3 = s"
    using checkDataRace_keeps [OF race] chooseNext_keeps [OF choose] finishTrace_keeps(1) [OF fin] by simp_all
  have ty: "well_typed (programState st')"
    using reachable_typed [OF reachable.iterate [OF assms(1,3)] assms(2)] .
  show rd: "readable (programState st')" using ty by (rule well_typed_readable)
  show tn: "getThreadId t < getNumProgramThreads (programState st')"
    using pending_thread_exists [OF ty] race ps(1)
    by (auto simp: checkDataRace_def result_simps)
  have same: "reported r st1 = reported r st" for r
    using runTransition_reported [OF run] by simp
  from checkDataRace_cases [OF race] rd tn ps(1) obtain d where
    d: "hasADataRaceWithNewTransition s (pending s (getThreadId t)) = Inr d"
    and st2: "st2 = (if d \<and> \<not> quiet opts then addResult DataRaceDetected (st1\<lparr>programState := s\<rparr>) else st1\<lparr>programState := s\<rparr>)"
    by auto
  have st2': "reported DeadlockDetected st2 = reported DeadlockDetected st"
    "reported DataRaceDetected st2 \<longleftrightarrow> \<not> quiet opts \<and> d \<or> reported DataRaceDetected st"
    using same st2 by auto
  show "reported DeadlockDetected st' \<longleftrightarrow> nxt = None \<and> isInDeadlock (programState st') = Inr True"
    if "\<not> reported DeadlockDetected st"
    using that finishTrace_report_iff(1) [OF fin] chooseNext_reported [OF choose] st2'(1) ps by simp
  show "reported DataRaceDetected st' \<longleftrightarrow> \<not> quiet opts \<and>
      hasADataRaceWithNewTransition (programState st') (pending (programState st') (getThreadId t)) = Inr True"
    if "\<not> reported DataRaceDetected st"
    using that finishTrace_report_iff(2) [OF fin] chooseNext_reported [OF choose] st2'(2) d ps by simp
qed

end
