(* ===== verification/ReplayObjects.thy ===== *)
theory ReplayObjects
  imports Replay
begin

text \<open>
  What \<^verbatim>\<open>MCStack::reflectStateAtTransitionIndex\<close> does to the objects, seen as runs of the trace on
  the object store alone.
\<close>

section \<open>What going back does to the objects\<close>

text \<open>Applying and undoing a transition, seen on the object store alone.\<close>

definition live_thread :: "(tid \<Rightarrow> objid option) \<Rightarrow> object_store \<Rightarrow> thread_lookup" where
  "live_thread ids st q = (case ids q of None \<Rightarrow> Inl NullDereference | Some i \<Rightarrow> getThread i st)"

definition apply_on :: "(tid \<Rightarrow> objid option) \<Rightarrow> transition \<Rightarrow> object_store \<Rightarrow> object_store result" where
  "apply_on ids t st =
     bindR (dynamicCopyInState (methods_of t) (live_thread ids st) st) (\<lambda>d. applyToState (methods_of d) st)"

definition unapply_on :: "(tid \<Rightarrow> objid option) \<Rightarrow> transition \<Rightarrow> object_store \<Rightarrow> object_store result" where
  "unapply_on ids t st =
     bindR (dynamicCopyInState (methods_of t) (live_thread ids st) st) (\<lambda>d. unapplyToState (methods_of d) st)"

lemma getThreadWithId_live: "getThreadWithId s = live_thread (threadIdMap s) (objectStorage s)"
  by (intro ext) (simp add: getThreadWithId_def live_thread_def)

definition same_trace :: "mcstack \<Rightarrow> mcstack \<Rightarrow> bool" where
  "same_trace s s' \<longleftrightarrow> transitionStack s' = transitionStack s \<and> threadIdMap s' = threadIdMap s"

lemma rerun_on_store:
  assumes "virtuallyRerunTransitionAtIndex i s = Inr s'"
  shows "apply_on (threadIdMap s) (transitionStack s ! i) (objectStorage s) = Inr (objectStorage s')"
    and "same_trace s s'"
  using assms
  by (auto simp: virtuallyRerunTransitionAtIndex_def virtuallyApplyTransition_def apply_on_def
      getThreadWithId_live Let_def result_simps updateThreadData_def updateThreadDataR_def
      incrementThreadDepthIfNecessary_def same_trace_def)

lemma revert_on_store:
  assumes "virtuallyRevertTransitionAtIndex i s = Inr s'"
  shows "unapply_on (threadIdMap s) (transitionStack s ! i) (objectStorage s) = Inr (objectStorage s')"
    and "same_trace s s'"
  using assms
  by (auto simp: virtuallyRevertTransitionAtIndex_def virtuallyUnapplyTransition_def unapply_on_def
      getThreadWithId_live Let_def result_simps updateThreadData_def
      decrementThreadDepthIfNecessary_def same_trace_def)

lemma foldR_on_store:
  assumes "foldR f is s = Inr s'"
    and "\<And>i s s'. f i s = Inr s' \<Longrightarrow>
      g (threadIdMap s) (transitionStack s ! i) (objectStorage s) = Inr (objectStorage s') \<and> same_trace s s'"
  shows "foldR (\<lambda>i. g (threadIdMap s) (transitionStack s ! i)) is (objectStorage s) = Inr (objectStorage s')
    \<and> same_trace s s'"
  using assms(1)
proof (induction "is" arbitrary: s)
  case Nil
  then show ?case by (simp add: same_trace_def)
next
  case (Cons i "is")
  then obtain s1 where s1: "f i s = Inr s1" and rest: "foldR f is s1 = Inr s'"
    by (auto simp: result_simps)
  show ?case using assms(2) [OF s1] Cons.IH [OF rest] by (simp add: same_trace_def)
qed

lemma fold_updateThreadData_store:
  "objectStorage (fold (\<lambda>t. updateThreadData t f) ts s) = objectStorage s
   \<and> same_trace s (fold (\<lambda>t. updateThreadData t f) ts s)"
  by (induction ts arbitrary: s) (simp_all add: same_trace_def updateThreadData_def)

lemma pending_on_store:
  "restoreNextTransition k q s = Inr s' \<Longrightarrow> objectStorage s' = objectStorage s"
  "refreshNextTransition q s = Inr s' \<Longrightarrow> objectStorage s' = objectStorage s"
  by (auto simp: restoreNextTransition_def refreshNextTransition_def setNextTransitionForThread_def result_simps)

lemma foldR_pending_store:
  assumes "foldR f xs s = Inr s'" and "\<And>x s s'. f x s = Inr s' \<Longrightarrow> objectStorage s' = objectStorage s"
  shows "objectStorage s' = objectStorage s"
  by (rule foldR_invariant [OF assms(1), where P = "\<lambda>u. objectStorage u = objectStorage s"])
     (use assms(2) in auto)

text \<open>
  Going back runs the trace up to \<open>index\<close> again on reset objects, or undoes the transitions above
  \<open>index\<close>, the last one first.
\<close>

lemma foldR_map: "foldR (\<lambda>i. f (xs ! i)) ns s = foldR f (map ((!) xs) ns) s"
  by (induction ns arbitrary: s) (simp_all add: bindR_def split: sum.splits)

lemma reflect_objects:
  assumes "reflectStateAtTransitionIndex index s = Inr s'"
  shows "Inr (objectStorage s') =
    (if canRunInReverseToStateAtIndex (index + 1) s
     then foldR (unapply_on (threadIdMap s)) (rev (drop (index + 1) (transitionStack s))) (objectStorage s)
     else foldR (apply_on (threadIdMap s)) (take (index + 1) (transitionStack s))
       (resetObjectsToInitialStateInStore (objectStorage s)))"
  using assms
proof (cases rule: reflect_cases)
  case (1 s1 s2 s3)
  have "objectStorage s2 = objectStorage s1"
    by (rule foldR_pending_store [OF 1(3)]) (rule pending_on_store(1))
  moreover have "objectStorage s3 = objectStorage s2"
  proof (cases "canRunInReverseToStateAtIndex (index + 1) s")
    case False
    show ?thesis
      by (rule foldR_pending_store [OF 1(4) [simplified False not_False_eq_True if_True]]) (rule pending_on_store(2))
  qed (use 1(4) in simp)
  ultimately have st: "objectStorage s' = objectStorage s1" using 1(5) by simp
  let ?ts = "transitionStack s"
  show ?thesis
  proof (cases "canRunInReverseToStateAtIndex (index + 1) s")
    case True
    let ?u = "fold (\<lambda>t. updateThreadData t (popExecutionPointsGreaterThan index)) [0..<getNumProgramThreads s] s"
    have "foldR virtuallyRevertTransitionAtIndex (rev [index + 1..<length ?ts]) ?u = Inr s1"
      using 1(2) True by simp
    from foldR_on_store [where g = unapply_on, OF this] revert_on_store
    have "foldR (\<lambda>i. unapply_on (threadIdMap s) (?ts ! i)) (rev [index + 1..<length ?ts]) (objectStorage s)
        = Inr (objectStorage s1)"
      using fold_updateThreadData_store by (simp add: same_trace_def)
    moreover have "map ((!) ?ts) (rev [index + 1..<length ?ts]) = rev (drop (index + 1) ?ts)"
      unfolding rev_map [symmetric] rev_is_rev_conv by (rule nth_equalityI) auto
    ultimately show ?thesis using True st by (simp add: foldR_map)
  next
    case False
    let ?u = "fold (\<lambda>t. updateThreadData t resetExecutionData) [0..<getNumProgramThreads s]
      (s\<lparr>objectStorage := resetObjectsToInitialStateInStore (objectStorage s)\<rparr>)"
    have "foldR virtuallyRerunTransitionAtIndex [0..<index + 1] ?u = Inr s1"
      using 1(2) False by simp
    from foldR_on_store [where g = apply_on, OF this] rerun_on_store
    have "foldR (\<lambda>i. apply_on (threadIdMap s) (?ts ! i)) [0..<index + 1]
        (resetObjectsToInitialStateInStore (objectStorage s)) = Inr (objectStorage s1)"
      using fold_updateThreadData_store by (simp add: same_trace_def)
    moreover have "map ((!) ?ts) [0..<index + 1] = take (index + 1) ?ts"
      using 1(1) by (intro nth_equalityI) (auto simp del: upt_Suc)
    ultimately show ?thesis using False st by (simp add: foldR_map)
  qed
qed

end
