(* ===== verification/StoreRuns.thy ===== *)
theory StoreRuns
  imports ReplayObjects
begin

text \<open>
  Runs of transitions on the object store (\<^verbatim>\<open>include/MCObjectStore.h\<close>): what they leave alone and
  when they can be undone.
\<close>

section \<open>The initial copies\<close>

text \<open>Running transitions leaves the copies alone that a reset goes back to.\<close>

definition same_initials :: "object_store \<Rightarrow> object_store \<Rightarrow> bool" where
  "same_initials st st' \<longleftrightarrow> map snd (storage st') = map snd (storage st)
     \<and> systemVisibleObjectMap st' = systemVisibleObjectMap st"

lemma same_initials_refl [simp, intro]: "same_initials st st"
  by (simp add: same_initials_def)

lemma same_initials_trans [trans]: "same_initials st st' \<Longrightarrow> same_initials st' st'' \<Longrightarrow> same_initials st st''"
  by (simp add: same_initials_def)

lemma modify_same_initials: "modify_object i f st = Inr st' \<Longrightarrow> same_initials st st'"
  by (auto simp: modify_object_def getObjectWithId_def same_initials_def result_simps map_update
      list_update_same_conv split: if_splits)

lemma apply_same_initials:
  assumes "applyToState (methods_of t) st = Inr st'"
  shows "same_initials st st'"
proof (cases t)
  case (MCCondTransition th op x)
  then show ?thesis using assms
    by (cases op) (auto simp: methods_of_def class_methods result_simps dest!: modify_same_initials
        intro: same_initials_trans split: option.splits)
next
  case (MCMutexTransition th op x)
  then show ?thesis using assms
    by (cases op) (auto simp: methods_of_def mutex_dispatch_def class_methods result_simps
        dest!: modify_same_initials split: if_splits)
qed (use assms in \<open>auto simp: methods_of_def class_methods result_simps dest!: modify_same_initials
      split: thread_op.splits sem_op.splits barrier_op.splits rwlock_op.splits rwwlock_op.splits global_op.splits\<close>)

lemma run_same_initials:
  assumes "foldR (apply_on ids) ts st = Inr st'"
  shows "same_initials st st'"
  by (rule foldR_relation [OF assms same_initials_refl])
     (auto simp: apply_on_def result_simps dest: apply_same_initials intro: same_initials_trans)

lemma reset_same_initials:
  assumes "same_initials st st'"
  shows "resetObjectsToInitialStateInStore st' = resetObjectsToInitialStateInStore st"
proof -
  have eq: "map (\<lambda>(cur, ini). (object_copy ini, ini)) xs = map (\<lambda>ini. (object_copy ini, ini)) (map snd xs)"
    for xs :: "(visible_object \<times> visible_object) list"
    by (simp add: case_prod_beta)
  show ?thesis
    using assms unfolding resetObjectsToInitialStateInStore_def eq same_initials_def by simp
qed

section \<open>Undoing\<close>

text \<open>When undoing a reversible transition gives the objects back.\<close>

definition undo_safe :: "transition \<Rightarrow> object_store \<Rightarrow> bool" where
  "undo_safe t st \<longleftrightarrow> (case t of
      MCMutexTransition _ MutexInit m \<Rightarrow> getMutex (mutex_id m) st = Inr (m\<lparr>mutex_state := mutex_undefined\<rparr>)
    | MCMutexTransition _ MutexUnlock m \<Rightarrow> getMutex (mutex_id m) st = Inr (m\<lparr>mutex_state := mutex_locked\<rparr>)
    | MCThreadTransition _ ThreadFinish th \<Rightarrow> getThread (thread_id th) st = Inr (th\<lparr>thread_state := alive\<rparr>)
    | _ \<Rightarrow> True)"

lemma put_back: "fst (xs ! i) = v \<Longrightarrow> xs[i := (v, snd (xs ! i))] = xs"
  by (metis list_update_id prod.collapse)

lemma undo_mutex:
  assumes "modify_object i (on_mutex f) st = Inr st'" and "getMutex i st = Inr m" and "g (f m) = m"
  shows "modify_object i (on_mutex g) st' = Inr st"
  using assms by (auto simp: modify_object_def getMutex_def getObjectWithId_def on_mutex_def result_simps put_back
      split: if_splits visible_object.splits)

lemma undo_thread:
  assumes "modify_object i (on_thread f) st = Inr st'" and "getThread i st = Inr x" and "g (f x) = x"
  shows "modify_object i (on_thread g) st' = Inr st"
  using assms by (auto simp: modify_object_def getThread_def getObjectWithId_def on_thread_def result_simps put_back
      split: if_splits visible_object.splits)

lemma undo_reversible:
  assumes "applyToState (methods_of t) st = Inr st'" and "isReversibleInState (methods_of t)"
    and "undo_safe t st"
  shows "unapplyToState (methods_of t) st' = Inr st"
proof (cases t)
  case (MCMutexTransition th op m)
  show ?thesis
  proof (cases op)
    case MutexInit
    then show ?thesis using assms MCMutexTransition
      by (simp add: methods_of_def mutex_dispatch_def class_methods undo_safe_def)
        (erule undo_mutex, assumption, simp add: mutex_simps)
  next
    case MutexUnlock
    then show ?thesis using assms MCMutexTransition
      by (simp add: methods_of_def mutex_dispatch_def class_methods undo_safe_def)
        (erule undo_mutex, assumption, simp add: mutex_simps)
  qed (use assms MCMutexTransition in \<open>simp_all add: methods_of_def mutex_dispatch_def class_methods\<close>)
next
  case (MCThreadTransition th op x)
  show ?thesis
  proof (cases op)
    case ThreadFinish
    then show ?thesis using assms MCThreadTransition
      by (simp add: methods_of_def class_methods undo_safe_def)
        (erule undo_thread, assumption, simp add: thread_simps)
  qed (use assms MCThreadTransition in \<open>simp_all add: methods_of_def class_methods guardR_eq_Inr\<close>)
qed (use assms in \<open>simp_all add: methods_of_def class_methods
      split: cond_op.splits sem_op.splits barrier_op.splits rwlock_op.splits rwwlock_op.splits global_op.splits\<close>)

end
