(* ===== verification/ObjectProperties.thy ===== *)
theory ObjectProperties
  imports StoreRuns
begin

text \<open>
  The properties of the visible objects (\<^verbatim>\<open>src/objects\<close>, \<^verbatim>\<open>src/misc/cond\<close>), of the transitions
  on them (\<^verbatim>\<open>src/transitions\<close>) and of the containers the search uses, each with an instance.
\<close>

section \<open>A small object store\<close>

definition main_thread :: mcthread where
  "main_thread = (newMCThread 0 0 0 100)\<lparr>thread_state := alive\<rparr>"

definition some_mutex :: mcmutex where
  "some_mutex = (newMCMutex 50)\<lparr>mutex_id := 1\<rparr>"

definition mutex_store :: "mutex_state \<Rightarrow> object_store" where
  "mutex_store state = \<lparr>storage = [(VThread main_thread, VThread main_thread),
       (VMutex (some_mutex\<lparr>mutex_state := state\<rparr>), VMutex some_mutex)],
     systemVisibleObjectMap = [100 \<mapsto> 0, 50 \<mapsto> 1]\<rparr>"

lemma mutex_store_runs:
  "case foldR (apply_on [0 \<mapsto> 0]) [MCMutexTransition main_thread MutexLock some_mutex,
     MCMutexTransition main_thread MutexUnlock some_mutex] (mutex_store mutex_unlocked) of
   Inl e \<Rightarrow> False | Inr st \<Rightarrow> True"
  by code_simp

lemma mutex_store_applies:
  "applyToState (methods_of (MCMutexTransition main_thread MutexUnlock (some_mutex\<lparr>mutex_state := mutex_locked\<rparr>)))
     (mutex_store mutex_locked) = Inr (mutex_store mutex_unlocked)"
  "applyToState (methods_of (MCMutexTransition main_thread MutexInit (some_mutex\<lparr>mutex_state := mutex_locked\<rparr>)))
     (mutex_store mutex_locked) = Inr (mutex_store mutex_unlocked)"
  "getMutex (mutex_id some_mutex) (mutex_store mutex_locked) = Inr (some_mutex\<lparr>mutex_state := mutex_locked\<rparr>)"
  by (simp_all add: methods_of_def mutex_dispatch_def class_methods modify_object_def getMutex_def getObjectWithId_def
      mutex_store_def some_mutex_def newMCMutex_def on_mutex_def mutex_simps)

section \<open>Transitions and objects\<close>

text \<open>
  C27. The dependence test is symmetric, and the static copy the transition stack keeps decides
  like the transition it was taken from.
\<close>

theorem dependence_symmetric_and_stable:
  "dependentTransitions t u = dependentTransitions u t
   \<and> dependentTransitions (staticCopy (methods_of t)) u = dependentTransitions t u"
  using dependentTransitions_sym by simp

text \<open>
  Whatever transitions have been applied to the objects, a reset goes back to the same objects.
\<close>

theorem reset_forgets_the_run:
  assumes "foldR (apply_on ids) ts st = Inr st'"
  shows "resetObjectsToInitialStateInStore st' = resetObjectsToInitialStateInStore st"
  by (rule reset_same_initials [OF run_same_initials [OF assms]])

theorem reset_forgets_the_run_witness:
  "\<exists>st'. foldR (apply_on [0 \<mapsto> 0]) [MCMutexTransition main_thread MutexLock some_mutex,
      MCMutexTransition main_thread MutexUnlock some_mutex] (mutex_store mutex_unlocked) = Inr st' \<and>
    resetObjectsToInitialStateInStore st' = resetObjectsToInitialStateInStore (mutex_store mutex_unlocked)"
proof -
  obtain st' where run: "foldR (apply_on [0 \<mapsto> 0]) [MCMutexTransition main_thread MutexLock some_mutex,
      MCMutexTransition main_thread MutexUnlock some_mutex] (mutex_store mutex_unlocked) = Inr st'"
    using mutex_store_runs by (auto split: sum.splits)
  show ?thesis using reset_forgets_the_run [OF run] run by blast
qed

text \<open>
  C32. Undoing a reversible transition gives back the objects it was applied to, provided an
  unlocked mutex was locked, a finishing thread alive and an initialised mutex undefined before.
\<close>

theorem undo_gives_the_objects_back:
  assumes "applyToState (methods_of t) st = Inr st'" and "isReversibleInState (methods_of t)"
    and "undo_safe t st"
  shows "unapplyToState (methods_of t) st' = Inr st"
  by (rule undo_reversible [OF assms])

theorem undo_gives_the_objects_back_witness:
  "unapplyToState (methods_of (MCMutexTransition main_thread MutexUnlock (some_mutex\<lparr>mutex_state := mutex_locked\<rparr>)))
     (mutex_store mutex_unlocked) = Inr (mutex_store mutex_locked)"
  by (rule undo_gives_the_objects_back [OF mutex_store_applies(1)])
     (simp add: methods_of_def mutex_dispatch_def class_methods,
      simp add: undo_safe_def mutex_store_applies(3))

text \<open>
  Undoing the initialisation of a mutex that had been initialised before leaves the mutex
  undefined, although the transition counts as reversible.
\<close>

theorem undo_of_a_second_initialisation_fails:
  assumes "applyToState (methods_of (MCMutexTransition th MutexInit m)) st = Inr st'"
    and "getMutex (mutex_id m) st = Inr m" and "mutex_state m \<noteq> mutex_undefined"
  shows "isReversibleInState (methods_of (MCMutexTransition th MutexInit m)) \<and>
    unapplyToState (methods_of (MCMutexTransition th MutexInit m)) st' \<noteq> Inr st"
proof -
  have st': "modify_object (mutex_id m) (on_mutex MCMutex_init) st = Inr st'"
    using assms(1) by (simp add: methods_of_def mutex_dispatch_def class_methods)
  have "mutex_state (MCMutex_deinit (MCMutex_init m)) = mutex_undefined" by (simp add: mutex_simps)
  then have changed: "MCMutex_deinit (MCMutex_init m) \<noteq> m" using assms(3) by auto
  have "getObjectWithId (mutex_id m) st = Inr (VMutex m)"
    using assms(2) by (cases "getObjectWithId (mutex_id m) st") (auto simp: getMutex_def split: visible_object.splits)
  then have "getMutex (mutex_id m) st'' = Inr (MCMutex_deinit (MCMutex_init m))"
    if "modify_object (mutex_id m) (on_mutex MCMutex_deinit) st' = Inr st''" for st''
    using os.get_update_same [OF st'] os.get_update_same [OF that] by (simp add: getMutex_def on_mutex_def)
  from this [of st] have "modify_object (mutex_id m) (on_mutex MCMutex_deinit) st' \<noteq> Inr st"
    using assms(2) changed by auto
  then show ?thesis by (simp add: methods_of_def mutex_dispatch_def class_methods)
qed

theorem undo_of_a_second_initialisation_fails_witness:
  "isReversibleInState (methods_of (MCMutexTransition main_thread MutexInit (some_mutex\<lparr>mutex_state := mutex_locked\<rparr>))) \<and>
   unapplyToState (methods_of (MCMutexTransition main_thread MutexInit (some_mutex\<lparr>mutex_state := mutex_locked\<rparr>)))
     (mutex_store mutex_unlocked) \<noteq> Inr (mutex_store mutex_locked)"
  by (rule undo_of_a_second_initialisation_fails [OF mutex_store_applies(2)])
     (simp_all add: mutex_store_applies(3))

section \<open>Locks\<close>

text \<open>
  C33. Every sequence of operations on a reader-writer lock that follows the protocol of the
  wrappers succeeds and keeps its invariant; afterwards two different holders are both readers.
\<close>

theorem rwlock_excludes:
  assumes "rwlock_wf l" and "rw_protocol as l"
  shows "\<exists>l'. foldR rw_perform as l = Inr l' \<and> rwlock_wf l' \<and>
    (\<forall>m m' t u. t \<in> set (rw_holders m l') \<and> u \<in> set (rw_holders m' l') \<and> (t \<noteq> u \<or> m \<noteq> m') \<longrightarrow>
       m = AsReader \<and> m' = AsReader)"
  using rw_protocol_facts(1) [OF assms] rw_protocol_facts(2) [OF assms] by (fastforce simp: rw_shared_def)

theorem rwlock_excludes_witness:
  "\<exists>l'. foldR rw_perform [Enqueue AsWriter 1, Enqueue AsReader 2, Enqueue AsReader 3, Acquire AsWriter 1,
      Release 1, Acquire AsReader 2, Acquire AsReader 3] (newMCRWLock 7 rw_no_preference) = Inr l' \<and> rwlock_wf l' \<and>
    (\<forall>m m' t u. t \<in> set (rw_holders m l') \<and> u \<in> set (rw_holders m' l') \<and> (t \<noteq> u \<or> m \<noteq> m') \<longrightarrow>
       m = AsReader \<and> m' = AsReader)"
  by (rule rwlock_excludes [OF rwlock_wf_new]) code_simp

text \<open>
  C34. After every such sequence, a reader-writer lock nobody holds can be acquired by one of
  the threads queued for it.
\<close>

theorem rwlock_progress:
  assumes "rwlock_wf l" and "rw_protocol as l" and "foldR rw_perform as l = Inr l'"
    and "\<forall>m. rw_holders m l' = []" and "t \<in> set (rw_queued m l')"
  shows "\<exists>m' u. rw_allowed (Acquire m' u) l'"
  using rw_protocol_facts(3) [OF assms] by blast

theorem rwlock_progress_witness:
  "\<exists>m' u. rw_allowed (Acquire m' u) (rw_enqueue AsReader 2 (rw_enqueue AsWriter 1 (newMCRWLock 7 rw_no_preference)))"
  by (rule rwlock_progress [of "newMCRWLock 7 rw_no_preference" "[Enqueue AsWriter 1, Enqueue AsReader 2]" _ 2 AsReader])
     (simp add: rwlock_wf_new, code_simp, simp add: rw_perform_def,
      simp_all add: all_rw_mode rw_holders_def rw_queued_def rw_enqueue_def rwlock_simps newMCRWLock_def)

text \<open>
  Every sequence of operations on a lock with two kinds of writers that follows the protocol
  succeeds and keeps its invariant; afterwards two different holders are both readers.
\<close>

theorem rwwlock_excludes:
  assumes "rwwlock_wf l" and "rww_protocol as l"
  shows "\<exists>l'. foldR rww_perform as l = Inr l' \<and> rwwlock_wf l' \<and>
    (\<forall>m m' t u. t \<in> set (rww_holders m l') \<and> u \<in> set (rww_holders m' l') \<and> (t \<noteq> u \<or> m \<noteq> m') \<longrightarrow>
       m = RwwReader \<and> m' = RwwReader)"
  using rww_protocol_facts(1) [OF assms] rww_protocol_facts(2) [OF assms] by (fastforce simp: rww_shared_def)

theorem rwwlock_excludes_witness:
  "\<exists>l'. foldR rww_perform [Enqueue RwwWriter1 1, Enqueue RwwWriter2 4, Enqueue RwwReader 2, Acquire RwwWriter1 1,
      Release 1] (newMCRWWLock 7 rww_no_preference) = Inr l' \<and> rwwlock_wf l' \<and>
    (\<forall>m m' t u. t \<in> set (rww_holders m l') \<and> u \<in> set (rww_holders m' l') \<and> (t \<noteq> u \<or> m \<noteq> m') \<longrightarrow>
       m = RwwReader \<and> m' = RwwReader)"
  by (rule rwwlock_excludes [OF rwwlock_wf_new]) code_simp

text \<open>
  After every such sequence, a lock with two kinds of writers nobody holds can be acquired by
  one of the threads queued for it.
\<close>

theorem rwwlock_progress:
  assumes "rwwlock_wf l" and "rww_protocol as l" and "foldR rww_perform as l = Inr l'"
    and "\<forall>m. rww_holders m l' = []" and "t \<in> set (rww_queued m l')"
  shows "\<exists>m' u. rww_allowed (Acquire m' u) l'"
  using rww_protocol_facts(3) [OF assms] by blast

theorem rwwlock_progress_witness:
  "\<exists>m' u. rww_allowed (Acquire m' u) (rww_enqueue RwwReader 2 (rww_enqueue RwwWriter2 1 (newMCRWWLock 7 rww_no_preference)))"
  by (rule rwwlock_progress [of "newMCRWWLock 7 rww_no_preference" "[Enqueue RwwWriter2 1, Enqueue RwwReader 2]" _ 2 RwwReader])
     (simp add: rwwlock_wf_new, code_simp, simp add: rww_perform_def,
      simp_all add: all_rww_mode rww_holders_def rww_queued_def rww_enqueue_def rwwlock_simps newMCRWWLock_def)

section \<open>Condition variables\<close>

text \<open>
  C35. With the arbitrary wakeup policy, which every condition variable uses, all threads
  waiting at a broadcast can be woken, in any order, and then nobody waits.
\<close>

theorem broadcast_releases_everybody:
  assumes "arbitrary_inv p" and "distinct ts" and "set ts = arbitrary_waiting p"
  shows "\<exists>p'. foldR SingleGroup_wake_thread ts (SingleGroup_receive_broadcast_message p) = Inr p' \<and>
    arbitrary_inv p' \<and> arbitrary_waiting p' = {}"
  by (rule arbitrary.broadcast_releases_all [OF assms])

theorem broadcast_releases_everybody_witness:
  "\<exists>p'. foldR SingleGroup_wake_thread [2, 1] (SingleGroup_receive_broadcast_message
      (SingleGroup_add_waiter 2 (SingleGroup_add_waiter 1 newSingleGroupPolicy))) = Inr p' \<and>
    arbitrary_inv p' \<and> arbitrary_waiting p' = {}"
  by (rule broadcast_releases_everybody)
     (auto simp: arbitrary_inv_def arbitrary_waiting_def SingleGroup_add_waiter_def newSingleGroupPolicy_def)

text \<open>
  C36. With the arbitrary wakeup policy, when no waiting thread is released, a signal lets some
  waiting thread wake, and once that thread has woken no other can.
\<close>

theorem signal_wakes_exactly_one:
  assumes "arbitrary_inv p" and "\<forall>u. \<not> Default_thread_can_exit u p" and "t \<in> arbitrary_waiting p"
  shows "\<exists>u p'. SingleGroup_wake_thread u (Arbitrary_receive_signal_message p) = Inr p' \<and>
      u \<in> arbitrary_waiting p \<and> (\<forall>v. SingleGroup_wake_thread v p' = Inl AssertFailed)"
proof -
  obtain u where u: "Default_thread_can_exit u (Arbitrary_receive_signal_message p)"
    using arbitrary.signals_until_free [OF assms(1,3)] by blast
  then obtain p' where w: "SingleGroup_wake_thread u (Arbitrary_receive_signal_message p) = Inr p'"
    using arbitrary.wake_law arbitrary.signal_law [OF assms(1)] by blast
  show ?thesis using arbitrary.signal_wakes_at_most_one [OF assms(1,2) w] w by blast
qed

theorem signal_wakes_exactly_one_witness:
  "\<exists>u p'. SingleGroup_wake_thread u (Arbitrary_receive_signal_message
        (SingleGroup_add_waiter 2 (SingleGroup_add_waiter 1 newSingleGroupPolicy))) = Inr p' \<and>
      u \<in> arbitrary_waiting (SingleGroup_add_waiter 2 (SingleGroup_add_waiter 1 newSingleGroupPolicy)) \<and>
      (\<forall>v. SingleGroup_wake_thread v p' = Inl AssertFailed)"
  by (rule signal_wakes_exactly_one [where t = 1])
     (auto simp: arbitrary_inv_def arbitrary_waiting_def SingleGroup_add_waiter_def newSingleGroupPolicy_def
      Default_thread_can_exit_def)


text \<open>
  With the GLibc policy no thread wakes after a broadcast: one that is released erases at the
  end of the empty first group, any other fails the assertion.
\<close>

theorem glibc_wake_after_broadcast_fails:
  "GLibc_wake_thread t (GLibc_receive_broadcast_message p) = Inl
     (if Default_thread_can_exit t (GLibc_receive_broadcast_message p) then OutOfBounds else AssertFailed)"
  by (auto simp: policy_simps Let_def bindR_def guardR_def split: sum.splits)

section \<open>Barriers and semaphores\<close>

text \<open>
  C38. In the first round of a barrier for n threads, the threads that have arrived are blocked
  while fewer than n of them have arrived, and none is blocked when n have.
\<close>

theorem barrier_releases_a_full_round:
  assumes "distinct ts" and "0 < length ts" and "length ts \<le> unat n" and "t \<in> set ts"
  shows "MCBarrier_wouldBlockIfWaitedOn t (fold MCBarrier_wait ts (newMCBarrier sys n)) \<longleftrightarrow> length ts < unat n"
  by (rule first_round_blocks [OF assms refl])

theorem barrier_releases_a_full_round_witness:
  "MCBarrier_wouldBlockIfWaitedOn 5 (fold MCBarrier_wait [4, 5] (newMCBarrier 7 3)) \<longleftrightarrow> 2 < unat (3 :: u32)"
  using barrier_releases_a_full_round [of "[4, 5]" 3 5 7] by simp

text \<open>
  A thread of a full first round that waits on the barrier again changes nothing and is not
  blocked: a barrier does not separate a second round.
\<close>

theorem barrier_never_blocks_again:
  assumes "distinct ts" and "0 < length ts" and "length ts = unat n" and "t \<in> set ts"
    and "b = fold MCBarrier_wait ts (newMCBarrier sys n)"
  shows "MCBarrier_wait t b = b \<and> \<not> MCBarrier_wouldBlockIfWaitedOn t (MCBarrier_wait t b)"
  using odd_round_again [OF first_round(1) [OF assms(1,2) _ assms(5)] assms(4)]
    first_round_blocks [OF assms(1,2) _ assms(4,5)] assms(3) by simp

theorem barrier_never_blocks_again_witness:
  "MCBarrier_wait 4 (fold MCBarrier_wait [4, 5] (newMCBarrier 7 2)) = fold MCBarrier_wait [4, 5] (newMCBarrier 7 2)
   \<and> \<not> MCBarrier_wouldBlockIfWaitedOn 4 (MCBarrier_wait 4 (fold MCBarrier_wait [4, 5] (newMCBarrier 7 2)))"
  by (rule barrier_never_blocks_again [of "[4, 5]" 2 4 _ 7]) simp_all

text \<open>
  Of the threads queued on a semaphore with a positive count, exactly the one that came first
  can go on.
\<close>

theorem semaphore_is_first_in_first_out:
  assumes "sem_waitingQueue s = []" and "sem_count s \<noteq> 0" and "distinct (t # ts)"
  shows "MCSemaphore_threadCanExit u (fold MCSemaphore_enterWaitingQueue (t # ts) s) \<longleftrightarrow> u = t"
proof -
  have "sem_waitingQueue (fold MCSemaphore_enterWaitingQueue us s) = sem_waitingQueue s @ us
      \<and> sem_count (fold MCSemaphore_enterWaitingQueue us s) = sem_count s" for us s
    by (induction us arbitrary: s) (simp_all add: MCSemaphore_enterWaitingQueue_def)
  from this [of "t # ts" s] show ?thesis using assms by (auto simp: canExit_iff)
qed

theorem semaphore_is_first_in_first_out_witness:
  "MCSemaphore_threadCanExit 6 (fold MCSemaphore_enterWaitingQueue [5, 6] (newMCSemaphore 7 1)) \<longleftrightarrow> 6 = (5 :: nat)"
  by (rule semaphore_is_first_in_first_out) (simp_all add: newMCSemaphore_def)

text \<open>
  Posting a semaphore increments its 32-bit count modulo 2^32, and waiting decrements it down to
  zero and no further.
\<close>

theorem semaphore_count_wraps_up_and_stops_at_zero:
  "unat (sem_count (MCSemaphore_post s)) = (unat (sem_count s) + 1) mod 2 ^ 32
   \<and> unat (sem_count (MCSemaphore_wait s)) = unat (sem_count s) - 1"
  using sem_wait_count by (simp add: MCSemaphore_post_def unat_word_ariths)

section \<open>Containers\<close>

text \<open>
  On a sorted stack popGreaterThan removes exactly the elements above the bound, and the stack
  stays sorted.
\<close>

theorem pop_greater_than_filters:
  assumes "sorted_stack s"
  shows "MCSortedStack_popGreaterThan i s = filter (\<lambda>x. x \<le> i) s \<and> sorted_stack (MCSortedStack_popGreaterThan i s)"
  using popGreaterThan_filter sorted_stack_popGreaterThan assms by blast

theorem pop_greater_than_filters_witness:
  "MCSortedStack_popGreaterThan 4 [9, 5, 4, 2] = filter (\<lambda>x. x \<le> 4) [9, 5, 4, 2]
   \<and> sorted_stack (MCSortedStack_popGreaterThan 4 [9, 5, 4, 2])"
  by (rule pop_greater_than_filters) (simp add: sorted_stack_def)

text \<open>
  MCSortedStack::size does not return on any stack: it calls itself.
\<close>

theorem stack_size_never_returns: "MCSortedStack_size s = None"
  by (rule MCSortedStack_size_diverges)

text \<open>
  The maximum of two clock vectors has, for every thread, the greater of the two components, and
  no component where neither has one.
\<close>

theorem max_is_pointwise:
  assumes "clock_wf a" and "clock_wf b"
  shows "valueForThread (clock_max a b) t =
    (if valueForThread a t = None \<and> valueForThread b t = None then None
     else Some (max (clock_at a t) (clock_at b t)))"
  by (rule valueForThread_max [OF assms])

theorem max_is_pointwise_witness:
  "valueForThread (clock_max (set_component newEmptyClockVector 1 3) (set_component newEmptyClockVector 2 5)) 1 =
    (if valueForThread (set_component newEmptyClockVector 1 3) 1 = None \<and>
        valueForThread (set_component newEmptyClockVector 2 5) 1 = None then None
     else Some (max (clock_at (set_component newEmptyClockVector 1 3) 1)
       (clock_at (set_component newEmptyClockVector 2 5) 1)))"
  by (rule max_is_pointwise) (intro clock_wf_set clock_wf_empty)+

end
