(* ===== verification/Independence.thy ===== *)
theory Independence
  imports Typing
begin

text \<open>
  What the dependence test of \<^verbatim>\<open>src/MCTransition.cpp\<close> promises the reduction: two transitions it
  declares independent can be run in either order, with the same objects afterwards.  The writes of
  a transition are listed object by object (\<open>effects\<close>); two lists of writes can be exchanged when
  they commute on every object they share (\<open>ObjectStore.keyed_store\<close>), and the test is compared
  with the writes class by class.  \<open>overlooked\<close> lists the pairs the test misses.
\<close>

section \<open>Transitions read from the current objects\<close>

definition current :: "mcstack \<Rightarrow> transition \<Rightarrow> bool" where
  "current s t \<longleftrightarrow> getThreadWithId s (getThreadId t) = Inr (transition_thread t) \<and>
     (let st = objectStorage s in case t of
      MCThreadTransition th op x \<Rightarrow> getThreadWithId s (thread_tid x) = Inr x
    | MCMutexTransition _ _ x \<Rightarrow> getMutex (mutex_id x) st = Inr x
    | MCSemaphoreTransition _ _ x \<Rightarrow> getSem (sem_id x) st = Inr x
    | MCCondTransition _ op x \<Rightarrow> getCond (cond_id x) st = Inr x \<and> (case op of
          CondEnqueue m \<Rightarrow> getMutex (mutex_id m) st = Inr m
        | CondWait mo \<Rightarrow> cond_mutex_in x st = Inr mo | _ \<Rightarrow> True)
    | MCBarrierTransition _ _ x \<Rightarrow> getBarrier (barrier_id x) st = Inr x
    | MCRWLockTransition _ _ x \<Rightarrow> getRWLock (rw_id x) st = Inr x
    | MCRWWLockTransition _ _ x \<Rightarrow> getRWWLock (rww_id x) st = Inr x
    | MCGlobalVariableTransition _ _ x \<Rightarrow> getGlobal (global_id x) st = Inr x
    | _ \<Rightarrow> True)"

text \<open>An object read by its id is the object with that id.\<close>

lemma read_own_id:
  assumes "store_wf st"
  shows "getMutex i st = Inr x1 \<Longrightarrow> getMutex (mutex_id x1) st = Inr x1"
    and "getSem i st = Inr x2 \<Longrightarrow> getSem (sem_id x2) st = Inr x2"
    and "getCond i st = Inr x3 \<Longrightarrow> getCond (cond_id x3) st = Inr x3"
    and "getBarrier i st = Inr x4 \<Longrightarrow> getBarrier (barrier_id x4) st = Inr x4"
    and "getRWLock i st = Inr x5 \<Longrightarrow> getRWLock (rw_id x5) st = Inr x5"
    and "getRWWLock i st = Inr x6 \<Longrightarrow> getRWWLock (rww_id x6) st = Inr x6"
    and "getGlobal i st = Inr x7 \<Longrightarrow> getGlobal (global_id x7) st = Inr x7"
  by (frule get_class [OF assms], simp)+

lemma refresh_current:
  assumes "typed s" and "refresh (getThreadWithId s) (objectStorage s) p = Inr t"
  shows "current s t"
proof -
  have wf: "store_wf (objectStorage s)" using assms(1) by (simp add: typed_def)
  have thr: "getThreadWithId s (thread_tid th) = Inr th" if "getThreadWithId s q = Inr th" for q th
    using getThreadWithId_typed(1) [OF assms(1) that] that by simp
  note cls = read_own_id [OF wf]
  note unf = refresh_def methods_of_def class_methods result_simps current_def getThreadId_def
    transition_thread_def
  show ?thesis
  proof (cases p)
    case (MCThreadTransition th op x)
    then show ?thesis using assms(2) by (cases op) (auto simp: unf dest: thr)
  next
    case (MCMutexTransition th op x)
    then show ?thesis using assms(2) by (cases op) (auto simp: unf mutex_dispatch_def dest: thr cls)
  next
    case (MCSemaphoreTransition th op x)
    then show ?thesis using assms(2) by (cases op) (auto simp: unf dest: thr cls)
  next
    case (MCCondTransition th op x)
    then show ?thesis using assms(2) by (cases op) (auto simp: unf Let_def dest: thr cls)
  next
    case (MCBarrierTransition th op x)
    then show ?thesis using assms(2) by (cases op) (auto simp: unf dest: thr cls)
  next
    case (MCRWLockTransition th op x)
    then show ?thesis using assms(2) by (cases op) (auto simp: unf dest: thr cls)
  next
    case (MCRWWLockTransition th op x)
    then show ?thesis using assms(2) by (cases op) (auto simp: unf dest: thr cls)
  next
    case (MCGlobalVariableTransition th op x)
    then show ?thesis using assms(2) by (cases op) (auto simp: unf dest: thr cls)
  qed (use assms(2) in \<open>auto simp: unf dest: thr\<close>)
qed

lemma pending_current:
  assumes "well_typed s" and "getNextTransitionForThread s q = Inr t"
  shows "current s t"
  using assms by (auto simp: getNextTransitionForThread_def result_simps well_typed_def split: option.splits
      intro: refresh_current)

section \<open>The writes of a transition\<close>

type_synonym store_write = "objid \<times> (visible_object \<Rightarrow> visible_object result)"

text \<open>The assertion of a join, and the second half of a wait.\<close>

definition check_dead :: "visible_object \<Rightarrow> visible_object result" where
  "check_dead v = (case v of VThread x \<Rightarrow> guardR AssertFailed (MCThread_isDead x) (Inr v)
     | _ \<Rightarrow> Inl OutOfBounds)"

definition leave_cond :: "tid \<Rightarrow> mccond \<Rightarrow> mccond result" where
  "leave_cond p c = bindR (MCConditionVariable_removeWaiter p c) (\<lambda>c'.
     Inr (if \<not> MCConditionVariable_hasWaiters c' then c'\<lparr>cond_mutex := None\<rparr> else c'))"

definition effects :: "(tid \<Rightarrow> objid option) \<Rightarrow> object_store \<Rightarrow> transition \<Rightarrow> store_write list" where
  "effects ids st t = (let p = getThreadId t in case t of
      MCThreadTransition th op x \<Rightarrow> (case op of
          ThreadCreate \<Rightarrow> [(the (ids (thread_tid x)), on_thread MCThread_spawn)]
        | ThreadStart \<Rightarrow> [(the (ids p), on_thread MCThread_spawn)]
        | ThreadJoin \<Rightarrow> [(the (ids (thread_tid x)), check_dead)]
        | ThreadFinish \<Rightarrow> [(the (ids p), on_thread MCThread_die)])
    | MCMutexTransition th op x \<Rightarrow> [(mutex_id x, on_mutex (case op of
          MutexInit \<Rightarrow> MCMutex_init
        | MutexLock \<Rightarrow> MCMutex_lock p
        | MutexTrylock _ \<Rightarrow> (\<lambda>m. if MCMutex_isUnlocked m then MCMutex_lock p m else m)
        | MutexUnlock \<Rightarrow> MCMutex_unlock))]
    | MCSemaphoreTransition th op x \<Rightarrow> [(sem_id x, on_sem (case op of
          SemInit \<Rightarrow> MCSemaphore_init
        | SemPost \<Rightarrow> MCSemaphore_post
        | SemEnqueue \<Rightarrow> MCSemaphore_enterWaitingQueue p
        | SemWait \<Rightarrow> (\<lambda>s. MCSemaphore_leaveWaitingQueue p (MCSemaphore_wait s))))]
    | MCCondTransition th op x \<Rightarrow> (case op of
          CondInit \<Rightarrow> [(cond_id x, on_cond (\<lambda>c. Inr (MCConditionVariable_initialize c)))]
        | CondSignal \<Rightarrow> [(cond_id x, on_cond (\<lambda>c. Inr (MCConditionVariable_sendSignalMessage c)))]
        | CondBroadcast \<Rightarrow> [(cond_id x, on_cond (\<lambda>c. Inr (MCConditionVariable_sendBroadcastMessage c)))]
        | CondEnqueue m \<Rightarrow>
            [(cond_id x, on_cond (\<lambda>c. Inr ((MCConditionVariable_addWaiter p c)\<lparr>cond_mutex := Some (mutex_id m)\<rparr>))),
             (mutex_id m, on_mutex MCMutex_unlock)]
        | CondWait _ \<Rightarrow> (case getCond (cond_id x) st of Inl _ \<Rightarrow> [] | Inr c \<Rightarrow> (case cond_mutex c of
              None \<Rightarrow> [(cond_id x, \<lambda>v. Inl NullDereference)]
            | Some i \<Rightarrow> [(i, on_mutex (MCMutex_lock p)), (cond_id x, on_cond (leave_cond p))])))
    | MCBarrierTransition th op x \<Rightarrow> (case op of
          BarrierInit \<Rightarrow> [(barrier_id x, on_barrier MCBarrier_init)]
        | BarrierEnqueue \<Rightarrow> [(barrier_id x, on_barrier (MCBarrier_wait p))]
        | BarrierWait \<Rightarrow> [])
    | MCRWLockTransition th op x \<Rightarrow> [(rw_id x, on_rwlock (case op of
          RWLockInit \<Rightarrow> (\<lambda>l. Inr (MCRWLock_init l))
        | RWLockReaderEnqueue \<Rightarrow> (\<lambda>l. Inr (MCRWLock_enqueue_as_reader p l))
        | RWLockReaderLock \<Rightarrow> MCRWLock_reader_lock p
        | RWLockWriterEnqueue \<Rightarrow> (\<lambda>l. Inr (MCRWLock_enqueue_as_writer p l))
        | RWLockWriterLock \<Rightarrow> MCRWLock_writer_lock p
        | RWLockUnlock \<Rightarrow> MCRWLock_unlock p))]
    | MCRWWLockTransition th op x \<Rightarrow> [(rww_id x, on_rwwlock (case op of
          RWWLockInit \<Rightarrow> (\<lambda>l. Inr (MCRWWLock_init l))
        | RWWLockReaderEnqueue \<Rightarrow> (\<lambda>l. Inr (MCRWWLock_enqueue_as_reader p l))
        | RWWLockReaderLock \<Rightarrow> MCRWWLock_reader_lock p
        | RWWLockWriter1Enqueue \<Rightarrow> (\<lambda>l. Inr (MCRWWLock_enqueue_as_writer1 p l))
        | RWWLockWriter1Lock \<Rightarrow> MCRWWLock_writer1_lock p
        | RWWLockWriter2Enqueue \<Rightarrow> (\<lambda>l. Inr (MCRWWLock_enqueue_as_writer2 p l))
        | RWWLockWriter2Lock \<Rightarrow> MCRWWLock_writer2_lock p
        | RWWLockUnlock \<Rightarrow> MCRWWLock_unlock p))]
    | MCGlobalVariableTransition th op x \<Rightarrow> (case op of
          GlobalRead \<Rightarrow> []
        | GlobalWrite v \<Rightarrow> [(global_id x, on_global (\<lambda>g. g\<lparr>global_val := v\<rparr>))])
    | _ \<Rightarrow> [])"

lemma modify_id: "getObjectWithId i st = Inr v \<Longrightarrow> f v = Inr v \<Longrightarrow> modify_object i f st = Inr st"
  by (auto simp: modify_object_def getObjectWithId_def list_update_id split: if_splits)

text \<open>Applying a transition performs its writes.\<close>

lemma updates_Nil [simp]: "os.updates [] = Inr"
  by (rule ext) simp

lemma updates_single [simp]: "os.updates [(k, f)] = modify_object k f"
  by (rule ext) simp

lemma thread_at:
  assumes "typed s" and "getThreadWithId s q = Inr x"
  shows "threadIdMap s q = Some (thread_id x)" and "getObjectWithId (thread_id x) (objectStorage s) = Inr (VThread x)"
    and "thread_tid x = q"
proof -
  obtain i where i: "threadIdMap s q = Some i" "getObjectWithId i (objectStorage s) = Inr (VThread x)"
    using assms(2) by (auto simp: getThreadWithId_def get_iff split: option.splits)
  have "thread_id x = i"
    using getObjectId_read [OF _ i(2)] assms(1) by (simp add: typed_def getObjectId_def)
  then show "threadIdMap s q = Some (thread_id x)"
    "getObjectWithId (thread_id x) (objectStorage s) = Inr (VThread x)" using i by simp_all
  show "thread_tid x = q" using getThreadWithId_typed(1) [OF assms] by simp
qed

lemma apply_effects:
  assumes "typed s" and "current s t"
  shows "virtuallyApplyTransition t s =
    bindR (os.updates (effects (threadIdMap s) (objectStorage s) t) (objectStorage s)) (\<lambda>st. Inr (s\<lparr>objectStorage := st\<rparr>))"
proof -
  note thr = thread_at [OF assms(1)]
  note unf = methods_of_def class_methods result_simps effects_def getThreadId_def transition_thread_def
    current_def Let_def
  have own: "getThreadWithId s (getThreadId t) = Inr (transition_thread t)"
    using assms(2) by (simp add: current_def)
  obtain d where d: "dynamicCopyInState (methods_of t) (getThreadWithId s) (objectStorage s) = Inr d"
    and "applyToState (methods_of d) (objectStorage s) =
      os.updates (effects (threadIdMap s) (objectStorage s) t) (objectStorage s)"
  proof (cases t)
    case (MCThreadTransition th op x)
    show ?thesis
    proof (cases op)
      case ThreadJoin
      then have y: "getThreadWithId s (thread_tid x) = Inr x" and own': "getThreadWithId s (thread_tid th) = Inr th"
        using own assms(2) MCThreadTransition by (simp_all add: unf)
      show ?thesis
      proof (cases "MCThread_isDead x")
        case True
        then show ?thesis using thr [OF y] y own' MCThreadTransition ThreadJoin that
          by (simp add: unf check_dead_def modify_id)
      next
        case False
        then show ?thesis using thr [OF y] y own' MCThreadTransition ThreadJoin that
          by (simp add: unf check_dead_def modify_object_def)
      qed
    qed (use assms(2) own MCThreadTransition that in \<open>auto simp: unf dest: thr(1)\<close>)
  next
    case (MCMutexTransition th op x)
    show ?thesis
    proof (cases op)
      case (MutexTrylock b)
      have "modify_object (mutex_id x) (on_mutex (\<lambda>m. if MCMutex_isUnlocked m then MCMutex_lock (thread_tid th) m else m))
          (objectStorage s) = (if MCMutex_isUnlocked x
            then modify_object (mutex_id x) (on_mutex (MCMutex_lock (thread_tid th))) (objectStorage s)
            else Inr (objectStorage s))"
        using assms(2) MCMutexTransition by (auto simp: unf get_iff on_mutex_def intro: os.update_local modify_id)
      then show ?thesis using assms(2) MCMutexTransition MutexTrylock that
        by (simp add: unf mutex_dispatch_def)
    qed (use assms(2) MCMutexTransition that in \<open>simp_all add: unf mutex_dispatch_def\<close>)
  next
    case (MCSemaphoreTransition th op x)
    then show ?thesis using assms(2) that by (cases op) (simp_all add: unf)
  next
    case (MCCondTransition th op x)
    show ?thesis
    proof (cases op)
      case (CondWait mo)
      have m: "cond_mutex_in x (objectStorage s) = Inr mo" "getCond (cond_id x) (objectStorage s) = Inr x"
        using assms(2) MCCondTransition CondWait by (simp_all add: unf)
      have wf: "store_wf (objectStorage s)" using assms(1) by (simp add: typed_def)
      have "cond_mutex x = map_option mutex_id mo"
        using m(1) get_class(1) [OF wf] by (auto simp: cond_mutex_in_def result_simps split: option.splits)
      moreover have "getObjectWithId (cond_id x) (objectStorage s) = Inr (VCond x)"
        using m(2) by (simp add: get_iff)
      then have "modify_object (cond_id x) (\<lambda>v. Inl NullDereference) (objectStorage s) = Inl NullDereference"
        by (simp add: modify_object_def)
      ultimately show ?thesis
        using m assms(2) MCCondTransition CondWait that
        by (cases mo) (simp_all add: unf leave_cond_def [abs_def])
    qed (use assms(2) MCCondTransition that in \<open>simp_all add: unf\<close>)
  next
    case (MCBarrierTransition th op x)
    then show ?thesis using assms(2) that by (cases op) (simp_all add: unf)
  next
    case (MCRWLockTransition th op x)
    then show ?thesis using assms(2) that by (cases op) (simp_all add: unf)
  next
    case (MCRWWLockTransition th op x)
    then show ?thesis using assms(2) that by (cases op) (simp_all add: unf)
  next
    case (MCGlobalVariableTransition th op x)
    then show ?thesis using assms(2) that by (cases op) (simp_all add: unf)
  qed (use assms(2) that in \<open>simp_all add: unf\<close>)
  then show ?thesis by (simp add: virtuallyApplyTransition_def)
qed

text \<open>Reading a pending transition again does not change what it writes.\<close>

lemma refresh_effects:
  assumes "typed s" and "refresh (getThreadWithId s) (objectStorage s) p = Inr t"
  shows "effects ids st t = effects ids st p"
proof -
  have wf: "store_wf (objectStorage s)" using assms(1) by (simp add: typed_def)
  note thr = thread_at(3) [OF assms(1)]
  note cls = get_class [OF wf]
  note unf = refresh_def methods_of_def class_methods result_simps effects_def getThreadId_def
    transition_thread_def
  show ?thesis
  proof (cases p)
    case (MCThreadTransition th op x)
    then show ?thesis using assms(2) by (cases op) (auto simp: unf dest!: thr)
  next
    case (MCMutexTransition th op x)
    then show ?thesis using assms(2) by (cases op) (auto simp: unf mutex_dispatch_def dest!: thr cls)
  next
    case (MCSemaphoreTransition th op x)
    then show ?thesis using assms(2) by (cases op) (auto simp: unf dest!: thr cls)
  next
    case (MCCondTransition th op x)
    then show ?thesis using assms(2) by (cases op) (auto simp: unf Let_def dest!: thr cls split: sum.split option.split)
  next
    case (MCBarrierTransition th op x)
    then show ?thesis using assms(2) by (cases op) (auto simp: unf dest!: thr cls)
  next
    case (MCRWLockTransition th op x)
    then show ?thesis using assms(2) by (cases op) (auto simp: unf dest!: thr cls)
  next
    case (MCRWWLockTransition th op x)
    then show ?thesis using assms(2) by (cases op) (auto simp: unf dest!: thr cls)
  next
    case (MCGlobalVariableTransition th op x)
    then show ?thesis using assms(2) by (cases op) (auto simp: unf dest!: thr cls)
  qed (use assms(2) in \<open>auto simp: unf dest!: thr\<close>)
qed

text \<open>A write belongs to an object of the transition.\<close>

definition thread_target :: "transition \<Rightarrow> tid" where
  "thread_target t = (case t of
      MCThreadTransition th op x \<Rightarrow> (case op of
          ThreadCreate \<Rightarrow> thread_tid x | ThreadJoin \<Rightarrow> thread_tid x | _ \<Rightarrow> thread_tid th)
    | _ \<Rightarrow> getThreadId t)"

lemma effects_cases [consumes 3]:
  assumes "typed s" and "current s t" and "(k, f) \<in> set (effects (threadIdMap s) (objectStorage s) t)"
  obtains (thread) th op x where "t = MCThreadTransition th op x"
      "class_at (objectStorage s) k = Some (ThreadObject (thread_target t))"
    | (mutex) th op x where "t = MCMutexTransition th op x" "getMutex k (objectStorage s) = Inr x"
        "class_at (objectStorage s) k = Some MutexObject"
    | (enqueue) th m x where "t = MCCondTransition th (CondEnqueue m) x" "getMutex k (objectStorage s) = Inr m"
        "class_at (objectStorage s) k = Some MutexObject" "f = on_mutex MCMutex_unlock"
    | (wait) th m x where "t = MCCondTransition th (CondWait (Some m)) x" "getMutex k (objectStorage s) = Inr m"
        "class_at (objectStorage s) k = Some MutexObject"
    | (sem) th op x where "t = MCSemaphoreTransition th op x" "getSem k (objectStorage s) = Inr x"
        "class_at (objectStorage s) k = Some SemaphoreObject"
    | (cond) th op x where "t = MCCondTransition th op x" "getCond k (objectStorage s) = Inr x"
        "class_at (objectStorage s) k = Some CondObject"
    | (barrier) th op x where "t = MCBarrierTransition th op x" "getBarrier k (objectStorage s) = Inr x"
        "class_at (objectStorage s) k = Some BarrierObject"
    | (rwlock) th op x where "t = MCRWLockTransition th op x" "getRWLock k (objectStorage s) = Inr x"
        "class_at (objectStorage s) k = Some RWLockObject"
    | (rwwlock) th op x where "t = MCRWWLockTransition th op x" "getRWWLock k (objectStorage s) = Inr x"
        "class_at (objectStorage s) k = Some RWWLockObject"
    | (global) th op x where "t = MCGlobalVariableTransition th op x" "getGlobal k (objectStorage s) = Inr x"
        "class_at (objectStorage s) k = Some GlobalObject"
proof -
  have wf: "store_wf (objectStorage s)" using assms(1) by (simp add: typed_def)
  have ids: "class_at (objectStorage s) (the (threadIdMap s q)) = Some (ThreadObject q)"
    if "getThreadWithId s q = Inr x" for q x
    using thread_at [OF assms(1) that] by (simp add: class_at_read)
  have cm: "\<exists>m. mo = Some m \<and> getMutex i (objectStorage s) = Inr m"
    if "cond_mutex_in x (objectStorage s) = Inr mo" "cond_mutex x = Some i" for x mo i
    using that by (auto simp: cond_mutex_in_def result_simps)
  note cls = get_class [OF wf]
  note unf = current_def effects_def getThreadId_def transition_thread_def Let_def thread_target_def
  show thesis
  proof (cases t)
    case (MCThreadTransition th op x)
    then show ?thesis using assms(2,3) thread ids by (cases op) (auto simp: unf)
  next
    case (MCMutexTransition th op x)
    then have r: "getMutex k (objectStorage s) = Inr x"
      using assms(2,3) by (cases op) (simp_all add: unf)
    show ?thesis by (rule mutex [OF MCMutexTransition r]) (use cls(1) [OF r] in simp)
  next
    case (MCSemaphoreTransition th op x)
    then have r: "getSem k (objectStorage s) = Inr x"
      using assms(2,3) by (cases op) (simp_all add: unf)
    show ?thesis by (rule sem [OF MCSemaphoreTransition r]) (use cls(2) [OF r] in simp)
  next
    case (MCCondTransition th op x)
    have c: "getCond (cond_id x) (objectStorage s) = Inr x"
      using assms(2) MCCondTransition by (simp add: unf)
    have here: thesis if "k = cond_id x"
      using cond [OF MCCondTransition] c cls(3) [OF c] that by simp
    show ?thesis
    proof (cases op)
      case (CondEnqueue m)
      then have m: "getMutex (mutex_id m) (objectStorage s) = Inr m" and x: "getCond (cond_id x) (objectStorage s) = Inr x"
        and "k = cond_id x \<or> k = mutex_id m \<and> f = on_mutex MCMutex_unlock"
        using assms(2,3) MCCondTransition by (auto simp: unf)
      then consider "k = cond_id x" | "k = mutex_id m" "f = on_mutex MCMutex_unlock" by blast
      then show ?thesis
      proof cases
        case 1
        then show ?thesis by (rule here)
      next
        case 2
        then show ?thesis using enqueue [OF MCCondTransition [unfolded CondEnqueue]] m cls(1) [OF m] by simp
      qed
    next
      case (CondWait mo)
      then have x: "getCond (cond_id x) (objectStorage s) = Inr x"
          "cond_mutex_in x (objectStorage s) = Inr mo"
        using assms(2) MCCondTransition by (auto simp: unf)
      have "k = cond_id x \<or> cond_mutex x = Some k"
        using assms(3) MCCondTransition CondWait x by (auto simp: unf split: option.splits)
      then consider "k = cond_id x" | "cond_mutex x = Some k" by blast
      then show ?thesis
      proof cases
        case 1
        then show ?thesis by (rule here)
      next
        case 2
        obtain m where m: "mo = Some m" "getMutex k (objectStorage s) = Inr m" using cm [OF x(2) 2] by blast
        then show ?thesis using wait [OF MCCondTransition [unfolded CondWait m(1)]] cls(1) [OF m(2)] by simp
      qed
    qed (rule here, use assms(3) MCCondTransition in \<open>simp add: unf\<close>)+
  next
    case (MCBarrierTransition th op x)
    then have r: "getBarrier k (objectStorage s) = Inr x"
      using assms(2,3) by (cases op) (simp_all add: unf)
    show ?thesis by (rule barrier [OF MCBarrierTransition r]) (use cls(4) [OF r] in simp)
  next
    case (MCRWLockTransition th op x)
    then have r: "getRWLock k (objectStorage s) = Inr x"
      using assms(2,3) by (cases op) (simp_all add: unf)
    show ?thesis by (rule rwlock [OF MCRWLockTransition r]) (use cls(5) [OF r] in simp)
  next
    case (MCRWWLockTransition th op x)
    then have r: "getRWWLock k (objectStorage s) = Inr x"
      using assms(2,3) by (cases op) (simp_all add: unf)
    show ?thesis by (rule rwwlock [OF MCRWWLockTransition r]) (use cls(6) [OF r] in simp)
  next
    case (MCGlobalVariableTransition th op x)
    then have r: "getGlobal k (objectStorage s) = Inr x"
      using assms(2,3) by (cases op) (simp_all add: unf)
    show ?thesis by (rule global [OF MCGlobalVariableTransition r]) (use cls(7) [OF r] in simp)
  qed (use assms(3) in \<open>auto simp: unf\<close>)
qed

section \<open>What the dependence test overlooks\<close>

text \<open>
  Creating a thread and joining it; posting a semaphore whose count is at its maximum, which wraps
  to zero, and waiting for it; and acquiring a mutex at the end of a wait while another thread does
  so, too, or gives the mutex away.
\<close>

definition overlooked_by :: "transition \<Rightarrow> transition \<Rightarrow> bool" where
  "overlooked_by t u \<longleftrightarrow> (case t of
      MCThreadTransition _ ThreadCreate x \<Rightarrow> (case u of
          MCThreadTransition _ ThreadJoin y \<Rightarrow> thread_tid x = thread_tid y | _ \<Rightarrow> False)
    | MCSemaphoreTransition _ SemPost x \<Rightarrow> (case u of
          MCSemaphoreTransition _ SemWait y \<Rightarrow> MCSemaphore_eq x y \<and> sem_count x = - 1 | _ \<Rightarrow> False)
    | MCCondTransition _ (CondWait (Some m)) x \<Rightarrow> (case u of
          MCCondTransition _ (CondWait (Some n)) y \<Rightarrow> MCMutex_eq m n
        | MCCondTransition _ (CondEnqueue n) y \<Rightarrow> MCMutex_eq m n
        | MCMutexTransition _ MutexUnlock n \<Rightarrow> MCMutex_eq m n
        | _ \<Rightarrow> False)
    | _ \<Rightarrow> False)"


section \<open>Independent transitions on the same object\<close>

lemma commute_same: "os.commute_at st (k, f) (l, f)"
  by (simp add: os.commute_at_def)

lemma other_thread: "\<not> dependentTransitions t u \<Longrightarrow> getThreadId t \<noteq> getThreadId u"
  using dependent_same_thread by blast

lemma independent_threads:
  assumes "\<not> dependentTransitions (MCThreadTransition th op x) (MCThreadTransition th' op' y)"
    and "thread_target (MCThreadTransition th op x) = thread_target (MCThreadTransition th' op' y)"
  shows "op = ThreadCreate \<and> op' = ThreadCreate \<or> op = ThreadJoin \<and> op' = ThreadJoin
    \<or> op = ThreadCreate \<and> op' = ThreadJoin \<or> op = ThreadJoin \<and> op' = ThreadCreate"
  using assms other_thread [OF assms(1)]
  by (cases op; cases op') (auto simp: dependentTransitions_def methods_of_def class_methods thread_target_def
      getThreadId_def transition_thread_def)

lemma independent_mutexes:
  assumes "\<not> dependentTransitions (MCMutexTransition th op x) (MCMutexTransition th' op' x)"
  shows "op = MutexUnlock \<and> op' = MutexUnlock"
  using assms
  by (cases op; cases op') (auto simp: dependentTransitions_def methods_of_def mutex_dispatch_def class_methods MCMutex_eq_def)

lemma independent_enqueue:
  assumes "\<not> dependentTransitions (MCMutexTransition th op m) (MCCondTransition th' (CondEnqueue m) y)"
  shows "op = MutexUnlock"
  using assms
  by (cases op) (auto simp: dependentTransitions_def methods_of_def mutex_dispatch_def class_methods MCMutex_eq_def
    dependentTransitions_via_def)

lemma independent_wait:
  assumes "\<not> dependentTransitions (MCMutexTransition th op m) (MCCondTransition th' (CondWait (Some m)) y)"
  shows "op = MutexUnlock"
  using assms other_thread [OF assms]
  by (cases op) (auto simp: dependentTransitions_def methods_of_def mutex_dispatch_def class_methods MCMutex_eq_def
    coenabledTransitions_via_def transitionsCoenabledCommon_def doesCreateThread_def joinsOnThread_def
    getThreadId_def transition_thread_def)

lemma cond_dependent: "dependentTransitions (MCCondTransition th op x) (MCCondTransition th' op' x)"
  by (cases op) (auto simp: dependentTransitions_def methods_of_def class_methods MCConditionVariable_eq_def)

lemma barrier_dependent: "dependentTransitions (MCBarrierTransition th op x) (MCBarrierTransition th' op' x)"
  by (cases op) (auto simp: dependentTransitions_def methods_of_def class_methods MCBarrier_eq_def)

lemma independent_rwlocks:
  "\<not> dependentTransitions (MCRWLockTransition th op x) (MCRWLockTransition th' op' x) \<Longrightarrow>
     op = RWLockReaderLock \<and> op' = RWLockReaderLock"
  by (cases op; cases op') (auto simp: dependentTransitions_def methods_of_def class_methods MCRWLock_eq_def)

lemma independent_rwwlocks:
  "\<not> dependentTransitions (MCRWWLockTransition th op x) (MCRWWLockTransition th' op' x) \<Longrightarrow>
     op = RWWLockReaderLock \<and> op' = RWWLockReaderLock"
  by (cases op; cases op') (auto simp: dependentTransitions_def methods_of_def class_methods MCRWWLock_eq_def)

lemma independent_globals:
  "\<not> dependentTransitions (MCGlobalVariableTransition th op x) (MCGlobalVariableTransition th' op' x) \<Longrightarrow>
     op = GlobalRead \<and> op' = GlobalRead"
  by (cases op; cases op') (auto simp: dependentTransitions_def methods_of_def class_methods MCGlobalVariable_eq_def)

text \<open>Two readers cannot both be in front of the queue.\<close>

lemma one_reader_enabled:
  "transitionEnabledInState (MCRWLockTransition th RWLockReaderLock x) \<Longrightarrow>
   transitionEnabledInState (MCRWLockTransition th' RWLockReaderLock x) \<Longrightarrow> thread_tid th = thread_tid th'"
  "transitionEnabledInState (MCRWWLockTransition th RWWLockReaderLock y) \<Longrightarrow>
   transitionEnabledInState (MCRWWLockTransition th' RWWLockReaderLock y) \<Longrightarrow> thread_tid th = thread_tid th'"
  by (auto simp: transitionEnabledInState_def methods_of_def class_methods MCRWLock_canAcquireAsReader_def
      MCRWWLock_canAcquireAsReader_def split: if_splits)

definition sem_effect :: "tid \<Rightarrow> sem_op \<Rightarrow> mcsem \<Rightarrow> mcsem" where
  "sem_effect p op = (case op of
          SemInit \<Rightarrow> MCSemaphore_init
        | SemPost \<Rightarrow> MCSemaphore_post
        | SemEnqueue \<Rightarrow> MCSemaphore_enterWaitingQueue p
        | SemWait \<Rightarrow> (\<lambda>s. MCSemaphore_leaveWaitingQueue p (MCSemaphore_wait s)))"

lemma enqueue_leave:
  "p \<noteq> q \<Longrightarrow> MCSemaphore_leaveWaitingQueue q (MCSemaphore_wait (MCSemaphore_enterWaitingQueue p s)) =
     MCSemaphore_enterWaitingQueue p (MCSemaphore_leaveWaitingQueue q (MCSemaphore_wait s))"
  by (simp add: sem_simps Let_def remove1_append remove1_idem)

lemma post_leave:
  assumes "sem_count s \<noteq> 0" and "sem_count s \<noteq> - 1"
  shows "MCSemaphore_leaveWaitingQueue q (MCSemaphore_wait (MCSemaphore_post s)) =
     MCSemaphore_post (MCSemaphore_leaveWaitingQueue q (MCSemaphore_wait s))"
proof -
  have "0 < sem_count s" "0 < sem_count s + 1"
    using assms by (auto simp: word_neq_0_conv eq_neg_iff_add_eq_0)
  then show ?thesis by (simp add: sem_simps Let_def)
qed

lemma independent_sems:
  "\<not> dependentTransitions (MCSemaphoreTransition th op x) (MCSemaphoreTransition th' op' x) \<Longrightarrow>
     op = op' \<and> op \<in> {SemInit, SemPost} \<or> {op, op'} \<in> {{SemPost, SemEnqueue}, {SemEnqueue, SemWait}, {SemPost, SemWait}}"
  by (cases op; cases op') (auto simp: dependentTransitions_def methods_of_def class_methods MCSemaphore_eq_def)

lemma post_enter: "MCSemaphore_post (MCSemaphore_enterWaitingQueue p s) = MCSemaphore_enterWaitingQueue p (MCSemaphore_post s)"
  by (simp add: sem_simps)

lemma wait_enabled:
  "transitionEnabledInState (MCSemaphoreTransition th SemWait x) \<Longrightarrow> sem_count x \<noteq> 0"
  by (simp add: transitionEnabledInState_def methods_of_def class_methods sem_simps)

lemma sem_exchange:
  assumes "\<not> dependentTransitions (MCSemaphoreTransition th op x) (MCSemaphoreTransition th' op' x)"
    and "\<not> overlooked_by (MCSemaphoreTransition th op x) (MCSemaphoreTransition th' op' x)"
    and "\<not> overlooked_by (MCSemaphoreTransition th' op' x) (MCSemaphoreTransition th op x)"
    and "transitionEnabledInState (MCSemaphoreTransition th op x)"
    and "transitionEnabledInState (MCSemaphoreTransition th' op' x)"
  shows "sem_effect (thread_tid th') op' (sem_effect (thread_tid th) op x) =
    sem_effect (thread_tid th) op (sem_effect (thread_tid th') op' x)"
proof -
  have other: "thread_tid th \<noteq> thread_tid th'"
    using other_thread [OF assms(1)] by (simp add: getThreadId_def transition_thread_def)
  note unf = overlooked_by_def MCSemaphore_eq_def sem_effect_def
  show ?thesis
    using independent_sems [OF assms(1)] assms(2,3) wait_enabled [of th x] wait_enabled [of th' x] assms(4,5)
    by (elim disjE conjE insertE emptyE; auto simp: unf doubleton_eq_iff enqueue_leave [OF other]
        enqueue_leave [OF other [symmetric]] post_leave post_enter)
qed


section \<open>Independent writes commute\<close>

text \<open>Two transitions that write the same object are of the same class, or both use a mutex.\<close>

lemma shared_writes:
  assumes "typed s" and "current s t" and "current s u"
    and "(k, f) \<in> set (effects (threadIdMap s) (objectStorage s) t)"
    and "(k, g) \<in> set (effects (threadIdMap s) (objectStorage s) u)"
  obtains
    (thread) th op x th' op' y where "t = MCThreadTransition th op x" "u = MCThreadTransition th' op' y"
      "thread_target t = thread_target u"
  | (mutex) th op x th' op' where "t = MCMutexTransition th op x" "u = MCMutexTransition th' op' x"
  | (mutex_enqueue) th op m th' y where "t = MCMutexTransition th op m"
      "u = MCCondTransition th' (CondEnqueue m) y" "g = on_mutex MCMutex_unlock"
  | (enqueue_mutex) th op m th' y where "u = MCMutexTransition th op m"
      "t = MCCondTransition th' (CondEnqueue m) y" "f = on_mutex MCMutex_unlock"
  | (enqueue) "f = on_mutex MCMutex_unlock" "g = on_mutex MCMutex_unlock"
  | (mutex_wait) th op m th' y where "t = MCMutexTransition th op m" "u = MCCondTransition th' (CondWait (Some m)) y"
  | (wait_mutex) th op m th' y where "u = MCMutexTransition th op m" "t = MCCondTransition th' (CondWait (Some m)) y"
  | (wait_wait) th m x th' y where "t = MCCondTransition th (CondWait (Some m)) x" "u = MCCondTransition th' (CondWait (Some m)) y"
  | (wait_enqueue) th m x th' y where "t = MCCondTransition th (CondWait (Some m)) x" "u = MCCondTransition th' (CondEnqueue m) y"
  | (enqueue_wait) th m x th' y where "u = MCCondTransition th (CondWait (Some m)) x" "t = MCCondTransition th' (CondEnqueue m) y"
  | (sem) th op x th' op' where "t = MCSemaphoreTransition th op x" "u = MCSemaphoreTransition th' op' x"
  | (cond) th op x th' op' where "t = MCCondTransition th op x" "u = MCCondTransition th' op' x"
  | (barrier) th op x th' op' where "t = MCBarrierTransition th op x" "u = MCBarrierTransition th' op' x"
  | (rwlock) th op x th' op' where "t = MCRWLockTransition th op x" "u = MCRWLockTransition th' op' x"
  | (rwwlock) th op x th' op' where "t = MCRWWLockTransition th op x" "u = MCRWWLockTransition th' op' x"
  | (global) th op x th' op' where "t = MCGlobalVariableTransition th op x" "u = MCGlobalVariableTransition th' op' x"
proof -
  show thesis
    using assms(1,2,4)
  proof (cases rule: effects_cases)
    case t: (thread th op x)
    from assms(1,3,5) show ?thesis
      by (cases rule: effects_cases) (use t assms(4) thread in auto)
  next
    case t: (mutex th op x)
    from assms(1,3,5) show ?thesis
      by (cases rule: effects_cases) (use t assms(4) in \<open>auto intro: mutex mutex_enqueue mutex_wait\<close>)
  next
    case t: (enqueue th m x)
    from assms(1,3,5) show ?thesis
      by (cases rule: effects_cases) (use t in \<open>auto intro: enqueue_mutex enqueue enqueue_wait\<close>)
  next
    case t: (wait th m x)
    from assms(1,3,5) show ?thesis
      by (cases rule: effects_cases) (use t in \<open>auto intro: wait_mutex wait_wait wait_enqueue\<close>)
  next
    case t: (sem th op x)
    from assms(1,3,5) show ?thesis
      by (cases rule: effects_cases) (use t in \<open>auto intro: sem\<close>)
  next
    case t: (cond th op x)
    from assms(1,3,5) show ?thesis
      by (cases rule: effects_cases) (use t in \<open>auto intro: cond\<close>)
  next
    case t: (barrier th op x)
    from assms(1,3,5) show ?thesis
      by (cases rule: effects_cases) (use t in \<open>auto intro: barrier\<close>)
  next
    case t: (rwlock th op x)
    from assms(1,3,5) show ?thesis
      by (cases rule: effects_cases) (use t in \<open>auto intro: rwlock\<close>)
  next
    case t: (rwwlock th op x)
    from assms(1,3,5) show ?thesis
      by (cases rule: effects_cases) (use t in \<open>auto intro: rwwlock\<close>)
  next
    case t: (global th op x)
    from assms(1,3,5) show ?thesis
      by (cases rule: effects_cases) (use t in \<open>auto intro: global\<close>)
  qed
qed


lemma thread_writes:
  "(k, f) \<in> set (effects ids st (MCThreadTransition th ThreadCreate x)) \<Longrightarrow> f = on_thread MCThread_spawn"
  "(k, f) \<in> set (effects ids st (MCThreadTransition th ThreadJoin x)) \<Longrightarrow> f = check_dead"
  by (simp_all add: effects_def Let_def)

lemma mutex_unlock_write:
  "(k, f) \<in> set (effects ids st (MCMutexTransition th MutexUnlock x)) \<Longrightarrow> f = on_mutex MCMutex_unlock"
  by (simp add: effects_def Let_def)

lemma sem_write:
  "(k, f) \<in> set (effects ids st (MCSemaphoreTransition th op x)) \<Longrightarrow> k = sem_id x \<and> f = on_sem (sem_effect (thread_tid th) op)"
  by (cases op) (simp_all add: effects_def Let_def sem_effect_def getThreadId_def transition_thread_def)

lemma global_write:
  "(k, f) \<notin> set (effects ids st (MCGlobalVariableTransition th GlobalRead x))"
  by (simp add: effects_def Let_def)

definition overlooked :: "transition \<Rightarrow> transition \<Rightarrow> bool" where
  "overlooked t u \<longleftrightarrow> overlooked_by t u \<or> overlooked_by u t"

lemma overlooked_waits:
  "overlooked_by (MCCondTransition th (CondWait (Some m)) x) (MCCondTransition th' (CondWait (Some m)) y)"
  "overlooked_by (MCCondTransition th (CondWait (Some m)) x) (MCCondTransition th' (CondEnqueue m) y)"
  "overlooked_by (MCCondTransition th (CondWait (Some m)) x) (MCMutexTransition th' MutexUnlock m)"
  by (simp_all add: overlooked_by_def MCMutex_eq_def)

lemma effects_commute:
  assumes "typed s" and "current s t" and "current s u"
    and dep: "\<not> dependentTransitions t u" and "\<not> overlooked t u"
    and "transitionEnabledInState t" and "transitionEnabledInState u"
    and "v \<in> set (effects (threadIdMap s) (objectStorage s) t)"
    and "w \<in> set (effects (threadIdMap s) (objectStorage s) u)"
  shows "os.commute_at (objectStorage s) v w"
proof (cases "fst v = fst w")
  case False
  then show ?thesis by (simp add: os.commute_at_def)
next
  case True
  then obtain k f g where v: "v = (k, f)" and w: "w = (k, g)" by (metis prod.collapse)
  note mem = assms(8) [unfolded v] assms(9) [unfolded w]
  have ov: "\<not> overlooked_by t u" "\<not> overlooked_by u t" using assms(5) by (simp_all add: overlooked_def)
  have sym: "\<not> dependentTransitions u t" using dep dependentTransitions_sym by simp
  have same: ?thesis if "f = g" using commute_same that by (simp add: v w)
  show ?thesis
    using assms(1-3) mem
  proof (cases rule: shared_writes)
    case (thread th op x th' op' y)
    have "op = ThreadCreate \<and> op' = ThreadCreate \<or> op = ThreadJoin \<and> op' = ThreadJoin"
      using independent_threads [of th op x th' op' y] dep ov thread by (auto simp: overlooked_by_def thread_target_def)
    then show ?thesis using mem thread same by (auto dest!: thread_writes)
  next
    case (mutex th op x th' op')
    then show ?thesis using independent_mutexes [of th op x th' op'] dep mem same
      by (auto dest!: mutex_unlock_write)
  next
    case (mutex_enqueue th op m th' y)
    then show ?thesis using independent_enqueue [of th op m th' y] dep mem same
      by (auto dest!: mutex_unlock_write)
  next
    case (enqueue_mutex th op m th' y)
    then show ?thesis using independent_enqueue [of th op m th' y] sym mem same
      by (auto dest!: mutex_unlock_write)
  next
    case enqueue
    then show ?thesis using same by simp
  next
    case (mutex_wait th op m th' y)
    then show ?thesis using independent_wait [of th op m th' y] dep ov overlooked_waits by auto
  next
    case (wait_mutex th op m th' y)
    then show ?thesis using independent_wait [of th op m th' y] sym ov overlooked_waits by auto
  next
    case (sem th op x th' op')
    have "f = on_sem (sem_effect (thread_tid th) op)" "g = on_sem (sem_effect (thread_tid th') op')"
      and k: "k = sem_id x"
      using mem sem by (auto dest!: sem_write)
    moreover have "getObjectWithId k (objectStorage s) = Inr (VSemaphore x)"
      using assms(2) sem(1) k by (simp add: current_def Let_def get_iff)
    ultimately show ?thesis
      using sem_exchange [of th op x th' op'] dep ov assms(6,7) sem
      by (simp add: v w os.commute_at_def on_sem_def)
  next
    case (rwlock th op x th' op')
    then show ?thesis
      using independent_rwlocks [of th op x th' op'] dep assms(6,7) one_reader_enabled(1) [of th x th']
        other_thread [OF dep] by (auto simp: getThreadId_def transition_thread_def)
  next
    case (rwwlock th op x th' op')
    then show ?thesis
      using independent_rwwlocks [of th op x th' op'] dep assms(6,7) one_reader_enabled(2) [of th x th']
        other_thread [OF dep] by (auto simp: getThreadId_def transition_thread_def)
  next
    case (global th op x th' op')
    then show ?thesis
      using independent_globals [of th op x th' op'] dep mem by (simp add: global_write)
  qed (use dep ov cond_dependent barrier_dependent overlooked_waits in auto)
qed


lemma effects_distinct:
  assumes "typed s" and "current s t"
  shows "distinct (map fst (effects (threadIdMap s) (objectStorage s) t))"
proof (cases t)
  case (MCCondTransition th op x)
  have wf: "store_wf (objectStorage s)" using assms(1) by (simp add: typed_def)
  have x: "getCond (cond_id x) (objectStorage s) = Inr x"
    using assms(2) MCCondTransition by (simp add: current_def Let_def)
  have no_mutex: "class_at (objectStorage s) (cond_id x) \<noteq> Some MutexObject"
    using get_class(3) [OF wf x] by simp
  have "cond_mutex x \<noteq> Some (cond_id x)"
    using pointers_read [OF wf x [unfolded get_iff]] no_mutex by (auto simp: pointers_ok_def)
  moreover have "mutex_id m \<noteq> cond_id x" if "op = CondEnqueue m" for m
    using assms(2) MCCondTransition that get_class(1) [OF wf, of "mutex_id m" m] no_mutex
    by (auto simp: current_def Let_def)
  ultimately show ?thesis
    using MCCondTransition x by (cases op) (auto simp: effects_def Let_def split: option.split)
qed (auto simp: effects_def Let_def split: thread_op.split barrier_op.split global_op.split)

section \<open>Independent transitions commute\<close>

text \<open>The pending transition of a thread, run on the objects.\<close>

definition run_pending :: "tid \<Rightarrow> mcstack \<Rightarrow> mcstack result" where
  "run_pending q s = bindR (getNextTransitionForThread s q) (\<lambda>t. virtuallyApplyTransition t s)"

lemma run_pending_effects:
  assumes "well_typed s" and "getNextTransitionForThread s q = Inr t"
  shows "run_pending q s = bindR (os.updates (effects (threadIdMap s) (objectStorage s) t) (objectStorage s))
    (\<lambda>st. Inr (s\<lparr>objectStorage := st\<rparr>))"
  using apply_effects [OF _ pending_current [OF assms]] assms
  by (simp add: run_pending_def well_typed_def)

lemma run_pending_typed:
  assumes "well_typed s" and "run_pending q s = Inr s'"
  shows "well_typed s' \<and> s' = s\<lparr>objectStorage := objectStorage s'\<rparr>"
proof -
  obtain t d where "applyToState (methods_of d) (objectStorage s) = Inr (objectStorage s')"
      and s': "s' = s\<lparr>objectStorage := objectStorage s'\<rparr>"
    using assms(2) by (auto simp: run_pending_def virtuallyApplyTransition_def result_simps)
  then show ?thesis
    using store_step(2) [OF apply_evolves, of d s s'] assms(1) by (metis (no_types, lifting) mcstack.ext_inject mcstack.surjective mcstack.update_convs(1))
qed

lemma effects_after:
  assumes "well_typed s" and "getNextTransitionForThread s q = Inr u" and "q < nextThreadId s"
    and "s' = s\<lparr>objectStorage := st'\<rparr>" and "well_typed s'"
    and "\<And>th mo x. u = MCCondTransition th (CondWait mo) x \<Longrightarrow> getCond (cond_id x) st' = getCond (cond_id x) (objectStorage s)"
  obtains u' where "getNextTransitionForThread s' q = Inr u'"
    and "effects (threadIdMap s') st' u' = effects (threadIdMap s) (objectStorage s) u"
proof -
  obtain p where p: "nextTransitions s q = Some p" and u: "refresh (getThreadWithId s) (objectStorage s) p = Inr u"
    using assms(2) by (auto simp: getNextTransitionForThread_def result_simps split: option.splits)
  obtain u' where u': "getNextTransitionForThread s' q = Inr u'"
    using pending_readable [OF assms(5)] assms(3,4) by auto
  then have r: "refresh (getThreadWithId s') (objectStorage s') p = Inr u'"
    using p assms(4) by (auto simp: getNextTransitionForThread_def result_simps)
  have ty: "typed s" "typed s'" using assms(1,5) by (simp_all add: well_typed_def)
  have "effects (threadIdMap s) st' u = effects (threadIdMap s) (objectStorage s) u"
    using assms(6) by (cases u) (auto simp: effects_def Let_def split: cond_op.split)
  then have "effects (threadIdMap s') st' u' = effects (threadIdMap s) (objectStorage s) u"
    using refresh_effects [OF ty(2) r] refresh_effects [OF ty(1) u] assms(4) by simp
  with u' show thesis by (rule that)
qed

lemma untouched_cond:
  assumes "typed s" and "current s t" and "current s u" and "\<not> dependentTransitions t u"
    and "os.updates (effects (threadIdMap s) (objectStorage s) t) (objectStorage s) = Inr st'"
    and "u = MCCondTransition th op x"
  shows "getCond (cond_id x) st' = getCond (cond_id x) (objectStorage s)"
proof -
  have "cond_id x \<notin> fst ` set (effects (threadIdMap s) (objectStorage s) t)"
  proof
    assume "cond_id x \<in> fst ` set (effects (threadIdMap s) (objectStorage s) t)"
    then obtain f where f: "(cond_id x, f) \<in> set (effects (threadIdMap s) (objectStorage s) t)" by force
    have x: "getCond (cond_id x) (objectStorage s) = Inr x"
      using assms(3,6) by (simp add: current_def Let_def)
    from get_class(3) [OF _ x] assms(1) have cl: "class_at (objectStorage s) (cond_id x) = Some CondObject"
      by (simp add: typed_def)
    from assms(1,2) f show False
      by (cases rule: effects_cases) (use cl x assms(4,6) cond_dependent in auto)
  qed
  then show ?thesis using os.updates_get_other [OF assms(5)] by (simp add: getCond_def)
qed

lemma independent_runs_commute:
  assumes "well_typed s" and "p < nextThreadId s" and "q < nextThreadId s"
    and "getNextTransitionForThread s p = Inr t" and "getNextTransitionForThread s q = Inr u"
    and "transitionEnabledInState t" and "transitionEnabledInState u"
    and "\<not> dependentTransitions t u" and "\<not> overlooked t u"
    and "run_pending p s = Inr s1" and "run_pending q s1 = Inr s2"
  shows "\<exists>s1'. run_pending q s = Inr s1' \<and> run_pending p s1' = Inr s2"
proof -
  have ty: "typed s" using assms(1) by (simp add: well_typed_def)
  note cur = pending_current [OF assms(1,4)] pending_current [OF assms(1,5)]
  let ?ids = "threadIdMap s" and ?st = "objectStorage s"
  obtain st1 where s1: "os.updates (effects ?ids ?st t) ?st = Inr st1" "s1 = s\<lparr>objectStorage := st1\<rparr>"
    using assms(10) run_pending_effects [OF assms(1,4)] by (auto simp: result_simps)
  have wt1: "well_typed s1" using run_pending_typed [OF assms(1,10)] by blast
  obtain u' where u': "getNextTransitionForThread s1 q = Inr u'" "effects (threadIdMap s1) st1 u' = effects ?ids ?st u"
    by (rule effects_after [OF assms(1,5,3) s1(2) wt1]) (use untouched_cond [OF ty cur assms(8) s1(1)] in auto)
  have "bindR (os.updates (effects ?ids ?st u) st1) (\<lambda>st. Inr (s\<lparr>objectStorage := st\<rparr>)) = Inr s2"
    using assms(11) run_pending_effects [OF wt1 u'(1)] u'(2) s1(2) by simp
  then obtain st2 where s2: "os.updates (effects ?ids ?st u) st1 = Inr st2" "s2 = s\<lparr>objectStorage := st2\<rparr>"
    by (auto simp: bindR_eq_Inr)
  obtain st1' where swap: "os.updates (effects ?ids ?st u) ?st = Inr st1'" "os.updates (effects ?ids ?st t) st1' = Inr st2"
    using os.updates_exchange [OF s1(1) s2(1) effects_distinct [OF ty cur(1)] effects_distinct [OF ty cur(2)]]
      effects_commute [OF ty cur assms(8,9,6,7)] by blast
  let ?s1 = "s\<lparr>objectStorage := st1'\<rparr>"
  have q: "run_pending q s = Inr ?s1" using run_pending_effects [OF assms(1,5)] swap(1) by simp
  have wt1': "well_typed ?s1" using run_pending_typed [OF assms(1) q] by blast
  have sym: "\<not> dependentTransitions u t" using assms(8) dependentTransitions_sym by simp
  obtain t' where t': "getNextTransitionForThread ?s1 p = Inr t'" "effects (threadIdMap ?s1) st1' t' = effects ?ids ?st t"
    by (rule effects_after [OF assms(1,4,2) refl wt1']) (use untouched_cond [OF ty cur(2,1) sym swap(1)] in auto)
  have "run_pending p ?s1 = Inr s2"
    using run_pending_effects [OF wt1' t'(1)] t'(2) swap(2) s2(2) by simp
  with q show ?thesis by blast
qed

section \<open>Two waits that take the same mutex\<close>

text \<open>
  Waiting for two condition variables with the same mutex: the test declares the two transitions
  independent and co-enabled, but each disables the other.
\<close>

lemma waits_declared_independent:
  assumes "thread_tid th \<noteq> thread_tid th'" and "cond_sys x \<noteq> cond_sys y"
  shows "\<not> dependentTransitions (MCCondTransition th (CondWait mo) x) (MCCondTransition th' (CondWait mo') y)"
    and "coenabledTransitions (MCCondTransition th (CondWait mo) x) (MCCondTransition th' (CondWait mo') y)"
  using assms
  by (auto simp: dependentTransitions_def coenabledTransitions_def methods_of_def class_methods
      transitionsDependentCommon_def transitionsCoenabledCommon_def doesCreateThread_def joinsOnThread_def
      getThreadId_def transition_thread_def MCConditionVariable_eq_def)

lemma wait_takes_mutex:
  assumes "well_typed s" and "getNextTransitionForThread s p = Inr (MCCondTransition th (CondWait (Some m)) x)"
    and "run_pending p s = Inr s1"
  shows "getMutex (mutex_id m) (objectStorage s1) = Inr (MCMutex_lock (thread_tid th) m)"
    and "i \<noteq> cond_id x \<Longrightarrow> i \<noteq> mutex_id m \<Longrightarrow> getObjectWithId i (objectStorage s1) = getObjectWithId i (objectStorage s)"
proof -
  let ?t = "MCCondTransition th (CondWait (Some m)) x" and ?st = "objectStorage s"
  have cur: "current s ?t" by (rule pending_current [OF assms(1,2)])
  have wf: "store_wf ?st" using assms(1) by (simp add: well_typed_def typed_def)
  have x: "getCond (cond_id x) ?st = Inr x" and mo: "cond_mutex_in x ?st = Inr (Some m)"
    using cur by (simp_all add: current_def Let_def)
  have cm: "cond_mutex x = Some (mutex_id m)" and m: "getMutex (mutex_id m) ?st = Inr m"
    using mo get_class(1) [OF wf] by (auto simp: cond_mutex_in_def result_simps split: option.splits)
  have ne: "mutex_id m \<noteq> cond_id x" using get_class(1) [OF wf m] get_class(3) [OF wf x] by auto
  have "effects (threadIdMap s) ?st ?t =
      [(mutex_id m, on_mutex (MCMutex_lock (thread_tid th))), (cond_id x, on_cond (leave_cond (thread_tid th)))]"
    using x cm by (simp add: effects_def Let_def getThreadId_def transition_thread_def)
  then have "bindR (bindR (modify_object (mutex_id m) (on_mutex (MCMutex_lock (thread_tid th))) ?st)
      (modify_object (cond_id x) (on_cond (leave_cond (thread_tid th))))) (\<lambda>st. Inr (s\<lparr>objectStorage := st\<rparr>)) = Inr s1"
    using run_pending_effects [OF assms(1,2)] assms(3) by simp
  then obtain st1 where st1: "modify_object (mutex_id m) (on_mutex (MCMutex_lock (thread_tid th))) ?st = Inr st1"
      "modify_object (cond_id x) (on_cond (leave_cond (thread_tid th))) st1 = Inr (objectStorage s1)"
    by (auto simp: bindR_eq_Inr)
  show "getMutex (mutex_id m) (objectStorage s1) = Inr (MCMutex_lock (thread_tid th) m)"
    using getObjectWithId_modify [OF st1(2)] getObjectWithId_modify [OF st1(1)] ne m
    by (simp add: get_iff on_mutex_def)
  show "getObjectWithId i (objectStorage s1) = getObjectWithId i (objectStorage s)"
    if "i \<noteq> cond_id x" "i \<noteq> mutex_id m"
    using getObjectWithId_modify [OF st1(2)] getObjectWithId_modify [OF st1(1)] that by simp
qed

lemma wait_disables_wait:
  assumes "well_typed s" and "q < nextThreadId s"
    and "getNextTransitionForThread s p = Inr (MCCondTransition th (CondWait (Some m)) x)"
    and "getNextTransitionForThread s q = Inr (MCCondTransition th' (CondWait (Some m)) y)"
    and "cond_sys x \<noteq> cond_sys y" and "run_pending p s = Inr s1"
    and "getNextTransitionForThread s1 q = Inr u"
  shows "\<not> transitionEnabledInState u"
proof -
  let ?u = "MCCondTransition th' (CondWait (Some m)) y"
  note cur = pending_current [OF assms(1,3)] pending_current [OF assms(1,4)]
  have ty: "typed s" and wf: "store_wf (objectStorage s)" using assms(1) by (simp_all add: well_typed_def typed_def)
  have x: "getCond (cond_id x) (objectStorage s) = Inr x" and y: "getCond (cond_id y) (objectStorage s) = Inr y"
    and mo: "cond_mutex_in y (objectStorage s) = Inr (Some m)"
    using cur by (simp_all add: current_def Let_def)
  have cm: "cond_mutex y = Some (mutex_id m)" and m: "getMutex (mutex_id m) (objectStorage s) = Inr m"
    using mo get_class(1) [OF wf] by (auto simp: cond_mutex_in_def result_simps split: option.splits)
  have "cond_id y \<noteq> cond_id x" using x y assms(5) by auto
  moreover have "cond_id y \<noteq> mutex_id m" using get_class(1) [OF wf m] get_class(3) [OF wf y] by auto
  ultimately have y1: "getCond (cond_id y) (objectStorage s1) = Inr y"
    using wait_takes_mutex(2) [OF assms(1,3,6)] y by (simp add: getCond_def)
  have wt1: "well_typed s1" and s1: "s1 = s\<lparr>objectStorage := objectStorage s1\<rparr>"
    using run_pending_typed [OF assms(1,6)] by blast+
  obtain r where r: "nextTransitions s q = Some r" "refresh (getThreadWithId s) (objectStorage s) r = Inr ?u"
    using assms(4) by (auto simp: getNextTransitionForThread_def result_simps split: option.splits)
  then obtain th0 mo0 y0 where r0: "r = MCCondTransition th0 (CondWait mo0) y0"
    by (cases r) (auto simp: refresh_def methods_of_def class_methods result_simps mutex_dispatch_def
        split: thread_op.splits mutex_op.splits sem_op.splits cond_op.splits barrier_op.splits rwlock_op.splits
          rwwlock_op.splits global_op.splits)
  have id0: "cond_id y0 = cond_id y"
    using r(2) get_class(3) [OF wf] by (auto simp: r0 refresh_def methods_of_def class_methods result_simps)
  have "nextTransitions s1 q = Some r" using r(1) s1 by (metis mcstack.simps(4) mcstack.surjective mcstack.update_convs(1))
  then have "refresh (getThreadWithId s1) (objectStorage s1) r = Inr u"
    using assms(7) by (auto simp: getNextTransitionForThread_def result_simps)
  then obtain th1 mo1 where u: "u = MCCondTransition th1 (CondWait mo1) y"
    and "cond_mutex_in y (objectStorage s1) = Inr mo1"
    using y1 by (auto simp: r0 id0 refresh_def methods_of_def class_methods result_simps)
  then have "mo1 = Some (MCMutex_lock (thread_tid th) m)"
    using cm wait_takes_mutex(1) [OF assms(1,3,6)] by (auto simp: cond_mutex_in_def result_simps)
  then show ?thesis
    by (simp add: u transitionEnabledInState_def methods_of_def class_methods mutex_lock_excludes)
qed

end
