(* ===== verification/Demo.thy ===== *)
theory Demo
  imports Exploration "HOL-Library.Code_Target_Nat"
begin

text \<open>
  Small target programs the theorems are instantiated on: scripts of visible operations, one list
  per thread.
\<close>

definition script :: "(tid \<Rightarrow> visible_operation list) \<Rightarrow> tid list \<Rightarrow> visible_operation" where
  "script ops sched =
     (let t = last sched; k = count_list sched t in
      if k \<le> length (ops t) then ops t ! (k - 1) else OpThreadFinish)"

definition script_program :: "(tid \<Rightarrow> visible_operation list) \<Rightarrow> target_program" where
  "script_program ops =
     \<lparr>stops_at = script ops, static_initializers = (\<lambda>_ _. True), main_pthread = 100,
      set_order = sorted_list_of_set\<rparr>"

definition default_options :: search_options where
  "default_options =
     \<lparr>exploreRoundRobin = False, continueAfterDataRace = False, firstDeadlock = False,
      traceSeq = None, quiet = False, printBacktraceAtTraceNumber = 18446744073709551615\<rparr>"

definition round_robin_options :: search_options where
  "round_robin_options = default_options\<lparr>exploreRoundRobin := True, continueAfterDataRace := True\<rparr>"

definition default_config :: stack_configuration where
  "default_config = \<lparr>maxThreadExecutionDepth = 1500, maxTotalTransitionsDepthLimit = 1499\<rparr>"

lemma sorted_order: "iteration_order (set_order (script_program ops))"
  by (simp add: iteration_order_def script_program_def)

text \<open>Two threads that take the same mutex.\<close>

definition demo_program :: target_program where
  "demo_program = script_program (\<lambda>t.
     if t = 0 then [OpMutexInit 50, OpThreadCreate 0 0 101, OpMutexLock 50, OpMutexUnlock 50]
     else [OpMutexLock 50, OpMutexUnlock 50])"

text \<open>Two threads that race for a statically initialised mutex: one trace, then a second branch.\<close>

definition race_program :: target_program where
  "race_program = script_program (\<lambda>t.
     if t = 0 then [OpThreadCreate 0 0 101, OpMutexLock 50] else [OpMutexLock 50])"

text \<open>A thread that locks a mutex twice, and two threads that use a variable without a lock.\<close>

definition deadlock_program :: target_program where
  "deadlock_program = script_program (\<lambda>t. [OpMutexInit 50, OpMutexLock 50, OpMutexLock 50])"

definition variable_program :: target_program where
  "variable_program = script_program (\<lambda>t.
     if t = 0 then [OpThreadCreate 0 0 101, OpGlobalWrite 60 1] else [OpGlobalRead 60])"

text \<open>The search after a number of iterations.\<close>

fun iterations ::
  "target_program \<Rightarrow> search_options \<Rightarrow> nat \<Rightarrow> transition option \<times> search_state \<Rightarrow>
     (transition option \<times> search_state) search" where
  "iterations prog opts 0 r = Inr r"
| "iterations prog opts (Suc n) r =
     (case fst r of None \<Rightarrow> Inr r
      | Some t \<Rightarrow> bindR (searchIteration prog opts t (snd r)) (iterations prog opts n))"

definition search_after ::
  "target_program \<Rightarrow> search_options \<Rightarrow> stack_configuration \<Rightarrow> nat \<Rightarrow> (transition option \<times> search_state) search" where
  "search_after prog opts cfg n =
     bindR (initialSearch prog cfg) (\<lambda>st.
     bindR (prepareBranch FIRST_BRANCH st) (\<lambda>(p, st1).
     bindR (beginSearch opts p st1) (\<lambda>(t, st2).
       iterations prog opts n (Some t, st2))))"

lemma iterations_reachable:
  "iterations prog opts n r = Inr r' \<Longrightarrow> reachable prog opts cfg r \<Longrightarrow> reachable prog opts cfg r'"
proof (induction n arbitrary: r)
  case 0
  then show ?case by simp
next
  case (Suc n)
  obtain nxt st where r: "r = (nxt, st)" by force
  show ?case
  proof (cases nxt)
    case None
    then show ?thesis using Suc.prems r by simp
  next
    case (Some t)
    then obtain r1 where "searchIteration prog opts t st = Inr r1" "iterations prog opts n r1 = Inr r'"
      using Suc.prems(1) r by (auto simp: bindR_eq_Inr)
    then show ?thesis using Suc.IH Suc.prems(2) reachable.iterate r Some by blast
  qed
qed

lemma search_after_reachable:
  "search_after prog opts cfg n = Inr r \<Longrightarrow> reachable prog opts cfg r"
  unfolding search_after_def bindR_eq_Inr case_prod_beta
  by (elim exE conjE, rule iterations_reachable, assumption)
     (metis prod.collapse reachable.start)

definition reaches ::
  "search_options \<Rightarrow> target_program \<Rightarrow> nat \<Rightarrow> (transition option \<Rightarrow> search_state \<Rightarrow> bool) \<Rightarrow> bool" where
  "reaches opts prog n P = (case search_after prog opts default_config n of
     Inl e \<Rightarrow> False | Inr (nxt, st) \<Rightarrow> P nxt st)"

lemma reaches_mono:
  assumes "reaches opts prog n P"
    and "\<And>nxt st. reachable prog opts default_config (nxt, st) \<Longrightarrow> P nxt st \<Longrightarrow> Q nxt st"
  shows "reaches opts prog n Q"
  using assms search_after_reachable [of prog opts default_config n]
  unfolding reaches_def by (auto split: sum.splits prod.splits)

text \<open>A state the search reaches, and one more iteration from there.\<close>

definition iterates ::
  "search_options \<Rightarrow> target_program \<Rightarrow> nat \<Rightarrow>
     (transition \<Rightarrow> search_state \<Rightarrow> transition option \<Rightarrow> search_state \<Rightarrow> bool) \<Rightarrow> bool" where
  "iterates opts prog n P = reaches opts prog n (\<lambda>nxt st. case nxt of None \<Rightarrow> False
     | Some t \<Rightarrow> (case searchIteration prog opts t st of Inl e \<Rightarrow> False
         | Inr (nxt', st') \<Rightarrow> P t st nxt' st'))"

lemma iterates_mono:
  assumes "iterates opts prog n P"
    and "\<And>t st nxt' st'. reachable prog opts default_config (Some t, st) \<Longrightarrow>
      searchIteration prog opts t st = Inr (nxt', st') \<Longrightarrow> P t st nxt' st' \<Longrightarrow> Q t st nxt' st'"
  shows "iterates opts prog n Q"
  using assms unfolding iterates_def
  by (elim reaches_mono) (auto split: option.splits sum.splits prod.splits)

text \<open>
  The sequencing operators are unfolded in code equations, so that a concrete run is evaluated one
  step after the other.
\<close>

declare bindR_def [code_unfold] guardR_def [code_unfold]

lemma demo_runs: "reaches default_options demo_program 4 (\<lambda>nxt st. length (transitionStack (programState st)) = 4)"
  by code_simp

lemma race_order [simp]: "iteration_order (set_order race_program)"
  by (simp add: race_program_def sorted_order)

text \<open>At the end of the first trace the other thread is scheduled at state 2; going there replays
  two transitions.\<close>

lemma race_runs: "reaches default_options race_program 4 (\<lambda>nxt st. nxt = None \<and>
    length (transitionStack (programState st)) = 4
    \<and> backtrackSet (stateStack (programState st) ! 2) = {1}
    \<and> getDeepestDPORBranchPoint (programState st) = 2
    \<and> (case prepareBranch 2 st of Inl e \<Rightarrow> False | Inr (t, st') \<Rightarrow> t = 1)
    \<and> (case reflectStateAtTransitionIndex 1 (programState st) of Inl e \<Rightarrow> False
       | Inr s' \<Rightarrow> length (transitionStack s') = 2))"
  by code_simp

lemma race_limit: "reaches default_options race_program 4 (\<lambda>nxt st. \<not> depthLimitReached (programState st))"
  by code_simp

lemma race_branch: "reaches default_options race_program 4 (\<lambda>nxt st. nxt = None \<and>
    (case finishBranch default_options st of Inl e \<Rightarrow> False | Inr (b, st') \<Rightarrow> b = 2 \<and>
      (case prepareBranch b st' of Inl e \<Rightarrow> False | Inr (p, st'') \<Rightarrow> p = 1)))"
  by code_simp

lemma race_items: "reaches default_options race_program 4 (\<lambda>nxt st.
    nxt = None \<and> length (stateStack (programState st)) = 5)"
  by code_simp

lemma race_next_branch: "reaches default_options race_program 4 (\<lambda>nxt st. nxt = None \<and>
    (\<exists>st1 st'. finishBranch default_options st = Inr (2, st1) \<and> prepareBranch 2 st1 = Inr (1, st')))"
  using race_branch
proof (rule reaches_mono)
  fix nxt st
  assume run: "nxt = None \<and> (case finishBranch default_options st of Inl e \<Rightarrow> False | Inr (b, st') \<Rightarrow> b = 2 \<and>
      (case prepareBranch b st' of Inl e \<Rightarrow> False | Inr (p, st'') \<Rightarrow> p = 1))"
  then obtain b st1 where f: "finishBranch default_options st = Inr (b, st1)"
    by (cases "finishBranch default_options st") auto
  then obtain p st' where "prepareBranch b st1 = Inr (p, st')"
    using run by (cases "prepareBranch b st1") auto
  then show "nxt = None \<and>
      (\<exists>st1 st'. finishBranch default_options st = Inr (2, st1) \<and> prepareBranch 2 st1 = Inr (1, st'))"
    using run f by auto
qed

lemma race_reflects: "reaches default_options race_program 4 (\<lambda>nxt st. \<exists>s'.
    reflectStateAtTransitionIndex 1 (programState st) = Inr s')"
  using race_runs by (rule reaches_mono) (auto split: sum.splits)

text \<open>The last iteration of the first trace starts the other thread, whose lock then races with the
  transition at 2.\<close>

lemma race_last: "iterates default_options race_program 3 (\<lambda>t st nxt st'.
    length (transitionStack (programState st)) = 3
    \<and> (case getNextTransitionForThread (programState st') (getThreadId t) of Inl e \<Rightarrow> False
       | Inr u \<Rightarrow> shouldProcess (programState st') u 2 (getThreadId t)))"
  by code_simp

text \<open>The whole search: two traces.\<close>

lemma race_search:
  "case mc_do_model_checking race_program default_options default_config of
     Some (Inr st) \<Rightarrow> traceId st = 2 \<and> stateStack (programState st) \<noteq> [] | _ \<Rightarrow> False"
  by code_simp

text \<open>With the round-robin search the other thread's next transition races with the last one.\<close>

lemma robin_runs: "iterates round_robin_options race_program 3 (\<lambda>t st nxt st'.
    getThreadId t = 0 \<and> length (transitionStack (programState st)) = 3
    \<and> getNumProgramThreads (programState st') = 2
    \<and> (case getNextTransitionForThread (programState st') 1 of Inl e \<Rightarrow> False
       | Inr u \<Rightarrow> shouldProcess (programState st') u 3 1))"
  by code_simp

lemma deadlock_order [simp]: "iteration_order (set_order deadlock_program)"
  by (simp add: deadlock_program_def sorted_order)

lemma variable_order [simp]: "iteration_order (set_order variable_program)"
  by (simp add: variable_program_def sorted_order)

lemma deadlock_runs: "iterates default_options deadlock_program 2 (\<lambda>t st nxt st'.
    results st = [] \<and> nxt = None \<and> isInDeadlock (programState st') = Inr True)"
  by code_simp

lemma variable_runs: "iterates round_robin_options variable_program 2 (\<lambda>t st nxt st'.
    results st = [] \<and> results st' = [(DataRaceDetected, 0)])"
  by code_simp

end
