(* ===== verification/MissedRaces.thy ===== *)
theory MissedRaces
  imports Independence Demo
begin

text \<open>
  Concrete programs for the theorems about dependence: a state with two independent transitions,
  two threads that wait with the same mutex, and a program with a deadlock the search does not find
  because it takes the two waits for independent.
\<close>

lemma race_commutes: "reaches default_options race_program 2 (\<lambda>nxt st.
    getNumProgramThreads (programState st) = 2 \<and>
    (case getNextTransitionForThread (programState st) 0 of Inl e \<Rightarrow> False
     | Inr t \<Rightarrow> transitionEnabledInState t \<and>
    (case getNextTransitionForThread (programState st) 1 of Inl e \<Rightarrow> False
     | Inr u \<Rightarrow> transitionEnabledInState u \<and> \<not> dependentTransitions t u \<and> \<not> overlooked t u \<and>
    (case run_pending 0 (programState st) of Inl e \<Rightarrow> False
     | Inr s1 \<Rightarrow> (case run_pending 1 s1 of Inl e \<Rightarrow> False | Inr s2 \<Rightarrow> True)))))"
  by code_simp

text \<open>
  Thread 0 waits for 60 and then gives the mutex 50 back; thread 1 waits for 61 and keeps it;
  thread 2 signals both.  Each thread is created while its creator holds the mutex, so that both
  wait before they are signalled.
\<close>

definition waits_program :: target_program where
  "waits_program = script_program (\<lambda>t.
     if t = 0 then [OpMutexLock 50, OpThreadCreate 0 0 101, OpCondEnqueue 60 50, OpCondWait 60 50,
       OpMutexUnlock 50]
     else if t = 1 then [OpMutexLock 50, OpThreadCreate 0 0 102, OpCondEnqueue 61 50, OpCondWait 61 50]
     else [OpCondSignal 60, OpCondSignal 61])"

lemma waits_order [simp]: "iteration_order (set_order waits_program)"
  by (simp add: waits_program_def sorted_order)

text \<open>Two waits for different condition variables with the same mutex.\<close>

definition waits_on :: "transition \<Rightarrow> (mcmutex \<times> mccond) option" where
  "waits_on t = (case t of MCCondTransition th (CondWait (Some m)) x \<Rightarrow> Some (m, x) | _ \<Rightarrow> None)"

lemma waits_on_iff: "waits_on t = Some (m, x) \<longleftrightarrow> (\<exists>th. t = MCCondTransition th (CondWait (Some m)) x)"
  by (auto simp: waits_on_def split: transition.splits cond_op.splits option.splits)

definition share_mutex :: "transition \<Rightarrow> transition \<Rightarrow> bool" where
  "share_mutex t u \<longleftrightarrow> (case waits_on t of None \<Rightarrow> False | Some (m, x) \<Rightarrow>
     (case waits_on u of None \<Rightarrow> False | Some (n, y) \<Rightarrow> m = n \<and> cond_sys x \<noteq> cond_sys y))"

lemma share_mutex_cases:
  assumes "share_mutex t u"
  obtains th m x th' y where "t = MCCondTransition th (CondWait (Some m)) x"
    and "u = MCCondTransition th' (CondWait (Some m)) y" and "cond_sys x \<noteq> cond_sys y"
  using assms by (auto simp: share_mutex_def waits_on_iff split: option.splits prod.splits)

text \<open>The schedule on which thread 1 takes the mutex first.\<close>

definition waits_schedule :: search_options where
  "waits_schedule = default_options\<lparr>traceSeq := Some [0, 0, 0, 0, 1, 1, 1, 1, 2, 2, 2, 1]\<rparr>"

lemma waits_run: "reaches waits_schedule waits_program 11 (\<lambda>nxt st.
    getNumProgramThreads (programState st) = 3 \<and>
    (case getNextTransitionForThread (programState st) 0 of Inl e \<Rightarrow> False
     | Inr t \<Rightarrow> transitionEnabledInState t \<and>
    (case getNextTransitionForThread (programState st) 1 of Inl e \<Rightarrow> False
     | Inr u \<Rightarrow> share_mutex t u \<and> transitionEnabledInState u \<and>
    (case run_pending 0 (programState st) of Inl e \<Rightarrow> False | Inr s1 \<Rightarrow> True))))"
  by code_simp

lemma waits_search:
  "case mc_do_model_checking waits_program default_options default_config of
     Some (Inr st) \<Rightarrow> results st = [] | _ \<Rightarrow> False"
  by code_simp

lemma waits_scheduled:
  "case mc_do_model_checking waits_program waits_schedule default_config of
     Some (Inl (Completed st)) \<Rightarrow> results st = [(DeadlockDetected, 0)] | _ \<Rightarrow> False"
  by code_simp

end
