(* ===== verification/Wrappers.thy ===== *)
theory Wrappers
  imports ReadHandlers
begin

text \<open>
  The functions McMini puts in place of the thread library inside the target program
  (\<^verbatim>\<open>src/transitions/wrappers\<close>, \<^verbatim>\<open>src/transitions/MCTransitionsShared.cpp\<close>).  A wrapper writes the
  operation to shared memory, hands the turn to the scheduler, waits until the scheduler runs the
  thread again, and then calls the real function.  Every wrapper is a list of instructions, the code a
  thread has still to run; \<open>Handshake\<close> executes them.

  \<open>real_call\<close> are the calls of the thread library itself (\<^verbatim>\<open>__real_...\<close>); what they do in the memory
  of the target is a parameter there.
\<close>

datatype real_call =
    RealJoin sysid
  | RealMutexInit sysid
  | RealMutexLock sysid
  | RealMutexUnlock sysid
  | RealMutexTrylock sysid
  | RealSemInit sysid u32
  | RealSemPost sysid
  | RealSemWait sysid
  | RealBarrierInit sysid u32
  | RealCondInit sysid
  | RealRWLockInit sysid
  | RealRWLockRdlock sysid
  | RealRWLockWrlock sysid
  | RealRWLockUnlock sysid

text \<open>
  \<open>RegisterSelf\<close> is \<^verbatim>\<open>tid_self = programState->createNewThread()\<close>; \<open>PostCreated\<close> and \<open>AwaitCreated\<close> are
  the post and the wait on \<^verbatim>\<open>mc_pthread_create_binary_sem\<close>; \<open>PostOperation\<close> is
  \<^verbatim>\<open>thread_post_visible_operation_hit\<close>, \<open>PostNewThread\<close> the one of \<^verbatim>\<open>mc_pthread_create\<close>, which
  reads the handle the real call has returned; \<open>WakeScheduler\<close> and \<open>WaitForScheduler\<close> are the calls
  of \<^verbatim>\<open>src/mc_shared_sem.c\<close> for the pair of semaphores of the thread; \<open>UserCode\<close> is the routine of
  the target program, up to its return.
\<close>

datatype instr =
    RegisterSelf
  | PostCreated
  | AwaitCreated
  | PostOperation visible_operation
  | PostNewThread nat nat
  | WakeScheduler
  | WaitForScheduler
  | RealCreate nat nat
  | RealCall real_call
  | ReturnValue int
  | CheckAssert bool
  | UserCode
  | RealExit
  | RealAbort
  | EndProcess

section \<open>Taking turns with the scheduler\<close>

definition thread_await_scheduler :: "instr list" where
  "thread_await_scheduler = [WakeScheduler, WaitForScheduler]"

definition thread_await_scheduler_for_thread_start_transition :: "instr list" where
  "thread_await_scheduler_for_thread_start_transition = [WaitForScheduler]"

definition thread_awake_scheduler_for_thread_finish_transition :: "instr list" where
  "thread_awake_scheduler_for_thread_finish_transition = [WakeScheduler]"

text \<open>The two lines most wrappers begin with.\<close>

definition visible :: "visible_operation \<Rightarrow> instr list" where
  "visible op = PostOperation op # thread_await_scheduler"

section \<open>Threads, exit and abort\<close>

definition mc_thread_routine_wrapper :: "instr list" where
  "mc_thread_routine_wrapper =
     [RegisterSelf, PostCreated]
     @ thread_await_scheduler_for_thread_start_transition
     @ [UserCode]
     @ [PostOperation OpThreadFinish] @ thread_await_scheduler
     @ [PostOperation OpThreadFinish] @ thread_awake_scheduler_for_thread_finish_transition"

definition mc_pthread_create :: "nat \<Rightarrow> nat \<Rightarrow> instr list" where
  "mc_pthread_create arg routine =
     [RealCreate arg routine, AwaitCreated, PostNewThread arg routine] @ thread_await_scheduler"

definition mc_pthread_join :: "sysid \<Rightarrow> instr list" where
  "mc_pthread_join thread = visible (OpThreadJoin thread) @ [RealCall (RealJoin thread)]"

definition mc_exit_main_thread :: "instr list" where
  "mc_exit_main_thread = visible OpThreadFinish"

definition mc_transparent_exit :: "int \<Rightarrow> instr list" where
  "mc_transparent_exit status = visible (OpExit status) @ [RealExit]"

definition mc_transparent_abort :: "instr list" where
  "mc_transparent_abort = visible OpAbort @ [RealAbort]"

definition mc_report_progress :: "instr list" where
  "mc_report_progress = visible OpProgress"

section \<open>Mutexes\<close>

definition mc_pthread_mutex_init :: "sysid \<Rightarrow> instr list" where
  "mc_pthread_mutex_init mutex = visible (OpMutexInit mutex) @ [RealCall (RealMutexInit mutex)]"

definition mc_pthread_mutex_lock :: "sysid \<Rightarrow> instr list" where
  "mc_pthread_mutex_lock mutex = visible (OpMutexLock mutex) @ [RealCall (RealMutexLock mutex)]"

definition mc_pthread_mutex_unlock :: "sysid \<Rightarrow> instr list" where
  "mc_pthread_mutex_unlock mutex = visible (OpMutexUnlock mutex) @ [RealCall (RealMutexUnlock mutex)]"

definition mc_pthread_mutex_trylock :: "sysid \<Rightarrow> instr list" where
  "mc_pthread_mutex_trylock mutex = visible (OpMutexTrylock mutex) @ [RealCall (RealMutexTrylock mutex)]"

section \<open>Semaphores\<close>

definition mc_sem_init :: "sysid \<Rightarrow> int \<Rightarrow> u32 \<Rightarrow> instr list" where
  "mc_sem_init sem pshared count =
     [CheckAssert (pshared = 0)] @ visible (OpSemInit sem count) @ [RealCall (RealSemInit sem count)]"

definition mc_sem_post :: "sysid \<Rightarrow> instr list" where
  "mc_sem_post sem = visible (OpSemPost sem) @ [RealCall (RealSemPost sem)]"

definition mc_sem_wait :: "sysid \<Rightarrow> instr list" where
  "mc_sem_wait sem =
     visible (OpSemEnqueue sem) @ visible (OpSemWait sem) @ [RealCall (RealSemWait sem)]"

section \<open>Barriers\<close>

definition PTHREAD_BARRIER_SERIAL_THREAD :: int where
  "PTHREAD_BARRIER_SERIAL_THREAD = -1"

definition mc_pthread_barrier_init :: "sysid \<Rightarrow> u32 \<Rightarrow> instr list" where
  "mc_pthread_barrier_init barrier count =
     visible (OpBarrierInit barrier count) @ [RealCall (RealBarrierInit barrier count)]"

definition mc_pthread_barrier_wait :: "sysid \<Rightarrow> instr list" where
  "mc_pthread_barrier_wait barrier =
     visible (OpBarrierWait barrier) @ [ReturnValue PTHREAD_BARRIER_SERIAL_THREAD]"

section \<open>Condition variables\<close>

definition mc_pthread_cond_init :: "sysid \<Rightarrow> instr list" where
  "mc_pthread_cond_init cond = visible (OpCondInit cond) @ [RealCall (RealCondInit cond)]"

definition mc_pthread_cond_wait :: "sysid \<Rightarrow> sysid \<Rightarrow> instr list" where
  "mc_pthread_cond_wait cond mutex =
     visible (OpCondEnqueue cond mutex) @ [RealCall (RealMutexUnlock mutex)]
     @ visible (OpCondWait cond mutex) @ [RealCall (RealMutexLock mutex), ReturnValue 0]"

definition mc_pthread_cond_signal :: "sysid \<Rightarrow> instr list" where
  "mc_pthread_cond_signal cond = visible (OpCondSignal cond) @ [ReturnValue 0]"

definition mc_pthread_cond_broadcast :: "sysid \<Rightarrow> instr list" where
  "mc_pthread_cond_broadcast cond = visible (OpCondBroadcast cond) @ [ReturnValue 0]"

section \<open>Reader/writer locks\<close>

definition mc_pthread_rwlock_init :: "sysid \<Rightarrow> instr list" where
  "mc_pthread_rwlock_init rwlock = visible (OpRWLockInit rwlock) @ [RealCall (RealRWLockInit rwlock)]"

definition mc_pthread_rwlock_rdlock :: "sysid \<Rightarrow> instr list" where
  "mc_pthread_rwlock_rdlock rwlock =
     visible (OpRWLockReaderEnqueue rwlock) @ visible (OpRWLockReaderLock rwlock)
     @ [RealCall (RealRWLockRdlock rwlock)]"

definition mc_pthread_rwlock_wrlock :: "sysid \<Rightarrow> instr list" where
  "mc_pthread_rwlock_wrlock rwlock =
     visible (OpRWLockWriterEnqueue rwlock) @ visible (OpRWLockWriterLock rwlock)
     @ [RealCall (RealRWLockWrlock rwlock)]"

definition mc_pthread_rwlock_unlock :: "sysid \<Rightarrow> instr list" where
  "mc_pthread_rwlock_unlock rwlock =
     visible (OpRWLockUnlock rwlock) @ [RealCall (RealRWLockUnlock rwlock)]"

definition mc_pthread_rwlock_destroy :: "sysid \<Rightarrow> instr list" where
  "mc_pthread_rwlock_destroy rwlock = [ReturnValue 0]"

text \<open>Locks with two kinds of writers exist in the model of McMini only: there is no real call.\<close>

definition mc_pthread_rwwlock_init :: "sysid \<Rightarrow> instr list" where
  "mc_pthread_rwwlock_init rwwlock = visible (OpRWWLockInit rwwlock) @ [ReturnValue 0]"

definition mc_pthread_rwwlock_rdlock :: "sysid \<Rightarrow> instr list" where
  "mc_pthread_rwwlock_rdlock rwwlock =
     visible (OpRWWLockReaderEnqueue rwwlock) @ visible (OpRWWLockReaderLock rwwlock) @ [ReturnValue 0]"

definition mc_pthread_rwwlock_wr1lock :: "sysid \<Rightarrow> instr list" where
  "mc_pthread_rwwlock_wr1lock rwwlock =
     visible (OpRWWLockWriter1Enqueue rwwlock) @ visible (OpRWWLockWriter1Lock rwwlock) @ [ReturnValue 0]"

definition mc_pthread_rwwlock_wr2lock :: "sysid \<Rightarrow> instr list" where
  "mc_pthread_rwwlock_wr2lock rwwlock =
     visible (OpRWWLockWriter2Enqueue rwwlock) @ visible (OpRWWLockWriter2Lock rwwlock) @ [ReturnValue 0]"

definition mc_pthread_rwwlock_unlock :: "sysid \<Rightarrow> instr list" where
  "mc_pthread_rwwlock_unlock rwwlock = visible (OpRWWLockUnlock rwwlock) @ [ReturnValue 0]"

definition mc_pthread_rwwlock_destroy :: "sysid \<Rightarrow> instr list" where
  "mc_pthread_rwwlock_destroy rwwlock = [ReturnValue 0]"

section \<open>Global variables\<close>

definition mcmini_read :: "sysid \<Rightarrow> instr list" where
  "mcmini_read addr = visible (OpGlobalRead addr) @ [ReturnValue (int addr)]"

definition mcmini_write :: "sysid \<Rightarrow> u64 \<Rightarrow> instr list" where
  "mcmini_write addr val = visible (OpGlobalWrite addr val)"

section \<open>The functions of the thread library the target calls\<close>

text \<open>\<^verbatim>\<open>MCSharedLibraryWrappers.c\<close> defines the library's functions by the wrappers.\<close>

datatype intercepted =
    Call_pthread_create nat nat
  | Call_pthread_join sysid
  | Call_exit int
  | Call_abort
  | Call_report_progress
  | Call_mutex_init sysid
  | Call_mutex_lock sysid
  | Call_mutex_unlock sysid
  | Call_mutex_trylock sysid
  | Call_sem_init sysid int u32
  | Call_sem_post sysid
  | Call_sem_wait sysid
  | Call_barrier_init sysid u32
  | Call_barrier_wait sysid
  | Call_cond_init sysid
  | Call_cond_wait sysid sysid
  | Call_cond_signal sysid
  | Call_cond_broadcast sysid
  | Call_rwlock_init sysid
  | Call_rwlock_rdlock sysid
  | Call_rwlock_wrlock sysid
  | Call_rwlock_unlock sysid
  | Call_rwlock_destroy sysid
  | Call_rwwlock_init sysid
  | Call_rwwlock_rdlock sysid
  | Call_rwwlock_wr1lock sysid
  | Call_rwwlock_wr2lock sysid
  | Call_rwwlock_unlock sysid
  | Call_rwwlock_destroy sysid
  | Call_read sysid
  | Call_write sysid u64
  | Call_sleep

fun wrapper :: "intercepted \<Rightarrow> instr list" where
  "wrapper (Call_pthread_create arg routine) = mc_pthread_create arg routine"
| "wrapper (Call_pthread_join thread) = mc_pthread_join thread"
| "wrapper (Call_exit status) = mc_transparent_exit status"
| "wrapper Call_abort = mc_transparent_abort"
| "wrapper Call_report_progress = mc_report_progress"
| "wrapper (Call_mutex_init mutex) = mc_pthread_mutex_init mutex"
| "wrapper (Call_mutex_lock mutex) = mc_pthread_mutex_lock mutex"
| "wrapper (Call_mutex_unlock mutex) = mc_pthread_mutex_unlock mutex"
| "wrapper (Call_mutex_trylock mutex) = mc_pthread_mutex_trylock mutex"
| "wrapper (Call_sem_init sem pshared count) = mc_sem_init sem pshared count"
| "wrapper (Call_sem_post sem) = mc_sem_post sem"
| "wrapper (Call_sem_wait sem) = mc_sem_wait sem"
| "wrapper (Call_barrier_init barrier count) = mc_pthread_barrier_init barrier count"
| "wrapper (Call_barrier_wait barrier) = mc_pthread_barrier_wait barrier"
| "wrapper (Call_cond_init cond) = mc_pthread_cond_init cond"
| "wrapper (Call_cond_wait cond mutex) = mc_pthread_cond_wait cond mutex"
| "wrapper (Call_cond_signal cond) = mc_pthread_cond_signal cond"
| "wrapper (Call_cond_broadcast cond) = mc_pthread_cond_broadcast cond"
| "wrapper (Call_rwlock_init rwlock) = mc_pthread_rwlock_init rwlock"
| "wrapper (Call_rwlock_rdlock rwlock) = mc_pthread_rwlock_rdlock rwlock"
| "wrapper (Call_rwlock_wrlock rwlock) = mc_pthread_rwlock_wrlock rwlock"
| "wrapper (Call_rwlock_unlock rwlock) = mc_pthread_rwlock_unlock rwlock"
| "wrapper (Call_rwlock_destroy rwlock) = mc_pthread_rwlock_destroy rwlock"
| "wrapper (Call_rwwlock_init rwwlock) = mc_pthread_rwwlock_init rwwlock"
| "wrapper (Call_rwwlock_rdlock rwwlock) = mc_pthread_rwwlock_rdlock rwwlock"
| "wrapper (Call_rwwlock_wr1lock rwwlock) = mc_pthread_rwwlock_wr1lock rwwlock"
| "wrapper (Call_rwwlock_wr2lock rwwlock) = mc_pthread_rwwlock_wr2lock rwwlock"
| "wrapper (Call_rwwlock_unlock rwwlock) = mc_pthread_rwwlock_unlock rwwlock"
| "wrapper (Call_rwwlock_destroy rwwlock) = mc_pthread_rwwlock_destroy rwwlock"
| "wrapper (Call_read addr) = mcmini_read addr"
| "wrapper (Call_write addr val) = mcmini_write addr val"
| "wrapper Call_sleep = [ReturnValue 0]"

named_theorems wrapper_defs "the wrappers as lists of instructions"

declare thread_await_scheduler_def [wrapper_defs]
  thread_await_scheduler_for_thread_start_transition_def [wrapper_defs]
  thread_awake_scheduler_for_thread_finish_transition_def [wrapper_defs]
  visible_def [wrapper_defs]
  mc_thread_routine_wrapper_def [wrapper_defs]
  mc_exit_main_thread_def [wrapper_defs]
  mc_pthread_create_def [wrapper_defs] mc_pthread_join_def [wrapper_defs]
  mc_transparent_exit_def [wrapper_defs] mc_transparent_abort_def [wrapper_defs]
  mc_report_progress_def [wrapper_defs]
  mc_pthread_mutex_init_def [wrapper_defs] mc_pthread_mutex_lock_def [wrapper_defs]
  mc_pthread_mutex_unlock_def [wrapper_defs] mc_pthread_mutex_trylock_def [wrapper_defs]
  mc_sem_init_def [wrapper_defs] mc_sem_post_def [wrapper_defs] mc_sem_wait_def [wrapper_defs]
  mc_pthread_barrier_init_def [wrapper_defs] mc_pthread_barrier_wait_def [wrapper_defs]
  mc_pthread_cond_init_def [wrapper_defs] mc_pthread_cond_wait_def [wrapper_defs]
  mc_pthread_cond_signal_def [wrapper_defs] mc_pthread_cond_broadcast_def [wrapper_defs]
  mc_pthread_rwlock_init_def [wrapper_defs] mc_pthread_rwlock_rdlock_def [wrapper_defs]
  mc_pthread_rwlock_wrlock_def [wrapper_defs] mc_pthread_rwlock_unlock_def [wrapper_defs]
  mc_pthread_rwlock_destroy_def [wrapper_defs]
  mc_pthread_rwwlock_init_def [wrapper_defs] mc_pthread_rwwlock_rdlock_def [wrapper_defs]
  mc_pthread_rwwlock_wr1lock_def [wrapper_defs] mc_pthread_rwwlock_wr2lock_def [wrapper_defs]
  mc_pthread_rwwlock_unlock_def [wrapper_defs] mc_pthread_rwwlock_destroy_def [wrapper_defs]
  mcmini_read_def [wrapper_defs] mcmini_write_def [wrapper_defs]

section \<open>The discipline of the wrappers\<close>

text \<open>
  A thread is parked (it waits for the scheduler), runs, or has posted its next operation.  In
  disciplined code it posts before it wakes the scheduler, waits right after waking it (or ends), and
  awaits the thread it creates at once.
\<close>

datatype turn = Parked | Running | Posted

fun disciplined :: "turn \<Rightarrow> instr list \<Rightarrow> bool" where
  "disciplined Parked [] = True"
| "disciplined Parked (i # q) = (i = WaitForScheduler \<and> disciplined Running q)"
| "disciplined _ [] = False"
| "disciplined t (i # q) = (case i of
       PostOperation _ \<Rightarrow> disciplined Posted q
     | PostNewThread _ _ \<Rightarrow> disciplined Posted q
     | WakeScheduler \<Rightarrow> t = Posted \<and> disciplined Parked q
     | RealCreate _ _ \<Rightarrow>
         t = Running \<and> (case q of AwaitCreated # r \<Rightarrow> disciplined Running r | _ \<Rightarrow> False)
     | RealCall _ \<Rightarrow> t = Running \<and> disciplined t q
     | ReturnValue _ \<Rightarrow> t = Running \<and> disciplined t q
     | CheckAssert _ \<Rightarrow> t = Running \<and> disciplined t q
     | UserCode \<Rightarrow> t = Running \<and> disciplined t q
     | RealExit \<Rightarrow> t = Running
     | RealAbort \<Rightarrow> t = Running
     | EndProcess \<Rightarrow> t = Running
     | _ \<Rightarrow> False)"

lemma wrapper_disciplined: "disciplined Running q \<Longrightarrow> disciplined Running (wrapper c @ q)"
  by (cases c) (simp_all add: wrapper_defs)

lemma exit_disciplined: "disciplined Running (mc_exit_main_thread @ [EndProcess])"
  by (simp add: wrapper_defs)

lemma routine_disciplined:
  "mc_thread_routine_wrapper = RegisterSelf # PostCreated # q \<Longrightarrow> disciplined Parked q"
  by (auto simp: wrapper_defs)

end
