(* ===== verification/Handshake.thy ===== *)
theory Handshake
  imports Wrappers
begin

text \<open>
  The scheduler and the threads of the target taking turns: the pair of semaphores of every thread
  (\<^verbatim>\<open>src/mc_shared_sem.c\<close>), the mailbox in shared memory, the fork of a new target
  (\<^verbatim>\<open>mc_fork_new_trace\<close>, \<^verbatim>\<open>mc_reset_cv_locks\<close> in \<^verbatim>\<open>src/mcmini_private.cpp\<close>), the scheduler's
  \<^verbatim>\<open>mc_run_thread_to_next_visible_operation\<close> for a schedule it is given, and the wrappers of
  \<open>Wrappers\<close> in the target.  A state \<open>handshake\<close> holds both processes; \<open>handshake_step\<close> lets the
  scheduler or any thread make one step.

  A thread of the target is known by the number of threads started before it; the id McMini gives it
  (\<^verbatim>\<open>tid_self\<close>) is a field of the state.  The program under test is a parameter on a memory of any
  type: \<open>user_code k\<close> is the next bit of code of thread \<open>k\<close>, which computes, calls an intercepted
  function or returns from the routine; \<open>real_effect\<close> is a call of the thread library, \<open>None\<close> while it
  blocks; \<open>spawn\<close> the start of a thread, \<open>handle\<close> the handle given to it, \<open>create_fails\<close> says
  when the library refuses to start one; \<open>set_result\<close> stores the value a function returns.
\<close>

datatype user_action = Computes | Calls intercepted | Returns

record 'm user_program =
  user_code :: "nat \<Rightarrow> 'm \<Rightarrow> 'm \<times> user_action"
  real_effect :: "nat \<Rightarrow> real_call \<Rightarrow> 'm \<Rightarrow> 'm option"
  spawn :: "nat \<Rightarrow> nat \<Rightarrow> nat \<Rightarrow> 'm \<Rightarrow> 'm"
  handle :: "nat \<Rightarrow> sysid"
  create_fails :: "nat \<Rightarrow> 'm \<Rightarrow> bool"
  set_result :: "nat \<Rightarrow> int \<Rightarrow> 'm \<Rightarrow> 'm"
  initial_memory :: 'm

text \<open>The status of the target process as \<^verbatim>\<open>SIGCHLD\<close> reports it.\<close>

datatype process_status = Alive | Exited | Killed

text \<open>The mailbox: the kind and operands of the operation with the thread that posted it
  (\<^verbatim>\<open>MCSharedTransition\<close>; the executor is \<open>None\<close> for \<^verbatim>\<open>TID_INVALID\<close>).\<close>

type_synonym mailbox = "(tid option \<times> visible_operation) option"

record 'm handshake =
  memory :: 'm
  code :: "nat \<Rightarrow> instr list option"
  tid_self :: "nat \<Rightarrow> tid option"
  created_handle :: "nat \<Rightarrow> sysid"
  started :: nat
  targetNextThreadId :: nat
  process :: process_status
  mc_pthread_create_binary_sem :: nat
  pthread_sem :: "tid \<Rightarrow> nat"
  dpor_scheduler_sem :: "tid \<Rightarrow> nat"
  shm :: mailbox
  to_run :: "tid list"
  waiting_for :: "tid option"
  scheduler_stopped :: bool

section \<open>The pairs of semaphores\<close>

text \<open>A wait that would block is \<open>None\<close>, and so is an access past the 20 pairs of \<^verbatim>\<open>trace_sleep_list\<close>.\<close>

definition mc_shared_sem_init :: "tid \<Rightarrow> 'm handshake \<Rightarrow> 'm handshake" where
  "mc_shared_sem_init t s =
     s\<lparr>dpor_scheduler_sem := (dpor_scheduler_sem s)(t := 0), pthread_sem := (pthread_sem s)(t := 0)\<rparr>"

definition mc_shared_sem_wait_for_thread :: "tid \<Rightarrow> 'm handshake \<Rightarrow> 'm handshake option" where
  "mc_shared_sem_wait_for_thread t s =
     (if t < MAX_TOTAL_THREADS_IN_PROGRAM \<and> dpor_scheduler_sem s t > 0
      then Some (s\<lparr>dpor_scheduler_sem := (dpor_scheduler_sem s)(t := dpor_scheduler_sem s t - 1)\<rparr>)
      else None)"

definition mc_shared_sem_wait_for_scheduler :: "tid \<Rightarrow> 'm handshake \<Rightarrow> 'm handshake option" where
  "mc_shared_sem_wait_for_scheduler t s =
     (if t < MAX_TOTAL_THREADS_IN_PROGRAM \<and> pthread_sem s t > 0
      then Some (s\<lparr>pthread_sem := (pthread_sem s)(t := pthread_sem s t - 1)\<rparr>)
      else None)"

definition mc_shared_sem_wake_thread :: "tid \<Rightarrow> 'm handshake \<Rightarrow> 'm handshake option" where
  "mc_shared_sem_wake_thread t s =
     (if t < MAX_TOTAL_THREADS_IN_PROGRAM
      then Some (s\<lparr>pthread_sem := (pthread_sem s)(t := pthread_sem s t + 1)\<rparr>)
      else None)"

definition mc_shared_sem_wake_scheduler :: "tid \<Rightarrow> 'm handshake \<Rightarrow> 'm handshake option" where
  "mc_shared_sem_wake_scheduler t s =
     (if t < MAX_TOTAL_THREADS_IN_PROGRAM
      then Some (s\<lparr>dpor_scheduler_sem := (dpor_scheduler_sem s)(t := dpor_scheduler_sem s t + 1)\<rparr>)
      else None)"

definition mc_reset_cv_locks :: "'m handshake \<Rightarrow> 'm handshake" where
  "mc_reset_cv_locks s = fold mc_shared_sem_init [0..<MAX_TOTAL_THREADS_IN_PROGRAM] s"

section \<open>Starting a target\<close>

text \<open>
  The child of the fork: its only thread registers as the main thread and waits for the scheduler;
  when it is run it goes into \<^verbatim>\<open>main\<close>, whose return calls \<^verbatim>\<open>exit\<close> of the C library.  The scheduler has
  the schedule \<open>sched\<close> to run.
\<close>

definition main_thread_code :: "instr list" where
  "main_thread_code = thread_await_scheduler_for_thread_start_transition @ [UserCode, RealExit]"

definition fork_target :: "'m user_program \<Rightarrow> tid list \<Rightarrow> 'm handshake \<Rightarrow> 'm handshake" where
  "fork_target prog sched s =
     s\<lparr>memory := initial_memory prog,
       code := (\<lambda>_. None)(0 := Some main_thread_code),
       tid_self := (\<lambda>_. None)(0 := Some TID_MAIN_THREAD),
       created_handle := (\<lambda>_. 0),
       started := 1,
       targetNextThreadId := 1,
       process := Alive,
       mc_pthread_create_binary_sem := 0,
       to_run := sched,
       waiting_for := None,
       scheduler_stopped := False\<rparr>"

text \<open>\<^verbatim>\<open>mc_fork_next_trace_at_current_state\<close>: the semaphores are reset, whatever the last target left.\<close>

definition new_target :: "'m user_program \<Rightarrow> tid list \<Rightarrow> 'm handshake \<Rightarrow> 'm handshake" where
  "new_target prog sched s = fork_target prog sched (mc_reset_cv_locks s)"

section \<open>Steps\<close>

definition set_code :: "nat \<Rightarrow> instr list \<Rightarrow> 'm handshake \<Rightarrow> 'm handshake" where
  "set_code k q s = s\<lparr>code := (code s)(k := Some q)\<rparr>"

text \<open>A failed \<^verbatim>\<open>MC_ASSERT\<close> kills the target; without it the thread goes on with \<open>q\<close>.\<close>

definition with_tid :: "nat \<Rightarrow> (tid \<Rightarrow> 'm handshake \<Rightarrow> 'm handshake option) \<Rightarrow> 'm handshake \<Rightarrow> 'm handshake option" where
  "with_tid k f s = (case tid_self s k of None \<Rightarrow> Some (s\<lparr>process := Killed\<rparr>) | Some t \<Rightarrow> f t s)"

definition start_thread :: "'m user_program \<Rightarrow> nat \<Rightarrow> nat \<Rightarrow> nat \<Rightarrow> 'm handshake \<Rightarrow> 'm handshake" where
  "start_thread prog k arg routine s =
     (if create_fails prog k (memory s) then s
      else let n = started s in
        s\<lparr>memory := spawn prog n arg routine (memory s),
          code := (code s)(n := Some mc_thread_routine_wrapper),
          tid_self := (tid_self s)(n := None),
          created_handle := (created_handle s)(k := handle prog n),
          started := n + 1\<rparr>)"

text \<open>One instruction of thread \<open>k\<close>, with the instructions \<open>q\<close> that follow it.\<close>

fun run_instr :: "'m user_program \<Rightarrow> nat \<Rightarrow> instr \<Rightarrow> instr list \<Rightarrow> 'm handshake \<Rightarrow> 'm handshake option" where
  "run_instr prog k RegisterSelf q s =
     Some (set_code k q (s\<lparr>tid_self := (tid_self s)(k := Some (targetNextThreadId s)),
                           targetNextThreadId := targetNextThreadId s + 1\<rparr>))"
| "run_instr prog k PostCreated q s =
     Some (set_code k q (s\<lparr>mc_pthread_create_binary_sem := mc_pthread_create_binary_sem s + 1\<rparr>))"
| "run_instr prog k AwaitCreated q s =
     (if mc_pthread_create_binary_sem s > 0
      then Some (set_code k q (s\<lparr>mc_pthread_create_binary_sem := mc_pthread_create_binary_sem s - 1\<rparr>))
      else None)"
| "run_instr prog k (PostOperation op) q s = Some (set_code k q (s\<lparr>shm := Some (tid_self s k, op)\<rparr>))"
| "run_instr prog k (PostNewThread arg routine) q s =
     Some (set_code k q (s\<lparr>shm := Some (tid_self s k, OpThreadCreate arg routine (created_handle s k))\<rparr>))"
| "run_instr prog k WakeScheduler q s =
     map_option (set_code k q) (with_tid k mc_shared_sem_wake_scheduler s)"
| "run_instr prog k WaitForScheduler q s =
     map_option (set_code k q) (with_tid k mc_shared_sem_wait_for_scheduler s)"
| "run_instr prog k (RealCreate arg routine) q s = Some (set_code k q (start_thread prog k arg routine s))"
| "run_instr prog k (RealCall c) q s =
     (case real_effect prog k c (memory s) of
        None \<Rightarrow> None
      | Some m \<Rightarrow> Some (set_code k q (s\<lparr>memory := m\<rparr>)))"
| "run_instr prog k (ReturnValue v) q s =
     Some (set_code k q (s\<lparr>memory := set_result prog k v (memory s)\<rparr>))"
| "run_instr prog k (CheckAssert b) q s = Some (if b then set_code k q s else s\<lparr>process := Killed\<rparr>)"
| "run_instr prog k UserCode q s =
     (case user_code prog k (memory s) of (m, act) \<Rightarrow>
        Some (set_code k (case act of Computes \<Rightarrow> UserCode # q | Calls c \<Rightarrow> wrapper c @ UserCode # q
                          | Returns \<Rightarrow> q) (s\<lparr>memory := m\<rparr>)))"
| "run_instr prog k RealExit q s = Some (set_code k (mc_exit_main_thread @ [EndProcess]) s)"
| "run_instr prog k RealAbort q s = Some (s\<lparr>process := Killed\<rparr>)"
| "run_instr prog k EndProcess q s = Some (s\<lparr>process := Exited\<rparr>)"

definition thread_step :: "'m user_program \<Rightarrow> nat \<Rightarrow> 'm handshake \<Rightarrow> 'm handshake option" where
  "thread_step prog k s =
     (if process s = Alive
      then case code s k of Some (i # q) \<Rightarrow> run_instr prog k i q s | _ \<Rightarrow> None
      else None)"

text \<open>\<^verbatim>\<open>sigchld_handler_scheduler\<close>: McMini stops when the target was killed, and goes on when it
  exited.\<close>

definition sigchld_handler_scheduler :: "process_status \<Rightarrow> bool" where
  "sigchld_handler_scheduler status \<longleftrightarrow> status = Killed"

text \<open>\<^verbatim>\<open>mc_run_thread_to_next_visible_operation\<close> for the threads of the schedule: it wakes the thread,
  then it waits for it.\<close>

definition scheduler_step :: "'m handshake \<Rightarrow> 'm handshake option" where
  "scheduler_step s =
     (if scheduler_stopped s then None
      else if sigchld_handler_scheduler (process s) then Some (s\<lparr>scheduler_stopped := True\<rparr>)
      else case waiting_for s of
          None \<Rightarrow> (case to_run s of
              [] \<Rightarrow> None
            | t # ts \<Rightarrow> mc_shared_sem_wake_thread t (s\<lparr>to_run := ts, waiting_for := Some t\<rparr>))
        | Some t \<Rightarrow> mc_shared_sem_wait_for_thread t (s\<lparr>waiting_for := None\<rparr>))"

datatype agent = Scheduler | Thread nat

fun agent_step :: "'m user_program \<Rightarrow> agent \<Rightarrow> 'm handshake \<Rightarrow> 'm handshake option" where
  "agent_step prog Scheduler s = scheduler_step s"
| "agent_step prog (Thread k) s = thread_step prog k s"

inductive handshake_step :: "'m user_program \<Rightarrow> 'm handshake \<Rightarrow> 'm handshake \<Rightarrow> bool" for prog where
  scheduler_moves: "scheduler_step s = Some s' \<Longrightarrow> handshake_step prog s s'"
| thread_moves: "thread_step prog k s = Some s' \<Longrightarrow> handshake_step prog s s'"

inductive_cases handshake_stepE: "handshake_step prog s s'"

inductive handshake_run :: "'m user_program \<Rightarrow> 'm handshake \<Rightarrow> 'm handshake \<Rightarrow> bool" for prog s where
  run_refl: "handshake_run prog s s"
| run_step: "handshake_run prog s s' \<Longrightarrow> handshake_step prog s' s'' \<Longrightarrow> handshake_run prog s s''"

lemma handshake_step_agent: "handshake_step prog s s' \<longleftrightarrow> (\<exists>a. agent_step prog a s = Some s')"
proof
  assume "handshake_step prog s s'"
  then show "\<exists>a. agent_step prog a s = Some s'"
    by cases (auto intro: exI [of _ Scheduler] exI [of _ "Thread k" for k])
next
  assume "\<exists>a. agent_step prog a s = Some s'"
  then obtain a where "agent_step prog a s = Some s'" by blast
  then show "handshake_step prog s s'" by (cases a) (auto intro: handshake_step.intros)
qed

end
