(* ===== verification/TurnTaking.thy ===== *)
theory TurnTaking
  imports Handshake
begin

text \<open>
  Whose turn it is.  Every reachable state of the handshake is in one of the phases below, one
  invariant each, and in each phase a single agent can move: the handshake has no races although
  scheduler and threads run in parallel.  From this follow that the threads' ids are the numbers in which
  they were started, that no wakeup is lost, and that what a target has done is determined by the
  schedule it was given.
\<close>

datatype phase =
    Idle | Woken tid | Runs tid | Registers tid | Announces tid | Announced tid
  | CreateFailed tid | Done tid | Ended

definition semaphores :: "tid option \<Rightarrow> tid option \<Rightarrow> nat \<Rightarrow> 'm handshake \<Rightarrow> bool" where
  "semaphores woken finished n s \<longleftrightarrow>
     (\<forall>t < MAX_TOTAL_THREADS_IN_PROGRAM. pthread_sem s t = (if woken = Some t then 1 else 0)
        \<and> dpor_scheduler_sem s t = (if finished = Some t then 1 else 0))
     \<and> mc_pthread_create_binary_sem s = n"

text \<open>All threads but those of \<open>K\<close> wait for the scheduler or have ended, under their own id.\<close>

definition settled_but :: "nat set \<Rightarrow> 'm handshake \<Rightarrow> bool" where
  "settled_but K s \<longleftrightarrow>
     (\<forall>k < started s. k \<notin> K \<longrightarrow>
        tid_self s k = Some k \<and> (\<exists>p. code s k = Some p \<and> disciplined Parked p))
     \<and> (\<forall>k \<ge> started s. code s k = None)"

definition undisturbed :: "'m handshake \<Rightarrow> bool" where
  "undisturbed s \<longleftrightarrow> process s = Alive \<and> \<not> scheduler_stopped s \<and> 0 < started s"

definition serves :: "tid \<Rightarrow> 'm handshake \<Rightarrow> bool" where
  "serves t s \<longleftrightarrow> undisturbed s \<and> waiting_for s = Some t \<and> t < MAX_TOTAL_THREADS_IN_PROGRAM"

definition awaits_creation :: "tid \<Rightarrow> 'm handshake \<Rightarrow> bool" where
  "awaits_creation t s \<longleftrightarrow> t < started s \<and> tid_self s t = Some t
     \<and> (\<exists>q. code s t = Some (AwaitCreated # q) \<and> disciplined Running q)"

definition newborn :: "'m handshake \<Rightarrow> nat" where
  "newborn s = started s - 1"

definition posted_by :: "tid \<Rightarrow> 'm handshake \<Rightarrow> bool" where
  "posted_by t s \<longleftrightarrow> (\<exists>op. shm s = Some (Some t, op))"

definition all_registered :: "'m handshake \<Rightarrow> bool" where
  "all_registered s \<longleftrightarrow> targetNextThreadId s = started s"

fun in_phase :: "'m user_program \<Rightarrow> phase \<Rightarrow> 'm handshake \<Rightarrow> bool" where
  "in_phase prog Idle s \<longleftrightarrow> undisturbed s \<and> waiting_for s = None \<and> semaphores None None 0 s
     \<and> settled_but {} s \<and> all_registered s"
| "in_phase prog (Woken t) s \<longleftrightarrow> serves t s \<and> semaphores (Some t) None 0 s \<and> settled_but {} s \<and> all_registered s"
| "in_phase prog (Runs t) s \<longleftrightarrow> serves t s \<and> semaphores None None 0 s \<and> settled_but {t} s \<and> all_registered s
     \<and> t < started s \<and> tid_self s t = Some t
     \<and> (\<exists>p. code s t = Some p \<and> (disciplined Running p \<or> disciplined Posted p \<and> posted_by t s))"
| "in_phase prog (Registers t) s \<longleftrightarrow> serves t s \<and> semaphores None None 0 s \<and> settled_but {t, newborn s} s
     \<and> awaits_creation t s \<and> t \<noteq> newborn s \<and> targetNextThreadId s = newborn s
     \<and> code s (newborn s) = Some mc_thread_routine_wrapper"
| "in_phase prog (Announces t) s \<longleftrightarrow> serves t s \<and> semaphores None None 0 s \<and> settled_but {t, newborn s} s
     \<and> awaits_creation t s \<and> t \<noteq> newborn s \<and> all_registered s \<and> tid_self s (newborn s) = Some (newborn s)
     \<and> code s (newborn s) = Some (tl mc_thread_routine_wrapper)"
| "in_phase prog (Announced t) s \<longleftrightarrow> serves t s \<and> semaphores None None 1 s \<and> settled_but {t} s \<and> all_registered s
     \<and> awaits_creation t s"
| "in_phase prog (CreateFailed t) s \<longleftrightarrow> serves t s \<and> semaphores None None 0 s \<and> settled_but {t} s
     \<and> all_registered s \<and> awaits_creation t s \<and> create_fails prog t (memory s)"
| "in_phase prog (Done t) s \<longleftrightarrow> serves t s \<and> semaphores None (Some t) 0 s \<and> settled_but {} s \<and> all_registered s
     \<and> posted_by t s"
| "in_phase prog Ended s \<longleftrightarrow> process s \<noteq> Alive"

fun turn_of :: "phase \<Rightarrow> 'm handshake \<Rightarrow> agent" where
  "turn_of Idle s = Scheduler"
| "turn_of (Woken t) s = Thread t"
| "turn_of (Runs t) s = Thread t"
| "turn_of (Registers t) s = Thread (newborn s)"
| "turn_of (Announces t) s = Thread (newborn s)"
| "turn_of (Announced t) s = Thread t"
| "turn_of (CreateFailed t) s = Thread t"
| "turn_of (Done t) s = Scheduler"
| "turn_of Ended s = Scheduler"

section \<open>Who can move\<close>

lemma settled_thread_moves:
  assumes "thread_step prog k s = Some s'" and "settled_but K s" and "semaphores woken finished n s"
  shows "k \<in> K \<or> woken = Some k"
proof (cases "k < started s \<and> k \<notin> K")
  case True
  with assms(2) obtain p where "code s k = Some p" "disciplined Parked p" "tid_self s k = Some k"
    by (auto simp: settled_but_def)
  then show ?thesis
    using assms(1,3)
    by (cases p) (auto simp: thread_step_def with_tid_def mc_shared_sem_wait_for_scheduler_def semaphores_def
        split: if_splits)
next
  case False
  then show ?thesis using assms(1,2) by (auto simp: settled_but_def thread_step_def split: if_splits)
qed

lemma creator_moves:
  "thread_step prog t s = Some s' \<Longrightarrow> awaits_creation t s \<Longrightarrow> semaphores woken finished n s \<Longrightarrow> 0 < n"
  by (auto simp: awaits_creation_def thread_step_def semaphores_def split: if_splits)

lemma waiting_scheduler_moves:
  "scheduler_step s = Some s' \<Longrightarrow> serves t s \<Longrightarrow> semaphores woken finished n s \<Longrightarrow> finished = Some t"
  by (auto simp: serves_def undisturbed_def scheduler_step_def sigchld_handler_scheduler_def
      mc_shared_sem_wait_for_thread_def semaphores_def split: if_splits)

lemma thread_moves_alive: "thread_step prog k s = Some s' \<Longrightarrow> process s = Alive"
  by (simp add: thread_step_def split: if_splits)

text \<open>In every phase only the agent whose turn it is can move.\<close>

lemma thread_turn:
  "in_phase prog ph s \<Longrightarrow> thread_step prog k s = Some s' \<Longrightarrow> turn_of ph s = Thread k"
  by (cases ph) (auto dest: settled_thread_moves creator_moves thread_moves_alive)

lemma scheduler_turn:
  "in_phase prog ph s \<Longrightarrow> scheduler_step s = Some s' \<Longrightarrow> turn_of ph s = Scheduler"
  by (cases ph) (auto dest: waiting_scheduler_moves)

lemma only_the_turn_moves: "in_phase prog ph s \<Longrightarrow> agent_step prog a s = Some s' \<Longrightarrow> a = turn_of ph s"
  by (cases a) (auto dest: thread_turn scheduler_turn)

section \<open>From phase to phase\<close>

text \<open>Which fields the parts of a phase look at.\<close>

lemma settled_frame [simp]:
  "settled_but K (memory_update m s) = settled_but K s"
  "settled_but K (created_handle_update h s) = settled_but K s"
  "settled_but K (targetNextThreadId_update f s) = settled_but K s"
  "settled_but K (mc_pthread_create_binary_sem_update c s) = settled_but K s"
  "settled_but K (pthread_sem_update a s) = settled_but K s"
  "settled_but K (dpor_scheduler_sem_update b s) = settled_but K s"
  "settled_but K (shm_update x s) = settled_but K s"
  "settled_but K (to_run_update r s) = settled_but K s"
  "settled_but K (waiting_for_update w s) = settled_but K s"
  by (simp_all add: settled_but_def)

lemma semaphores_frame [simp]:
  "semaphores a b n (memory_update m s) = semaphores a b n s"
  "semaphores a b n (code_update c s) = semaphores a b n s"
  "semaphores a b n (tid_self_update g s) = semaphores a b n s"
  "semaphores a b n (created_handle_update h s) = semaphores a b n s"
  "semaphores a b n (started_update l s) = semaphores a b n s"
  "semaphores a b n (targetNextThreadId_update f s) = semaphores a b n s"
  "semaphores a b n (shm_update x s) = semaphores a b n s"
  "semaphores a b n (to_run_update r s) = semaphores a b n s"
  "semaphores a b n (waiting_for_update w s) = semaphores a b n s"
  by (simp_all add: semaphores_def)

lemma settled_set_code:
  "settled_but K s \<Longrightarrow> k < started s \<Longrightarrow> settled_but (insert k K) (set_code k q s)"
  by (auto simp: settled_but_def set_code_def)

lemma settled_release:
  "settled_but (insert k K) s \<Longrightarrow> tid_self s k = Some k \<Longrightarrow> code s k = Some p \<Longrightarrow> disciplined Parked p \<Longrightarrow>
     settled_but K s"
  by (auto simp: settled_but_def)

lemma set_code_simps [simp]:
  "memory (set_code k q s) = memory s" "to_run (set_code k q s) = to_run s"
  "process (set_code k q s) = process s" "started (set_code k q s) = started s"
  "tid_self (set_code k q s) = tid_self s" "waiting_for (set_code k q s) = waiting_for s"
  "scheduler_stopped (set_code k q s) = scheduler_stopped s" "shm (set_code k q s) = shm s"
  "targetNextThreadId (set_code k q s) = targetNextThreadId s"
  "pthread_sem (set_code k q s) = pthread_sem s" "dpor_scheduler_sem (set_code k q s) = dpor_scheduler_sem s"
  "mc_pthread_create_binary_sem (set_code k q s) = mc_pthread_create_binary_sem s"
  "code (set_code k q s) k = Some q" "j \<noteq> k \<Longrightarrow> code (set_code k q s) j = code s j"
  "semaphores a b n (set_code k q s) = semaphores a b n s"
  "undisturbed (set_code k q s) = undisturbed s" "serves t (set_code k q s) = serves t s"
  "all_registered (set_code k q s) = all_registered s" "posted_by t (set_code k q s) = posted_by t s"
  "newborn (set_code k q s) = newborn s"
  by (simp_all add: set_code_def semaphores_def undisturbed_def serves_def all_registered_def
      posted_by_def newborn_def)

named_theorems phase_defs "the parts of a phase"

declare serves_def [phase_defs] undisturbed_def [phase_defs] all_registered_def [phase_defs]
  posted_by_def [phase_defs] newborn_def [phase_defs]

lemma idle_step:
  assumes "in_phase prog Idle s" and "scheduler_step s = Some s'"
  shows "\<exists>t. in_phase prog (Woken t) s'"
  using assms
  by (auto simp: phase_defs scheduler_step_def sigchld_handler_scheduler_def mc_shared_sem_wake_thread_def
      semaphores_def split: if_splits list.splits)

lemma woken_step:
  assumes "in_phase prog (Woken t) s" and "thread_step prog t s = Some s'"
  shows "in_phase prog (Runs t) s'"
proof -
  from assms have alive: "process s = Alive" by (simp add: phase_defs)
  have "code s t \<noteq> None" using assms(2) by (auto simp: thread_step_def alive split: option.splits)
  then have t: "t < started s" using assms(1) by (auto simp: settled_but_def not_less [symmetric])
  then have self: "tid_self s t = Some t" using assms(1) by (simp add: settled_but_def)
  obtain q where code: "code s t = Some (WaitForScheduler # q)" and q: "disciplined Running q"
    using assms t self by (auto simp: settled_but_def thread_step_def alive split: option.splits list.splits)
  have s': "s' = set_code t q (s\<lparr>pthread_sem := (pthread_sem s)(t := pthread_sem s t - 1)\<rparr>)"
    using assms t self code
    by (auto simp: thread_step_def alive with_tid_def mc_shared_sem_wait_for_scheduler_def split: if_splits)
  have "settled_but {t} s'"
    unfolding s' by (rule settled_set_code) (use assms t self in simp_all)
  moreover have "semaphores None None 0 s'"
    using assms(1) by (auto simp: s' semaphores_def set_code_def)
  ultimately show ?thesis
    using assms(1) t self q by (auto simp: s' phase_defs)
qed

lemma done_step:
  assumes "in_phase prog (Done t) s" and "scheduler_step s = Some s'"
  shows "in_phase prog Idle s'"
  using assms
  by (auto simp: phase_defs scheduler_step_def sigchld_handler_scheduler_def mc_shared_sem_wait_for_thread_def
      semaphores_def split: if_splits)

lemma registers_step:
  assumes "in_phase prog (Registers t) s" and "thread_step prog (newborn s) s = Some s'"
  shows "in_phase prog (Announces t) s'"
proof -
  have s': "s' = set_code (newborn s) (tl mc_thread_routine_wrapper)
      (s\<lparr>tid_self := (tid_self s)(newborn s := Some (targetNextThreadId s)),
         targetNextThreadId := targetNextThreadId s + 1\<rparr>)"
    using assms by (simp add: thread_step_def phase_defs mc_thread_routine_wrapper_def)
  show ?thesis
    using assms(1) by (auto simp: s' phase_defs awaits_creation_def set_code_def settled_but_def semaphores_def)
qed

lemma announces_step:
  assumes "in_phase prog (Announces t) s" and "thread_step prog (newborn s) s = Some s'"
  shows "in_phase prog (Announced t) s'"
proof -
  have s': "s' = set_code (newborn s) (tl (tl mc_thread_routine_wrapper))
      (s\<lparr>mc_pthread_create_binary_sem := mc_pthread_create_binary_sem s + 1\<rparr>)"
    using assms by (simp add: thread_step_def phase_defs mc_thread_routine_wrapper_def)
  have parked: "disciplined Parked (tl (tl mc_thread_routine_wrapper))"
    by (simp add: wrapper_defs)
  show ?thesis
    using assms(1) parked
    by (auto simp: s' phase_defs awaits_creation_def set_code_def settled_but_def semaphores_def)
qed

lemma announced_step:
  assumes "in_phase prog (Announced t) s" and "thread_step prog t s = Some s'"
  shows "in_phase prog (Runs t) s'"
proof -
  obtain q where "code s t = Some (AwaitCreated # q)" "disciplined Running q"
    using assms(1) by (auto simp: awaits_creation_def)
  moreover from this have "s' = set_code t q
      (s\<lparr>mc_pthread_create_binary_sem := mc_pthread_create_binary_sem s - 1\<rparr>)"
    using assms by (auto simp: thread_step_def semaphores_def phase_defs split: if_splits)
  ultimately show ?thesis
    using assms(1) by (auto simp: phase_defs awaits_creation_def set_code_def settled_but_def semaphores_def)
qed

text \<open>The thread that runs: it goes on, gives the turn back, starts a thread or ends the process.\<close>

lemma goes_on:
  assumes "serves t s" and "semaphores None None 0 s" and "settled_but {t} s" and "all_registered s"
    and "t < started s" and "tid_self s t = Some t"
    and "disciplined Running q \<or> disciplined Posted q \<and> posted_by t s"
  shows "in_phase prog (Runs t) (set_code t q s)"
  using assms settled_set_code [of "{t}" s t q] by simp

lemma gives_back:
  assumes "serves t s" and "semaphores None None 0 s" and "settled_but {t} s" and "all_registered s"
    and "t < started s" and "tid_self s t = Some t" and "posted_by t s" and "disciplined Parked q"
  shows "in_phase prog (Done t) (set_code t q (s\<lparr>dpor_scheduler_sem := (dpor_scheduler_sem s)(t := dpor_scheduler_sem s t + 1)\<rparr>))"
    (is "in_phase prog _ (set_code t q ?r)")
proof -
  have "settled_but {t} (set_code t q ?r)"
    using settled_set_code [of "{t}" ?r t q] assms(3,5) by simp
  then have "settled_but {} (set_code t q ?r)"
    by (rule settled_release) (use assms in simp_all)
  then show ?thesis
    using assms by (auto simp: phase_defs semaphores_def)
qed

lemma starts_thread:
  assumes "serves t s" and "semaphores None None 0 s" and "settled_but {t} s" and "all_registered s"
    and "t < started s" and "tid_self s t = Some t" and "disciplined Running q"
  shows "\<exists>ph. in_phase prog ph (set_code t (AwaitCreated # q) (start_thread prog t arg routine s))"
proof (cases "create_fails prog t (memory s)")
  case True
  then have "in_phase prog (CreateFailed t) (set_code t (AwaitCreated # q) (start_thread prog t arg routine s))"
    using assms settled_set_code [of "{t}" s t "AwaitCreated # q"]
    by (simp add: start_thread_def awaits_creation_def)
  then show ?thesis by blast
next
  case False
  then have "in_phase prog (Registers t) (set_code t (AwaitCreated # q) (start_thread prog t arg routine s))"
    using assms
    by (auto simp: start_thread_def awaits_creation_def Let_def phase_defs semaphores_def settled_but_def
        set_code_def)
  then show ?thesis by blast
qed

lemma runs_step:
  assumes "in_phase prog (Runs t) s" and "thread_step prog t s = Some s'"
  shows "\<exists>ph. in_phase prog ph s'"
proof -
  from assms(1) have ph: "serves t s" "semaphores None None 0 s" "settled_but {t} s" "all_registered s"
      "t < started s" "tid_self s t = Some t"
    by auto
  from assms(1) obtain p where p: "code s t = Some p"
      "disciplined Running p \<or> disciplined Posted p \<and> posted_by t s"
    by auto
  then obtain i q where iq: "p = i # q" by (cases p) auto
  have alive: "process s = Alive" using assms(2) by (rule thread_moves_alive)
  have step: "run_instr prog t i q s = Some s'"
    using assms(2) by (simp add: thread_step_def alive p iq)
  have on: "\<exists>ph. in_phase prog ph (set_code t r u)"
    if "disciplined Running r \<or> disciplined Posted r \<and> posted_by t u"
      "u = memory_update f s \<or> u = shm_update g s" for r u f g
  proof -
    have "in_phase prog (Runs t) (set_code t r u)"
      by (rule goes_on) (use that ph in \<open>auto simp: phase_defs\<close>)
    then show ?thesis by blast
  qed
  have on_memory: "\<exists>ph. in_phase prog ph (set_code t r (s\<lparr>memory := m\<rparr>))" if "disciplined Running r" for r m
    by (rule on [where f = "\<lambda>_. m"]) (use that in simp_all)
  have ended: "\<exists>ph. in_phase prog ph (s\<lparr>process := d\<rparr>)" if "d \<noteq> Alive" for d
    using that by (intro exI [of _ Ended]) simp
  show ?thesis
  proof (cases i)
    case (PostOperation op)
    then show ?thesis
      using step p iq ph(6) on [of q "shm_update (\<lambda>_. Some (Some t, op)) s"] by (auto simp: posted_by_def simp del: in_phase.simps)
  next
    case (PostNewThread arg routine)
    then show ?thesis
      using step p iq ph(6)
        on [of q "shm_update (\<lambda>_. Some (Some t, OpThreadCreate arg routine (created_handle s t))) s"]
      by (auto simp: posted_by_def simp del: in_phase.simps)
  next
    case WakeScheduler
    then show ?thesis
      using step p iq ph gives_back [of t s q]
      by (auto simp: with_tid_def mc_shared_sem_wake_scheduler_def simp del: in_phase.simps split: if_splits)
  next
    case (RealCreate arg routine)
    then obtain r where "q = AwaitCreated # r" "disciplined Running r"
      using p iq by (auto split: list.splits instr.splits)
    then show ?thesis
      using step RealCreate ph starts_thread [of t s r prog arg routine] by (auto simp del: in_phase.simps)
  next
    case (RealCall c)
    then show ?thesis using step p iq on [of q] by (auto split: option.splits simp del: in_phase.simps)
  next
    case (ReturnValue v)
    then show ?thesis using step p iq on [of q] by (auto simp del: in_phase.simps)
  next
    case (CheckAssert b)
    then show ?thesis
      using step p iq on [of q s id] by (cases b) (auto simp del: in_phase.simps simp: ended)
  next
    case UserCode
    obtain m act where "user_code prog t (memory s) = (m, act)" by (cases "user_code prog t (memory s)")
    then show ?thesis
      using step p iq UserCode wrapper_disciplined [of "UserCode # q"] on_memory
      by (cases act) (auto simp del: in_phase.simps)
  next
    case RealExit
    then show ?thesis using step p iq on [of _ s id] exit_disciplined by (auto simp del: in_phase.simps)
  next
    case RealAbort
    then show ?thesis using step ended [of Killed] ended [of Exited] by (auto simp del: in_phase.simps)
  next
    case EndProcess
    then show ?thesis using step ended [of Killed] ended [of Exited] by (auto simp del: in_phase.simps)
  qed (use p iq in auto)
qed

text \<open>Every step leads from a phase to a phase.\<close>

lemma phase_step:
  assumes "in_phase prog ph s" and "handshake_step prog s s'"
  shows "\<exists>ph'. in_phase prog ph' s'"
proof -
  from assms(2) obtain a where a: "agent_step prog a s = Some s'" by (auto simp: handshake_step_agent)
  have turn: "a = turn_of ph s" using only_the_turn_moves [OF assms(1) a] .
  show ?thesis
  proof (cases ph)
    case Idle
    then show ?thesis using idle_step [of prog s s'] assms(1) a turn by (auto simp del: in_phase.simps)
  next
    case (Woken t)
    then show ?thesis using woken_step [of prog t s s'] assms(1) a turn by (auto simp del: in_phase.simps)
  next
    case (Runs t)
    then show ?thesis using runs_step [of prog t s s'] assms(1) a turn by (auto simp del: in_phase.simps)
  next
    case (Registers t)
    then show ?thesis using registers_step [of prog t s s'] assms(1) a turn by (auto simp del: in_phase.simps)
  next
    case (Announces t)
    then show ?thesis using announces_step [of prog t s s'] assms(1) a turn by (auto simp del: in_phase.simps)
  next
    case (Announced t)
    then show ?thesis using announced_step [of prog t s s'] assms(1) a turn by (auto simp del: in_phase.simps)
  next
    case (CreateFailed t)
    then show ?thesis using creator_moves [of prog t s s' None None 0] assms(1) a turn by auto
  next
    case (Done t)
    then show ?thesis using done_step [of prog t s s'] assms(1) a turn by (auto simp del: in_phase.simps)
  next
    case Ended
    then have "process s' \<noteq> Alive"
      using assms(1) a turn
      by (auto simp: scheduler_step_def mc_shared_sem_wake_thread_def mc_shared_sem_wait_for_thread_def
          split: if_splits option.splits list.splits)
    then show ?thesis by (intro exI [of _ Ended]) simp
  qed
qed

section \<open>Reachable states\<close>

lemma reset_semaphores:
  "pthread_sem (mc_reset_cv_locks s) t = (if t < MAX_TOTAL_THREADS_IN_PROGRAM then 0 else pthread_sem s t)"
  "dpor_scheduler_sem (mc_reset_cv_locks s) t =
     (if t < MAX_TOTAL_THREADS_IN_PROGRAM then 0 else dpor_scheduler_sem s t)"
proof -
  have fold: "pthread_sem (fold mc_shared_sem_init ts s) t = (if t \<in> set ts then 0 else pthread_sem s t) \<and>
      dpor_scheduler_sem (fold mc_shared_sem_init ts s) t = (if t \<in> set ts then 0 else dpor_scheduler_sem s t)"
    for ts
    by (induction ts arbitrary: s) (auto simp: mc_shared_sem_init_def)
  show "pthread_sem (mc_reset_cv_locks s) t = (if t < MAX_TOTAL_THREADS_IN_PROGRAM then 0 else pthread_sem s t)"
    "dpor_scheduler_sem (mc_reset_cv_locks s) t =
     (if t < MAX_TOTAL_THREADS_IN_PROGRAM then 0 else dpor_scheduler_sem s t)"
    using fold [of "[0..<MAX_TOTAL_THREADS_IN_PROGRAM]"] by (simp_all add: mc_reset_cv_locks_def)
qed

lemma new_target_idle: "in_phase prog Idle (new_target prog sched s)"
  by (auto simp: new_target_def fork_target_def phase_defs semaphores_def settled_but_def reset_semaphores
      main_thread_code_def wrapper_defs TID_MAIN_THREAD_def)

lemma reachable_phase:
  "handshake_run prog (new_target prog sched s0) s \<Longrightarrow> \<exists>ph. in_phase prog ph s"
proof (induction rule: handshake_run.induct)
  case run_refl
  then show ?case using new_target_idle by blast
next
  case (run_step s' s'')
  then show ?case using phase_step by blast
qed

text \<open>A state has one successor at most, so runs from a state never part.\<close>

lemma next_unique:
  assumes "in_phase prog ph s" and "handshake_step prog s s1" and "handshake_step prog s s2"
  shows "s1 = s2"
proof -
  obtain a b where "agent_step prog a s = Some s1" "agent_step prog b s = Some s2"
    using assms(2,3) by (auto simp: handshake_step_agent)
  with only_the_turn_moves [OF assms(1)] show ?thesis by (metis option.inject)
qed

lemma run_trans: "handshake_run prog s' s'' \<Longrightarrow> handshake_run prog s s' \<Longrightarrow> handshake_run prog s s''"
  by (induction rule: handshake_run.induct) (auto intro: run_step)

lemma run_head:
  "handshake_run prog s s' \<Longrightarrow> s = s' \<or> (\<exists>u. handshake_step prog s u \<and> handshake_run prog u s')"
  by (induction rule: handshake_run.induct) (auto intro: handshake_run.intros)

lemma runs_in_line:
  assumes "handshake_run prog s0 s1" and "handshake_run prog s0 s2"
    and phases: "\<And>s. handshake_run prog s0 s \<Longrightarrow> \<exists>ph. in_phase prog ph s"
  shows "handshake_run prog s1 s2 \<or> handshake_run prog s2 s1"
  using assms(1)
proof (induction rule: handshake_run.induct)
  case run_refl
  then show ?case using assms(2) by blast
next
  case (run_step s' s'')
  then show ?case
  proof (elim disjE)
    assume "handshake_run prog s' s2"
    then show ?thesis
      using run_head [of prog s' s2] run_step.hyps phases next_unique by (metis handshake_run.intros)
  next
    assume "handshake_run prog s2 s'"
    then show ?thesis using run_step.hyps(2) by (blast intro: handshake_run.run_step)
  qed
qed

end
