(* ===== verification/TargetRuns.thy ===== *)
theory TargetRuns
  imports TurnTaking
begin

text \<open>
  What the handshake gives the search: after a schedule has been run the target is at rest, the
  mailbox holds the next operation of the thread that ran last, and all of this depends on nothing but
  the schedule.  \<open>run_handshake\<close> computes it, and \<open>target_of\<close> makes of a program on the level
  of calls the parameter the search is given.
\<close>

definition at_rest :: "'m handshake \<Rightarrow> bool" where
  "at_rest s \<longleftrightarrow> process s = Alive \<and> waiting_for s = None \<and> to_run s = []"

lemma phase_without_waiting:
  "in_phase prog ph s \<Longrightarrow> process s = Alive \<Longrightarrow> waiting_for s = None \<Longrightarrow> ph = Idle"
  by (cases ph) (auto simp: serves_def)

lemma rest_is_final:
  assumes "in_phase prog ph s" and "at_rest s"
  shows "\<not> handshake_step prog s s'"
proof
  assume "handshake_step prog s s'"
  then obtain a where a: "agent_step prog a s = Some s'" by (auto simp: handshake_step_agent)
  have "ph = Idle" using phase_without_waiting assms by (auto simp: at_rest_def)
  then have "a = Scheduler" using only_the_turn_moves [OF assms(1) a] by simp
  then show False
    using a assms(2) by (auto simp: at_rest_def scheduler_step_def sigchld_handler_scheduler_def split: if_splits)
qed

lemma rest_unique:
  assumes "handshake_run prog (new_target prog sched s0) s1" and "at_rest s1"
    and "handshake_run prog (new_target prog sched s0) s2" and "at_rest s2"
  shows "s1 = s2"
proof -
  have "handshake_run prog s1 s2 \<or> handshake_run prog s2 s1"
    by (rule runs_in_line [OF assms(1,3)]) (rule reachable_phase)
  moreover have "\<not> handshake_step prog s1 u" "\<not> handshake_step prog s2 u" for u
    using reachable_phase [OF assms(1)] reachable_phase [OF assms(3)] rest_is_final assms(2,4) by blast+
  ultimately show ?thesis using run_head [of prog s1 s2] run_head [of prog s2 s1] by metis
qed

section \<open>The schedule and the mailbox\<close>

text \<open>What has been run of the schedule, and who posted last.\<close>

definition follows_schedule :: "tid list \<Rightarrow> 'm handshake \<Rightarrow> bool" where
  "follows_schedule sched s \<longleftrightarrow> (\<exists>ran. sched = ran @ to_run s \<and>
     (case waiting_for s of
        Some t \<Rightarrow> ran \<noteq> [] \<and> last ran = t
      | None \<Rightarrow> ran \<noteq> [] \<longrightarrow> process s = Alive \<longrightarrow> posted_by (last ran) s))"

lemma thread_step_frame:
  assumes "thread_step prog k s = Some s'"
  shows "waiting_for s' = waiting_for s" and "to_run s' = to_run s"
    and "scheduler_stopped s' = scheduler_stopped s"
proof -
  from assms obtain i q where "run_instr prog k i q s = Some s'"
    by (auto simp: thread_step_def split: if_splits option.splits list.splits)
  then have "waiting_for s' = waiting_for s \<and> to_run s' = to_run s \<and> scheduler_stopped s' = scheduler_stopped s"
    by (cases i) (auto simp: with_tid_def mc_shared_sem_wake_scheduler_def mc_shared_sem_wait_for_scheduler_def
        start_thread_def Let_def split: if_splits option.splits prod.splits)
  then show "waiting_for s' = waiting_for s" "to_run s' = to_run s" "scheduler_stopped s' = scheduler_stopped s"
    by simp_all
qed

lemma follows_step:
  assumes "in_phase prog ph s" and "handshake_step prog s s'" and "follows_schedule sched s"
  shows "follows_schedule sched s'"
  using assms(2)
proof cases
  case (thread_moves k)
  have "waiting_for s \<noteq> None"
    using phase_without_waiting [OF assms(1)] thread_moves_alive [OF thread_moves] thread_turn [OF assms(1) thread_moves]
    by (cases "waiting_for s = None") auto
  then show ?thesis
    using assms(3) thread_step_frame [OF thread_moves] by (auto simp: follows_schedule_def split: option.splits)
next
  case scheduler_moves
  have turn: "turn_of ph s = Scheduler" using scheduler_turn [OF assms(1) scheduler_moves] .
  show ?thesis
  proof (cases ph)
    case Idle
    then show ?thesis
      using scheduler_moves assms(1,3)
      by (auto simp: follows_schedule_def scheduler_step_def sigchld_handler_scheduler_def undisturbed_def
          mc_shared_sem_wake_thread_def split: list.splits if_splits)
  next
    case (Done t)
    then show ?thesis
      using scheduler_moves assms(1,3)
      by (auto simp: follows_schedule_def scheduler_step_def sigchld_handler_scheduler_def undisturbed_def
          serves_def mc_shared_sem_wait_for_thread_def posted_by_def split: if_splits)
  next
    case Ended
    then show ?thesis
      using scheduler_moves assms(1,3)
      by (auto simp: follows_schedule_def scheduler_step_def sigchld_handler_scheduler_def
          mc_shared_sem_wait_for_thread_def mc_shared_sem_wake_thread_def
          split: if_splits option.splits list.splits process_status.splits)
  qed (use turn in auto)
qed

lemma reachable_follows:
  "handshake_run prog (new_target prog sched s0) s \<Longrightarrow> follows_schedule sched s"
proof (induction rule: handshake_run.induct)
  case run_refl
  then show ?case by (simp add: follows_schedule_def new_target_def fork_target_def)
next
  case (run_step s' s'')
  then show ?case using reachable_phase follows_step by blast
qed

lemma rest_mailbox:
  assumes "handshake_run prog (new_target prog sched s0) s" and "at_rest s" and "sched \<noteq> []"
  shows "posted_by (last sched) s"
  using reachable_follows [OF assms(1)] assms(2,3) by (simp add: follows_schedule_def at_rest_def)

section \<open>No lost wakeups\<close>

text \<open>Why nobody can move: the schedule is run, it asks for a thread that is not there, the thread that
  runs is blocked in the thread library, or a thread could not be created.\<close>

definition excused :: "'m user_program \<Rightarrow> 'm handshake \<Rightarrow> bool" where
  "excused prog s \<longleftrightarrow> (case waiting_for s of
      None \<Rightarrow> (case to_run s of [] \<Rightarrow> True | t # _ \<Rightarrow> t \<ge> MAX_TOTAL_THREADS_IN_PROGRAM)
    | Some t \<Rightarrow> (case code s t of
          None \<Rightarrow> True
        | Some [] \<Rightarrow> True
        | Some (RealCall c # _) \<Rightarrow> real_effect prog t c (memory s) = None
        | Some (AwaitCreated # _) \<Rightarrow> create_fails prog t (memory s)
        | _ \<Rightarrow> False))"

lemma moves_or_excused:
  assumes "in_phase prog ph s" and "process s = Alive"
  shows "(\<exists>s'. agent_step prog (turn_of ph s) s = Some s') \<or> excused prog s"
proof (cases ph)
  case Idle
  then show ?thesis
    using assms(1)
    by (auto simp: scheduler_step_def sigchld_handler_scheduler_def undisturbed_def excused_def
        mc_shared_sem_wake_thread_def split: list.splits)
next
  case (Woken t)
  then have w: "waiting_for s = Some t" using assms(1) by (simp add: serves_def)
  show ?thesis
  proof (cases "code s t")
    case None
    then show ?thesis using w by (simp add: excused_def)
  next
    case (Some p)
    then have "t < started s" using assms(1) Woken by (auto simp: settled_but_def not_less [symmetric])
    then have "tid_self s t = Some t" "disciplined Parked p"
      using assms(1) Woken Some by (auto simp: settled_but_def)
    then show ?thesis
      using assms Woken Some w
      by (cases p) (auto simp: excused_def thread_step_def with_tid_def mc_shared_sem_wait_for_scheduler_def
          semaphores_def serves_def)
  qed
next
  case (Runs t)
  then obtain p where p: "code s t = Some p" "disciplined Running p \<or> disciplined Posted p"
    using assms(1) by auto
  then obtain i q where iq: "p = i # q" by (cases p) auto
  show ?thesis
    using assms Runs p iq
    by (cases i) (auto simp: excused_def thread_step_def with_tid_def mc_shared_sem_wake_scheduler_def serves_def
        split: option.splits prod.splits)
next
  case (Registers t)
  then show ?thesis using assms by (simp add: thread_step_def mc_thread_routine_wrapper_def)
next
  case (Announces t)
  then show ?thesis using assms by (simp add: thread_step_def mc_thread_routine_wrapper_def)
next
  case (Announced t)
  then show ?thesis using assms by (auto simp: thread_step_def awaits_creation_def semaphores_def)
next
  case (CreateFailed t)
  then show ?thesis using assms by (auto simp: excused_def awaits_creation_def serves_def)
next
  case (Done t)
  then show ?thesis
    using assms by (auto simp: scheduler_step_def sigchld_handler_scheduler_def serves_def undisturbed_def
        mc_shared_sem_wait_for_thread_def semaphores_def)
qed (use assms in simp)

section \<open>What the last target has left behind does not matter\<close>

definition twins :: "'m handshake \<Rightarrow> 'm handshake \<Rightarrow> bool" where
  "twins s u \<longleftrightarrow> memory u = memory s \<and> code u = code s \<and> tid_self u = tid_self s
     \<and> created_handle u = created_handle s \<and> started u = started s
     \<and> targetNextThreadId u = targetNextThreadId s \<and> process u = process s
     \<and> mc_pthread_create_binary_sem u = mc_pthread_create_binary_sem s
     \<and> to_run u = to_run s \<and> waiting_for u = waiting_for s \<and> scheduler_stopped u = scheduler_stopped s
     \<and> (\<forall>t < MAX_TOTAL_THREADS_IN_PROGRAM.
          pthread_sem u t = pthread_sem s t \<and> dpor_scheduler_sem u t = dpor_scheduler_sem s t)"

text \<open>The mailboxes are untouched in both, or the same has been posted in both.\<close>

definition same_post :: "'m handshake \<Rightarrow> 'm handshake \<Rightarrow> 'm handshake \<Rightarrow> 'm handshake \<Rightarrow> bool" where
  "same_post s s' u u' \<longleftrightarrow> shm s' = shm s \<and> shm u' = shm u \<or> shm u' = shm s'"

text \<open>Steps of twins end in twins.\<close>

definition twin_steps ::
  "'m handshake \<Rightarrow> 'm handshake \<Rightarrow> 'm handshake option \<Rightarrow> 'm handshake option \<Rightarrow> bool" where
  "twin_steps s u r r' \<longleftrightarrow>
     (\<forall>s'. r = Some s' \<longrightarrow> (\<exists>u'. r' = Some u' \<and> twins s' u' \<and> same_post s s' u u'))"

lemma instr_twins:
  assumes "twins s u"
  shows "twin_steps s u (run_instr prog k i q s) (run_instr prog k i q u)"
proof (cases i)
  case WakeScheduler
  then show ?thesis
    using assms by (cases "tid_self s k") (auto simp: twin_steps_def twins_def same_post_def set_code_def with_tid_def
        mc_shared_sem_wake_scheduler_def)
next
  case WaitForScheduler
  then show ?thesis
    using assms by (cases "tid_self s k") (auto simp: twin_steps_def twins_def same_post_def set_code_def with_tid_def
        mc_shared_sem_wait_for_scheduler_def)
next
  case (RealCreate arg routine)
  then show ?thesis
    using assms by (cases "create_fails prog k (memory s)")
      (simp_all add: twin_steps_def twins_def same_post_def set_code_def start_thread_def Let_def)
next
  case (RealCall c)
  then show ?thesis
    using assms by (cases "real_effect prog k c (memory s)")
      (simp_all add: twin_steps_def twins_def same_post_def set_code_def)
next
  case UserCode
  obtain m act where "user_code prog k (memory s) = (m, act)" by (cases "user_code prog k (memory s)")
  then show ?thesis
    using assms UserCode by (simp add: twin_steps_def twins_def same_post_def set_code_def)
next
  case (CheckAssert b)
  then show ?thesis using assms by (cases b) (simp_all add: twin_steps_def twins_def same_post_def set_code_def)
qed (use assms in \<open>simp_all add: twin_steps_def twins_def same_post_def set_code_def\<close>)

lemma thread_twins:
  assumes "twins s u"
  shows "twin_steps s u (thread_step prog k s) (thread_step prog k u)"
proof -
  have eq: "process u = process s" "code u = code s" using assms by (simp_all add: twins_def)
  show ?thesis
    using instr_twins [OF assms]
    by (auto simp: thread_step_def eq twin_steps_def split: option.splits list.splits)
qed

lemma scheduler_twins:
  assumes "twins s u"
  shows "twin_steps s u (scheduler_step s) (scheduler_step u)"
proof -
  have eq: "process u = process s" "scheduler_stopped u = scheduler_stopped s" "waiting_for u = waiting_for s"
      "to_run u = to_run s" using assms by (simp_all add: twins_def)
  show ?thesis
    using assms
    by (auto simp: scheduler_step_def eq twin_steps_def mc_shared_sem_wake_thread_def same_post_def
        mc_shared_sem_wait_for_thread_def split: option.splits list.splits if_splits) (simp_all add: twins_def)
qed

lemma step_twins:
  assumes "handshake_step prog s s'" and "twins s u"
  obtains u' where "handshake_step prog u u'" and "twins s' u'" and "same_post s s' u u'"
  using assms(1)
proof cases
  case scheduler_moves
  then show ?thesis
    using scheduler_twins [OF assms(2)] that by (auto simp: twin_steps_def intro: handshake_step.intros)
next
  case (thread_moves k)
  then show ?thesis
    using thread_twins [OF assms(2), of prog k] that by (auto simp: twin_steps_def intro: handshake_step.intros)
qed

lemma run_twins:
  assumes "handshake_run prog s s'" and "twins s u"
  shows "\<exists>u'. handshake_run prog u u' \<and> twins s' u' \<and> same_post s s' u u'"
  using assms(1)
proof (induction rule: handshake_run.induct)
  case run_refl
  then show ?case using assms(2) by (auto simp: same_post_def intro: handshake_run.intros)
next
  case (run_step s' s'')
  then obtain u' where u': "handshake_run prog u u'" "twins s' u'" "same_post s s' u u'" by blast
  obtain u'' where "handshake_step prog u' u''" "twins s'' u''" "same_post s' s'' u' u''"
    using step_twins [OF run_step.hyps(2) u'(2)] .
  then show ?case
    using u' by (auto simp: same_post_def intro!: exI [of _ u''] intro: handshake_run.run_step)
qed

text \<open>The clean start: nothing in the mailbox.\<close>

definition clean :: "'m user_program \<Rightarrow> 'm handshake" where
  "clean prog = \<lparr>memory = initial_memory prog, code = (\<lambda>_. None), tid_self = (\<lambda>_. None),
     created_handle = (\<lambda>_. 0), started = 0, targetNextThreadId = 0, process = Exited,
     mc_pthread_create_binary_sem = 0, pthread_sem = (\<lambda>_. 0), dpor_scheduler_sem = (\<lambda>_. 0), shm = None,
     to_run = [], waiting_for = None, scheduler_stopped = False\<rparr>"

lemma reset_keeps_mailbox [simp]: "shm (mc_reset_cv_locks s) = shm s"
proof -
  have "shm (fold mc_shared_sem_init ts s) = shm s" for ts
    by (induction ts arbitrary: s) (simp_all add: mc_shared_sem_init_def)
  then show ?thesis by (simp add: mc_reset_cv_locks_def)
qed

lemma new_targets_are_twins: "twins (new_target prog sched s0) (new_target prog sched s1)"
  by (simp add: twins_def new_target_def fork_target_def reset_semaphores)

lemma twin_at_rest: "twins s u \<Longrightarrow> at_rest u = at_rest s"
  by (simp add: twins_def at_rest_def)

text \<open>A run of the schedule ends as the run from the clean start does.\<close>

lemma run_from_clean:
  assumes "handshake_run prog (new_target prog sched s0) s" and "at_rest s" and "sched \<noteq> []"
  shows "\<exists>u. handshake_run prog (new_target prog sched (clean prog)) u \<and> at_rest u \<and> twins s u \<and> shm u = shm s"
proof -
  obtain u where u: "handshake_run prog (new_target prog sched (clean prog)) u" "twins s u"
      "same_post (new_target prog sched s0) s (new_target prog sched (clean prog)) u"
    using run_twins [OF assms(1) new_targets_are_twins] by blast
  have rest: "at_rest u" using twin_at_rest [OF u(2)] assms(2) by simp
  have "shm u \<noteq> shm (new_target prog sched (clean prog))"
    using rest_mailbox [OF u(1) rest assms(3)]
    by (auto simp: posted_by_def new_target_def fork_target_def clean_def)
  then have "shm u = shm s" using u(3) by (auto simp: same_post_def)
  then show ?thesis using u rest by blast
qed

section \<open>The target of the search\<close>

text \<open>The step of the agent that can move, tried in order; repeated as often as the fuel allows.\<close>

fun first_step :: "'m user_program \<Rightarrow> nat list \<Rightarrow> 'm handshake \<Rightarrow> 'm handshake option" where
  "first_step prog [] s = None"
| "first_step prog (k # ks) s =
     (case thread_step prog k s of Some s' \<Rightarrow> Some s' | None \<Rightarrow> first_step prog ks s)"

definition next_state :: "'m user_program \<Rightarrow> 'm handshake \<Rightarrow> 'm handshake option" where
  "next_state prog s =
     (case scheduler_step s of Some s' \<Rightarrow> Some s' | None \<Rightarrow> first_step prog [0..<started s] s)"

fun run_handshake :: "'m user_program \<Rightarrow> nat \<Rightarrow> 'm handshake \<Rightarrow> 'm handshake" where
  "run_handshake prog 0 s = s"
| "run_handshake prog (Suc n) s =
     (case next_state prog s of None \<Rightarrow> s | Some s' \<Rightarrow> run_handshake prog n s')"

text \<open>
  The parameter of the search made of a program on the level of calls: where the last thread of a
  schedule stops is what the handshake leaves in the mailbox.
\<close>

definition stops_at_of :: "'m user_program \<Rightarrow> nat \<Rightarrow> tid list \<Rightarrow> visible_operation" where
  "stops_at_of prog fuel sched =
     (case shm (run_handshake prog fuel (new_target prog sched (clean prog))) of
        Some (_, op) \<Rightarrow> op | None \<Rightarrow> OpThreadStart)"

lemma first_step_moves: "first_step prog ks s = Some s' \<Longrightarrow> handshake_step prog s s'"
  by (induction ks) (auto intro: handshake_step.intros split: option.splits)

lemma first_step_none: "first_step prog ks s = None \<longleftrightarrow> (\<forall>k \<in> set ks. thread_step prog k s = None)"
  by (induction ks) (auto split: option.splits)

lemma next_state_iff:
  assumes "in_phase prog ph s"
  shows "next_state prog s = Some s' \<longleftrightarrow> handshake_step prog s s'"
proof
  show "next_state prog s = Some s' \<Longrightarrow> handshake_step prog s s'"
    by (auto simp: next_state_def intro: handshake_step.intros first_step_moves split: option.splits)
next
  assume step: "handshake_step prog s s'"
  have "next_state prog s \<noteq> None"
    using step
  proof cases
    case (thread_moves k)
    have "in_phase prog ph s \<Longrightarrow> k < started s"
      using thread_turn [OF assms thread_moves] thread_moves
      by (cases ph) (auto simp: settled_but_def newborn_def serves_def undisturbed_def awaits_creation_def
          thread_step_def not_less [symmetric] split: if_splits option.splits)
    then have "first_step prog [0..<started s] s \<noteq> None"
      using thread_moves assms unfolding first_step_none by auto
    then show ?thesis by (simp add: next_state_def split: option.splits)
  qed (simp add: next_state_def)
  then obtain s'' where "next_state prog s = Some s''" by blast
  moreover from this have "handshake_step prog s s''"
    by (auto simp: next_state_def intro: handshake_step.intros first_step_moves split: option.splits)
  ultimately show "next_state prog s = Some s'" using next_unique [OF assms step] by simp
qed

lemma run_handshake_is_run: "handshake_run prog s (run_handshake prog n s)"
proof (induction n arbitrary: s)
  case (Suc n)
  have "handshake_step prog s s'" if "next_state prog s = Some s'" for s'
    using that by (auto simp: next_state_def intro: handshake_step.intros first_step_moves split: option.splits)
  then have "handshake_run prog s s'" if "next_state prog s = Some s'" for s'
    using that by (blast intro: handshake_run.intros)
  then show ?case
    using run_trans [OF Suc] by (cases "next_state prog s") (auto intro: handshake_run.intros)
qed (simp add: handshake_run.run_refl)

lemma run_handshake_plus: "run_handshake prog (m + n) s = run_handshake prog n (run_handshake prog m s)"
proof (induction m arbitrary: s)
  case (Suc m)
  have stuck: "next_state prog s = None \<Longrightarrow> run_handshake prog n s = s" for n s
    by (cases n) simp_all
  show ?case using Suc stuck by (auto split: option.splits)
qed simp

lemma run_handshake_reaches:
  assumes "handshake_run prog s0 s"
    and phases: "\<And>s. handshake_run prog s0 s \<Longrightarrow> \<exists>ph. in_phase prog ph s"
  shows "\<exists>n. run_handshake prog n s0 = s"
  using assms(1)
proof (induction rule: handshake_run.induct)
  case run_refl
  show ?case by (rule exI [of _ 0]) simp
next
  case (run_step s' s'')
  then obtain n where "run_handshake prog n s0 = s'" by blast
  moreover have "next_state prog s' = Some s''"
    using phases [OF run_step.hyps(1)] next_state_iff run_step.hyps(2) by blast
  ultimately have "run_handshake prog (n + 1) s0 = s''"
    using run_handshake_plus [of prog n 1 s0] by simp
  then show ?case by blast
qed

text \<open>With enough fuel the runner ends where a run comes to rest.\<close>

lemma run_handshake_enough:
  assumes "handshake_run prog (new_target prog sched s0) s" and "at_rest s"
  shows "\<exists>n. \<forall>fuel \<ge> n. run_handshake prog fuel (new_target prog sched s0) = s"
proof -
  obtain n where n: "run_handshake prog n (new_target prog sched s0) = s"
    using run_handshake_reaches [OF assms(1)] reachable_phase by blast
  obtain ph where "in_phase prog ph s" using reachable_phase [OF assms(1)] by blast
  then have "next_state prog s = None"
    using next_state_iff rest_is_final assms(2) by (cases "next_state prog s") blast+
  then have "run_handshake prog m s = s" for m by (cases m) simp_all
  then have "run_handshake prog fuel (new_target prog sched s0) = s" if "fuel \<ge> n" for fuel
    using run_handshake_plus [of prog n "fuel - n" "new_target prog sched s0"] n that by simp
  then show ?thesis by blast
qed

end
