(* ===== verification/TargetProperties.thy ===== *)
theory TargetProperties
  imports TargetRuns Demo
begin

text \<open>
  The properties of the handshake between McMini and its target, and a program on the level of
  calls they are instantiated on: \<open>race_calls\<close> makes the calls behind the operations of
  \<open>race_program\<close>.
\<close>

section \<open>A program on the level of calls\<close>

text \<open>The memory: how many calls each thread has made, and the mutexes that are held.\<close>

type_synonym script_memory = "(nat \<Rightarrow> nat) \<times> sysid set"

fun script_effect :: "nat \<Rightarrow> real_call \<Rightarrow> script_memory \<Rightarrow> script_memory option" where
  "script_effect k (RealMutexLock m) (pc, held) = (if m \<in> held then None else Some (pc, insert m held))"
| "script_effect k (RealMutexUnlock m) (pc, held) = Some (pc, held - {m})"
| "script_effect k c mem = Some mem"

definition calls_program :: "(nat \<Rightarrow> intercepted list) \<Rightarrow> bool \<Rightarrow> script_memory user_program" where
  "calls_program calls fails =
     \<lparr>user_code = (\<lambda>k (pc, held). ((pc(k := pc k + 1), held),
        if pc k < length (calls k) then Calls (calls k ! pc k) else Returns)),
      real_effect = script_effect, spawn = (\<lambda>n arg routine mem. mem), handle = (\<lambda>n. 100 + n),
      create_fails = (\<lambda>k mem. fails), set_result = (\<lambda>k v mem. mem), initial_memory = (\<lambda>_. 0, {})\<rparr>"

definition race_calls :: "script_memory user_program" where
  "race_calls = calls_program (\<lambda>k. if k = 0 then [Call_pthread_create 0 0, Call_mutex_lock 50]
     else [Call_mutex_lock 50]) False"

definition failing_calls :: "script_memory user_program" where
  "failing_calls = calls_program (\<lambda>k. [Call_pthread_create 0 0]) True"

definition race_rest :: "tid list \<Rightarrow> script_memory handshake" where
  "race_rest sched = run_handshake race_calls 60 (new_target race_calls sched (clean race_calls))"

lemma race_rest_run: "handshake_run race_calls (new_target race_calls sched (clean race_calls)) (race_rest sched)"
  unfolding race_rest_def by (rule run_handshake_is_run)

lemma race_rest_waits: "at_rest (race_rest [0, 0, 1, 1])" "shm (race_rest [0, 0, 1, 1]) = Some (Some 1, OpThreadFinish)"
  by code_simp+

text \<open>The operations are those of the script of operations.\<close>

lemma race_calls_stop:
  "map (stops_at_of race_calls 60) [[0], [0, 0], [0, 0, 1], [0, 0, 0], [0, 0, 1, 1]] =
   map (stops_at race_program) [[0], [0, 0], [0, 0, 1], [0, 0, 0], [0, 0, 1, 1]]"
  by code_simp

lemma race_started: "started (race_rest [0, 0, 1, 1]) = 2"
  by code_simp

text \<open>A state in the middle: the main thread creates the second thread.\<close>

definition race_middle :: "script_memory handshake" where
  "race_middle = run_handshake race_calls 7 (new_target race_calls [0, 0] (clean race_calls))"

lemma race_middle_run: "handshake_run race_calls (new_target race_calls [0, 0] (clean race_calls)) race_middle"
  unfolding race_middle_def by (rule run_handshake_is_run)

lemma race_middle_state: "process race_middle = Alive" "\<not> excused race_calls race_middle"
  "agent_step race_calls (Thread 0) race_middle \<noteq> None"
  by code_simp+

text \<open>The same schedule run after a target that was killed in that state.\<close>

definition race_after_other :: "tid list \<Rightarrow> script_memory handshake" where
  "race_after_other sched = run_handshake race_calls 60 (new_target race_calls sched race_middle)"

lemma race_after_run: "handshake_run race_calls (new_target race_calls sched race_middle) (race_after_other sched)"
  unfolding race_after_other_def by (rule run_handshake_is_run)

lemma race_after_waits: "at_rest (race_after_other [0, 0, 1, 1])"
  by code_simp

text \<open>A program whose thread cannot be created.\<close>

definition failing_state :: "script_memory handshake" where
  "failing_state = run_handshake failing_calls 3 (new_target failing_calls [0] (clean failing_calls))"

lemma failing_run: "handshake_run failing_calls (new_target failing_calls [0] (clean failing_calls)) failing_state"
  unfolding failing_state_def by (rule run_handshake_is_run)

lemma failing_runs: "code failing_state 0 = Some (mc_pthread_create 0 0 @ [UserCode, RealExit])"
  "create_fails failing_calls 0 (memory failing_state)" "thread_step failing_calls 0 failing_state \<noteq> None"
  by code_simp+

section \<open>The properties\<close>

text \<open>
  C9. The scheduler and the threads of the target never race: in every state the handshake
  reaches from a new target, whatever the last one has left in shared memory, a single agent can
  move.
\<close>

theorem one_agent_moves:
  assumes "handshake_run prog (new_target prog sched s0) s"
    and "agent_step prog a s = Some s1" and "agent_step prog b s = Some s2"
  shows "a = b"
  using reachable_phase [OF assms(1)] only_the_turn_moves assms(2,3) by blast

theorem one_agent_moves_witness:
  "filter (\<lambda>a. agent_step race_calls a race_middle \<noteq> None) [Scheduler, Thread 0, Thread 1] = [Thread 0]"
proof -
  have "agent_step race_calls b race_middle = None" if "b \<noteq> Thread 0" for b
    using race_middle_state(3) one_agent_moves [OF race_middle_run, of "Thread 0" _ b] that by fastforce
  then show ?thesis using race_middle_state(3) by (simp del: agent_step.simps)
qed

text \<open>
  C10. No wakeup is lost: as long as the target is alive somebody can move, unless the schedule
  is run or asks for a thread that is not there, the thread that runs is blocked in the thread
  library, or it waits for a thread the library has refused to create.
\<close>

theorem no_wakeup_is_lost:
  assumes "handshake_run prog (new_target prog sched s0) s" and "process s = Alive" and "\<not> excused prog s"
  shows "\<exists>s'. handshake_step prog s s'"
  using reachable_phase [OF assms(1)] moves_or_excused assms(2,3) handshake_step_agent by blast

theorem no_wakeup_is_lost_witness: "\<exists>s'. handshake_step race_calls race_middle s'"
  by (rule no_wakeup_is_lost [OF race_middle_run race_middle_state(1,2)])

text \<open>
  C11. When a schedule has been run, the mailbox holds an operation posted by the thread that
  ran last, and every thread of the target has the id McMini counts for it, the number of
  threads started before it, because a thread is created only once the last one has registered.
\<close>

theorem last_thread_has_posted:
  assumes "handshake_run prog (new_target prog sched s0) s" and "at_rest s" and "sched \<noteq> []"
  shows "(\<exists>op. shm s = Some (Some (last sched), op)) \<and> targetNextThreadId s = started s
    \<and> (\<forall>k < started s. tid_self s k = Some k)"
proof -
  obtain ph where ph: "in_phase prog ph s" using reachable_phase [OF assms(1)] by blast
  have "ph = Idle" using phase_without_waiting [OF ph] assms(2) by (simp add: at_rest_def)
  then have "targetNextThreadId s = started s" "\<forall>k < started s. tid_self s k = Some k"
    using ph by (auto simp: all_registered_def settled_but_def)
  then show ?thesis using rest_mailbox [OF assms] by (simp add: posted_by_def)
qed

theorem last_thread_has_posted_witness:
  "targetNextThreadId (race_rest [0, 0, 1, 1]) = 2"
  using last_thread_has_posted [OF race_rest_run race_rest_waits(1)] race_started
  by (metis list.distinct(1))

text \<open>
  C12. What a target does is a function of the schedule: two runs of the same schedule that come
  to rest, from whatever the previous targets have left in the semaphores and the mailbox, end
  with the same memory, threads and mailbox.
\<close>

theorem schedule_determines_the_target:
  assumes "handshake_run prog (new_target prog sched s0) s" and "at_rest s"
    and "handshake_run prog (new_target prog sched u0) u" and "at_rest u" and "sched \<noteq> []"
  shows "shm s = shm u \<and> memory s = memory u \<and> code s = code u \<and> started s = started u"
proof -
  obtain s' where s': "handshake_run prog (new_target prog sched (clean prog)) s'" "at_rest s'" "twins s s'"
      "shm s' = shm s"
    using run_from_clean [OF assms(1,2,5)] by blast
  obtain u' where u': "handshake_run prog (new_target prog sched (clean prog)) u'" "at_rest u'" "twins u u'"
      "shm u' = shm u"
    using run_from_clean [OF assms(3,4,5)] by blast
  have "s' = u'" using rest_unique [OF s'(1,2) u'(1,2)] .
  then show ?thesis using s'(3,4) u'(3,4) by (simp add: twins_def)
qed

theorem schedule_determines_the_target_witness:
  "shm (race_rest [0, 0, 1, 1]) = shm (race_after_other [0, 0, 1, 1])"
  by (rule schedule_determines_the_target [OF race_rest_run race_rest_waits(1) race_after_run race_after_waits,
        THEN conjunct1]) simp



text \<open>
  C28. When the library cannot create a thread, McMini hangs: the thread that called
  pthread_create waits for the registration of a thread that does not exist, and the scheduler
  waits for that thread.
\<close>

theorem failed_creation_hangs:
  assumes "handshake_run prog (new_target prog sched s0) s"
    and "code s k = Some (RealCreate arg routine # q)" and "create_fails prog k (memory s)"
    and "thread_step prog k s = Some s'"
  shows "process s' = Alive \<and> waiting_for s' = Some k \<and> (\<nexists>s''. handshake_step prog s' s'')"
proof -
  obtain ph where ph: "in_phase prog ph s" using reachable_phase [OF assms(1)] by blast
  have runs: "ph = Runs k"
    using thread_turn [OF ph assms(4)] ph assms(2)
    by (cases ph; cases "k < started s") (auto simp: awaits_creation_def wrapper_defs settled_but_def)
  then have w: "serves k s" "semaphores None None 0 s" "settled_but {k} s" "all_registered s" "k < started s"
      "tid_self s k = Some k" and alive: "process s = Alive"
    using ph by (auto simp: serves_def undisturbed_def)
  obtain r where r: "q = AwaitCreated # r" "disciplined Running r"
    using ph runs assms(2) by (auto split: list.splits instr.splits)
  have "s' = set_code k (AwaitCreated # r) s"
    using assms(2-4) alive by (simp add: thread_step_def start_thread_def r)
  then have "in_phase prog (CreateFailed k) s'"
    using w r assms(3) settled_set_code [of "{k}" s k "AwaitCreated # r"] by (auto simp: awaits_creation_def)
  then show ?thesis
    using only_the_turn_moves [of prog "CreateFailed k" s'] creator_moves [of prog k s' _ None None 0]
    by (auto simp: serves_def undisturbed_def handshake_step_agent simp del: agent_step.simps)
       (metis agent_step.simps(2) less_numeral_extra(3) turn_of.simps(7))
qed

theorem failed_creation_hangs_witness:
  "\<exists>s'. thread_step failing_calls 0 failing_state = Some s' \<and> waiting_for s' = Some 0"
  using failing_runs failed_creation_hangs [OF failing_run, of 0] by (auto simp: mc_pthread_create_def)

end
