(* ===== verification/CStrings.thy ===== *)
theory CStrings
  imports Main "HOL-Library.Word" "HOL-Library.Char_ord"
begin

text \<open>
  The functions of the C library on strings that the command line and the environment are read
  with, as the C standard has them on a 64-bit system: \<^verbatim>\<open>isdigit\<close>, \<^verbatim>\<open>isspace\<close>, \<^verbatim>\<open>strtol\<close> and \<^verbatim>\<open>strtoul\<close> to
  base 10, and \<^verbatim>\<open>printf\<close> of an unsigned number.  A string is the list of its characters before the
  terminating zero; the end pointer of a conversion is the rest of the string.
\<close>

definition char_at :: "string \<Rightarrow> nat \<Rightarrow> char" where
  "char_at s i = (if i < length s then s ! i else CHR 0x00)"

definition digit_value :: "char \<Rightarrow> nat" where
  "digit_value c = of_char c - 48"

definition isdigit :: "char \<Rightarrow> bool" where
  "isdigit c \<longleftrightarrow> 48 \<le> (of_char c :: nat) \<and> (of_char c :: nat) \<le> 57"

definition isspace :: "char \<Rightarrow> bool" where
  "isspace c \<longleftrightarrow> c \<in> {CHR '' '', CHR 0x09, CHR 0x0A, CHR 0x0B, CHR 0x0C, CHR 0x0D}"

definition digit_char :: "nat \<Rightarrow> char" where
  "digit_char d = char_of (48 + d)"

fun digits_value :: "nat \<Rightarrow> string \<Rightarrow> nat" where
  "digits_value v [] = v"
| "digits_value v (c # cs) = digits_value (10 * v + digit_value c) cs"

text \<open>The sign, the digits and the rest, if there is a number after the white space.\<close>

definition scan_number :: "string \<Rightarrow> (bool \<times> nat \<times> string) option" where
  "scan_number s =
     (let s1 = dropWhile isspace s;
          negative = (s1 \<noteq> [] \<and> hd s1 = CHR ''-'');
          s2 = (if s1 \<noteq> [] \<and> (hd s1 = CHR ''-'' \<or> hd s1 = CHR ''+'') then tl s1 else s1);
          digits = takeWhile isdigit s2 in
      if digits = [] then None else Some (negative, digits_value 0 digits, dropWhile isdigit s2))"

definition strtol :: "string \<Rightarrow> int \<times> string" where
  "strtol s = (case scan_number s of
      None \<Rightarrow> (0, s)
    | Some (negative, v, rest) \<Rightarrow>
        (max (- (2 ^ 63)) (min (2 ^ 63 - 1) (if negative then - int v else int v)), rest))"

definition strtoul :: "string \<Rightarrow> 64 word" where
  "strtoul s = (case scan_number s of
      None \<Rightarrow> 0
    | Some (negative, v, rest) \<Rightarrow>
        if v > 2 ^ 64 - 1 then - 1 else if negative then - of_nat v else of_nat v)"

text \<open>\<^verbatim>\<open>printf("%lu", n)\<close>.\<close>

fun decimal :: "nat \<Rightarrow> string" where
  "decimal n = (if n < 10 then [digit_char n] else decimal (n div 10) @ [digit_char (n mod 10)])"

declare decimal.simps [simp del]

section \<open>Printed numbers are read back\<close>

lemma digit_chars:
  "list_all (\<lambda>d. isdigit (digit_char d) \<and> digit_value (digit_char d) = d \<and> \<not> isspace (digit_char d)
     \<and> digit_char d \<notin> {CHR ''-'', CHR ''+'', CHR '','', CHR '' ''}) [0..<10]"
  by code_simp

lemma digit_char_props:
  assumes "d < 10"
  shows "isdigit (digit_char d)" and "digit_value (digit_char d) = d"
  using digit_chars assms by (auto simp: list_all_iff)

lemma digits_value_append: "digits_value v (xs @ ys) = digits_value (digits_value v xs) ys"
  by (induction xs arbitrary: v) simp_all

lemma decimal_digits: "\<forall>c \<in> set (decimal n). isdigit c" and decimal_nonempty: "decimal n \<noteq> []"
  and decimal_value: "digits_value 0 (decimal n) = n"
proof (induction n rule: decimal.induct)
  case (1 n)
  {
    case 1
    then show ?case using "1.IH" digit_char_props by (subst decimal.simps) auto
  next
    case 2
    then show ?case by (subst decimal.simps) simp
  next
    case 3
    then show ?case
      using "1.IH"(3) digit_char_props by (subst decimal.simps) (simp add: digits_value_append)
  }
qed

lemma digit_is_no_separator:
  "isdigit c \<Longrightarrow> \<not> isspace c \<and> c \<noteq> CHR ''-'' \<and> c \<noteq> CHR ''+'' \<and> c \<noteq> CHR '',''"
  by (auto simp: isdigit_def isspace_def)

lemma scan_decimal:
  assumes "rest = [] \<or> \<not> isdigit (hd rest)"
  shows "scan_number (decimal n @ rest) = Some (False, n, rest)"
proof -
  obtain c cs where cs: "decimal n = c # cs" using decimal_nonempty by (meson list.exhaust)
  have digits: "\<forall>x \<in> set (decimal n). isdigit x" by (rule decimal_digits)
  then have "dropWhile isspace (decimal n @ rest) = decimal n @ rest"
    using digit_is_no_separator cs by auto
  moreover have "takeWhile isdigit (decimal n @ rest) = decimal n"
    using digits assms by (cases rest) (auto simp: takeWhile_append2)
  moreover have "dropWhile isdigit (decimal n @ rest) = rest"
    using digits assms by (cases rest) (auto simp: dropWhile_append2)
  moreover have "hd (decimal n @ rest) \<noteq> CHR ''-''" "hd (decimal n @ rest) \<noteq> CHR ''+''"
    using digits digit_is_no_separator cs by auto
  ultimately show ?thesis
    by (simp add: scan_number_def Let_def decimal_nonempty decimal_value)
qed

lemma scan_shorter: "scan_number s = Some (negative, v, rest) \<Longrightarrow> length rest < length s"
proof -
  assume scan: "scan_number s = Some (negative, v, rest)"
  define s1 where "s1 = dropWhile isspace s"
  define s2 where "s2 = (if s1 \<noteq> [] \<and> (hd s1 = CHR ''-'' \<or> hd s1 = CHR ''+'') then tl s1 else s1)"
  have "takeWhile isdigit s2 \<noteq> []" "rest = dropWhile isdigit s2"
    using scan by (auto simp: scan_number_def Let_def s1_def s2_def split: if_splits)
  then have "length rest < length s2"
    by (metis append_Nil length_append length_greater_0_conv less_add_same_cancel2 takeWhile_dropWhile_id)
  moreover have "length s2 \<le> length s1" by (simp add: s2_def)
  moreover have "length s1 \<le> length s" by (simp add: s1_def length_dropWhile_le)
  ultimately show ?thesis by simp
qed

lemma strtol_shorter: "strtol s = (v, rest) \<Longrightarrow> rest = s \<or> length rest < length s"
  by (auto simp: strtol_def dest: scan_shorter split: option.splits)

lemma strtol_decimal:
  "rest = [] \<or> \<not> isdigit (hd rest) \<Longrightarrow> n < 2 ^ 63 \<Longrightarrow> strtol (decimal n @ rest) = (int n, rest)"
  by (simp add: strtol_def scan_decimal)

lemma strtoul_decimal: "n < 2 ^ 64 \<Longrightarrow> strtoul (decimal n) = of_nat n"
  using scan_decimal [of "[]" n] by (simp add: strtoul_def)

end
