(* ===== verification/Configuration.thy ===== *)
theory Configuration
  imports Search CStrings
begin

text \<open>
  What McMini reads from its environment: \<^verbatim>\<open>get_config_for_execution_environment\<close>
  (\<^verbatim>\<open>src/mcmini_private.cpp\<close>), the switches of the search, the depth limits during the livelock test
  (\<^verbatim>\<open>src/MCStack.cpp\<close>), and the schedule given as a string, \<^verbatim>\<open>trace_string_to_int_array\<close>, with
  \<^verbatim>\<open>printThreadSchedule\<close> that prints one.  The environment maps the names of \<^verbatim>\<open>include/MCEnv.h\<close> to
  strings.
\<close>

datatype env_name =
    ENV_MAX_TRANSITIONS_TOTAL
  | ENV_MAX_TRANSITIONS_PER_THREAD
  | ENV_EXPLORE_ROUND_ROBIN
  | ENV_DEBUG_AT_TRACE_ID
  | ENV_PRINT_AT_TRACE_ID
  | ENV_PRINT_AT_TRACE_SEQ
  | ENV_CONTINUE_AFTER_DATA_RACE
  | ENV_FIRST_DEADLOCK
  | ENV_CHECK_FOR_LIVELOCK
  | ENV_MAX_LIVELOCK_CYCLE_LIMIT
  | ENV_CHECK_FORWARD_PROGRESS
  | ENV_LONG_TEST
  | ENV_QUIET
  | ENV_VERBOSE
  | ENV_LD_PRELOAD

type_synonym environment = "env_name \<rightharpoonup> string"

abbreviation is_set :: "environment \<Rightarrow> env_name \<Rightarrow> bool" where
  "is_set env x \<equiv> env x \<noteq> None"

section \<open>The limits\<close>

record mc_configuration =
  cfg_maxThreadDepth :: u64
  cfg_maxTotalDepth :: u64
  cfg_printBacktraceAtTraceNumber :: u64
  cfg_firstDeadlock :: bool
  cfg_expectForwardProgressOfThreads :: bool

text \<open>The bound the total depth cannot exceed, lower when livelocks are looked for.\<close>

definition largest_total_depth :: "environment \<Rightarrow> u64" where
  "largest_total_depth env =
     of_nat MC_STATE_CONFIG_MAX_TRANSITIONS_DEPTH_LIMIT_DEFAULT - 1 -
     (if is_set env ENV_CHECK_FOR_LIVELOCK
      then of_nat (MAX_TOTAL_THREADS_IN_PROGRAM * LLOCK_INCREASED_MAX_TRANSITIONS_DEPTH) else 0)"

definition get_config_for_execution_environment :: "environment \<Rightarrow> mc_configuration" where
  "get_config_for_execution_environment env =
     \<lparr>cfg_maxThreadDepth = (case env ENV_MAX_TRANSITIONS_PER_THREAD of
          None \<Rightarrow> - 1 | Some v \<Rightarrow> strtoul v),
      cfg_maxTotalDepth = (case env ENV_MAX_TRANSITIONS_TOTAL of
          None \<Rightarrow> largest_total_depth env
        | Some v \<Rightarrow> if strtoul v \<ge> largest_total_depth env then largest_total_depth env else strtoul v),
      cfg_printBacktraceAtTraceNumber = (case env ENV_PRINT_AT_TRACE_ID of
          None \<Rightarrow> - 1 | Some v \<Rightarrow> strtoul v),
      cfg_firstDeadlock = is_set env ENV_FIRST_DEADLOCK,
      cfg_expectForwardProgressOfThreads = is_set env ENV_CHECK_FORWARD_PROGRESS\<rparr>"

text \<open>The livelock test may run the trace beyond the limit and puts it back afterwards.\<close>

definition increaseMaxTransitionsDepthLimit :: "int \<Rightarrow> mcstack \<Rightarrow> mcstack" where
  "increaseMaxTransitionsDepthLimit n s =
     s\<lparr>configuration := (configuration s)\<lparr>maxTotalTransitionsDepthLimit :=
         maxTotalTransitionsDepthLimit (configuration s) + of_int (n * (int (getNumProgramThreads s) + 1))\<rparr>\<rparr>"

definition resetMaxTransitionsDepthLimit :: "environment \<Rightarrow> mcstack \<Rightarrow> mcstack" where
  "resetMaxTransitionsDepthLimit env s =
     s\<lparr>configuration := (configuration s)\<lparr>maxTotalTransitionsDepthLimit :=
         (case env ENV_MAX_TRANSITIONS_TOTAL of
            None \<Rightarrow> largest_total_depth env
          | Some v \<Rightarrow> if strtoul v \<ge> largest_total_depth env then largest_total_depth env else strtoul v)\<rparr>\<rparr>"

section \<open>The schedule\<close>

text \<open>The number as it is stored in an \<^verbatim>\<open>int\<close>.\<close>

definition int32 :: "int \<Rightarrow> int" where
  "int32 n = signed_take_bit 31 n"

text \<open>
  The numbers of the string, with \<open>room\<close> entries left in the array; \<open>None\<close> is the exit with a message,
  at a character that is neither a digit nor a space and when the array is full.
\<close>

function trace_numbers :: "nat \<Rightarrow> string \<Rightarrow> int list option" where
  "trace_numbers room str =
     (if str \<noteq> [] \<and> \<not> isdigit (hd str) \<and> hd str \<noteq> CHR '' '' then None
      else case strtol str of (num, endptr) \<Rightarrow>
        if str = endptr then Some []
        else if room \<le> 1 then None
        else map_option (Cons (int32 num)) (trace_numbers (room - 1) (dropWhile (\<lambda>c. c = CHR '' '') endptr)))"
  by auto
termination
  by (relation "measure (length \<circ> snd)")
     (auto simp: comp_def dest!: sym [of "(_, _)"] strtol_shorter intro: le_less_trans [OF length_dropWhile_le])

declare trace_numbers.simps [simp del]

definition trace_string_to_int_array :: "string \<Rightarrow> nat \<Rightarrow> int list option" where
  "trace_string_to_int_array str traceArrayLen =
     trace_numbers traceArrayLen (map (\<lambda>c. if c = CHR '','' then CHR '' '' else c) str)"

text \<open>\<^verbatim>\<open>printThreadSchedule\<close>, without the newline at the end.\<close>

definition printThreadSchedule :: "mcstack \<Rightarrow> string" where
  "printThreadSchedule s = concat (map (\<lambda>t. decimal t @ '', '') (getThreadIdBacktrace s))"

section \<open>The switches of the search\<close>

text \<open>The configuration and the options the search runs with; a schedule that cannot be read stops
  McMini.\<close>

definition read_environment :: "environment \<Rightarrow> (stack_configuration \<times> search_options) result" where
  "read_environment env =
     (let cfg = get_config_for_execution_environment env;
          sched = map_option (\<lambda>v. trace_string_to_int_array v traceSeq_buflen) (env ENV_PRINT_AT_TRACE_SEQ) in
      if sched = Some None then Inl StopModelChecking
      else Inr (\<lparr>maxThreadExecutionDepth = cfg_maxThreadDepth cfg,
                 maxTotalTransitionsDepthLimit = cfg_maxTotalDepth cfg\<rparr>,
        \<lparr>exploreRoundRobin = is_set env ENV_EXPLORE_ROUND_ROBIN,
         continueAfterDataRace = is_set env ENV_CONTINUE_AFTER_DATA_RACE,
         firstDeadlock = is_set env ENV_FIRST_DEADLOCK,
         traceSeq = map_option the sched,
         quiet = is_set env ENV_QUIET,
         printBacktraceAtTraceNumber = unat (cfg_printBacktraceAtTraceNumber cfg)\<rparr>))"

section \<open>Printed schedules are read back\<close>

lemma trace_numbers_printed:
  assumes "length ts < room" and "\<forall>t \<in> set ts. t < 2 ^ 31"
  shows "trace_numbers room (concat (map (\<lambda>t. decimal t @ ''  '') ts)) = Some (map int ts)"
  using assms
proof (induction ts arbitrary: room)
  case Nil
  have "strtol [] = (0, [])" by (simp add: strtol_def scan_number_def)
  then show ?case by (subst trace_numbers.simps) simp
next
  case (Cons t ts)
  let ?rest = "concat (map (\<lambda>t. decimal t @ ''  '') ts)"
  have bound: "t < 2 ^ 31" using Cons.prems(2) by simp
  have "strtol (decimal t @ ''  '' @ ?rest) = (int t, ''  '' @ ?rest)"
    by (rule strtol_decimal) (use bound in \<open>simp_all add: isdigit_def\<close>)
  moreover have "isdigit (hd (decimal t @ ''  '' @ ?rest))"
    using decimal_digits [of t] decimal_nonempty [of t] by simp
  moreover have "hd ?rest \<noteq> CHR '' '' \<or> ?rest = []"
  proof (cases ts)
    case (Cons u us)
    then have "isdigit (hd ?rest)"
      using decimal_digits [of u] decimal_nonempty [of u] by simp
    then show ?thesis by (auto simp: isdigit_def)
  qed simp
  then have "dropWhile (\<lambda>c. c = CHR '' '') (''  '' @ ?rest) = ?rest"
    by (cases ?rest) auto
  moreover have "int32 (int t) = int t"
    unfolding int32_def by (rule signed_take_bit_int_eq_self) (use bound in simp_all)
  moreover have "decimal t @ ''  '' @ ?rest \<noteq> ''  '' @ ?rest" using decimal_nonempty by simp
  ultimately show ?case
    using Cons.IH [of "room - 1"] Cons.prems by (subst trace_numbers.simps) simp
qed

lemma commas_to_spaces:
  "map (\<lambda>c. if c = CHR '','' then CHR '' '' else c) (concat (map (\<lambda>t. decimal t @ '', '') ts)) =
   concat (map (\<lambda>t. decimal t @ ''  '') ts)"
proof -
  have "map (\<lambda>c. if c = CHR '','' then CHR '' '' else c) (decimal t) = decimal t" for t
    by (rule map_idI) (use decimal_digits digit_is_no_separator in auto)
  then show ?thesis by (simp add: map_concat comp_def)
qed

end
