(* ===== verification/Livelock.thy ===== *)
theory Livelock
  imports Configuration
begin

text \<open>
  The livelock test (\<^verbatim>\<open>MCStack::isInLivelock\<close> in \<^verbatim>\<open>src/MCStack.cpp\<close>) and the end of a trace with it
  (\<^verbatim>\<open>src/mcmini_private.cpp\<close>).  A trace that has come to its end is run on, one thread with the
  threads that share objects with it at a time; when none of them reports progress
  (\<^verbatim>\<open>mc_report_progress\<close>), a livelock is reported.  The test is switched on by
  \<^verbatim>\<open>MCMINI_CHECK_FOR_LIVELOCK\<close>.  The early stopping of \<^verbatim>\<open>--enable-early-stopping\<close>
  (\<^verbatim>\<open>LIVELOCK_EARLY_STOPPING\<close>), not compiled by default, is in \<open>EarlyStopping\<close>.
\<close>

section \<open>Threads that are related by the objects they use\<close>

text \<open>The transitions on objects override the method, the others keep the empty set of the base class.\<close>

definition MCMutexTransition_getObjectsAccessed :: "mcmutex \<Rightarrow> objid set" where
  "MCMutexTransition_getObjectsAccessed m = {mutex_id m}"

definition MCSemaphoreTransition_getObjectsAccessed :: "mcsem \<Rightarrow> objid set" where
  "MCSemaphoreTransition_getObjectsAccessed s = {sem_id s}"

definition MCCondTransition_getObjectsAccessed :: "mccond \<Rightarrow> objid set" where
  "MCCondTransition_getObjectsAccessed c = {cond_id c} \<union> set_option (cond_mutex c)"

definition MCBarrierTransition_getObjectsAccessed :: "mcbarrier \<Rightarrow> objid set" where
  "MCBarrierTransition_getObjectsAccessed b = {barrier_id b}"

definition MCRWLockTransition_getObjectsAccessed :: "mcrwlock \<Rightarrow> objid set" where
  "MCRWLockTransition_getObjectsAccessed l = {rw_id l}"

definition MCRWWLockTransition_getObjectsAccessed :: "mcrwwlock \<Rightarrow> objid set" where
  "MCRWWLockTransition_getObjectsAccessed l = {rww_id l}"

definition MCGlobalVariableTransition_getObjectsAccessed :: "mcglobal \<Rightarrow> objid set" where
  "MCGlobalVariableTransition_getObjectsAccessed g = {global_id g}"

definition getObjectsAccessedByTransition :: "transition \<Rightarrow> objid set" where
  "getObjectsAccessedByTransition t = (case t of
      MCThreadTransition _ _ _ \<Rightarrow> {}
    | MCMutexTransition _ _ m \<Rightarrow> MCMutexTransition_getObjectsAccessed m
    | MCSemaphoreTransition _ _ s \<Rightarrow> MCSemaphoreTransition_getObjectsAccessed s
    | MCCondTransition _ _ c \<Rightarrow> MCCondTransition_getObjectsAccessed c
    | MCBarrierTransition _ _ b \<Rightarrow> MCBarrierTransition_getObjectsAccessed b
    | MCRWLockTransition _ _ l \<Rightarrow> MCRWLockTransition_getObjectsAccessed l
    | MCRWWLockTransition _ _ l \<Rightarrow> MCRWWLockTransition_getObjectsAccessed l
    | MCGlobalVariableTransition _ _ g \<Rightarrow> MCGlobalVariableTransition_getObjectsAccessed g
    | MCAbortTransition _ \<Rightarrow> {}
    | MCExitTransition _ _ \<Rightarrow> {}
    | MCProgressTransition _ \<Rightarrow> {})"

definition transitionsAreCausallyRelated :: "transition \<Rightarrow> transition \<Rightarrow> bool" where
  "transitionsAreCausallyRelated a b \<longleftrightarrow>
     (let objsA = getObjectsAccessedByTransition a; objsB = getObjectsAccessedByTransition b in
      if objsA = {} \<or> objsB = {} then False else \<exists>x \<in> objsA. x \<in> objsB)"

definition getTransitionStackTop :: "mcstack \<Rightarrow> transition result" where
  "getTransitionStackTop s = guardR OutOfBounds (transitionStack s \<noteq> []) (Inr (last (transitionStack s)))"

text \<open>The threads below \<open>n\<close> related to the last transition join the related ones.\<close>

definition relateThreads :: "nat \<Rightarrow> tid set \<Rightarrow> mcstack \<Rightarrow> tid set result" where
  "relateThreads n rel s =
     foldR (\<lambda>q rel. if q \<in> rel then Inr rel
        else bindR (getNextTransitionForThread s q) (\<lambda>t. bindR (getTransitionStackTop s) (\<lambda>top.
          Inr (if transitionsAreCausallyRelated t top then insert q rel else rel)))) [0..<n] rel"

section \<open>The threads to run\<close>

text \<open>The last enabled one, from which the test starts; the first enabled one among some threads.\<close>

definition lastEnabledTransition :: "nat \<Rightarrow> mcstack \<Rightarrow> transition option result" where
  "lastEnabledTransition n s =
     foldR (\<lambda>i nxt. bindR (getNextTransitionForThread s i) (\<lambda>t.
        Inr (if transitionEnabledInState t then Some t else nxt))) [0..<n] None"

fun firstRelatedEnabled :: "mcstack \<Rightarrow> tid set \<Rightarrow> tid list \<Rightarrow> tid option result" where
  "firstRelatedEnabled s rel [] = Inr None"
| "firstRelatedEnabled s rel (j # js) =
     (if j \<notin> rel then firstRelatedEnabled s rel js
      else bindR (getNextTransitionForThread s j) (\<lambda>t.
        if transitionEnabledInState t then Inr (Some j) else firstRelatedEnabled s rel js))"

fun firstUnexploredEnabled :: "mcstack \<Rightarrow> tid set \<Rightarrow> tid list \<Rightarrow> transition option result" where
  "firstUnexploredEnabled s expl [] = Inr None"
| "firstUnexploredEnabled s expl (n # ns) =
     bindR (getNextTransitionForThread s n) (\<lambda>t.
       if n \<notin> expl \<and> transitionEnabledInState t then Inr (Some t)
       else firstUnexploredEnabled s expl ns)"

section \<open>The test\<close>

text \<open>
  The variables of the test during one cycle: \<^verbatim>\<open>threadIsRelated\<close>, \<^verbatim>\<open>threadIsExplored\<close>, \<^verbatim>\<open>next_tid\<close>
  and the state of the search.  \<open>Progress\<close> is the early return when a thread reports progress.
\<close>

record livelock_cycle =
  threadIsRelated :: "tid set"
  threadIsExplored :: "tid set"
  next_tid :: tid
  cycle_state :: search_state

datatype cycle_result = Progress search_state | Cycle livelock_cycle

definition nextThreadOfCycle :: "nat \<Rightarrow> tid set \<Rightarrow> tid \<Rightarrow> mcstack \<Rightarrow> tid result" where
  "nextThreadOfCycle n rel q s =
     bindR (getNextTransitionForThread s q) (\<lambda>t.
       if transitionEnabledInState t then Inr q
       else bindR (firstRelatedEnabled s rel [0..<n]) (\<lambda>j. Inr (case j of None \<Rightarrow> q | Some j \<Rightarrow> j)))"

text \<open>
  The body of the loop over \<^verbatim>\<open>i\<close>.  The pending transition of a thread belongs to the thread
  (\<open>pending_transitions_are_readable\<close>), so \<open>runTransition\<close> runs \<^verbatim>\<open>next_tid\<close> in the target.
\<close>

definition livelockStep ::
  "target_program \<Rightarrow> search_options \<Rightarrow> nat \<Rightarrow> livelock_cycle \<Rightarrow> cycle_result search" where
  "livelockStep prog opts n c =
     (let st = cycle_state c; s = programState st in
      bindR (liftR (relateThreads n (threadIsRelated c) s)) (\<lambda>rel.
      bindR (liftR (nextThreadOfCycle n rel (next_tid c) s)) (\<lambda>q.
      bindR (liftR (getNextTransitionForThread s q)) (\<lambda>t.
        if \<not> transitionEnabledInState t
        then Inr (Cycle (c\<lparr>threadIsRelated := rel, next_tid := q\<rparr>))
        else if isProgressTransition t then Inr (Progress st)
        else bindR (runTransition prog opts t st) (\<lambda>st'.
          Inr (Cycle \<lparr>threadIsRelated = rel, threadIsExplored = insert q (threadIsExplored c),
                      next_tid = q, cycle_state = st'\<rparr>))))))"

fun livelockLoop ::
  "target_program \<Rightarrow> search_options \<Rightarrow> nat \<Rightarrow> int list \<Rightarrow> livelock_cycle \<Rightarrow> cycle_result search" where
  "livelockLoop prog opts n [] c = Inr (Cycle c)"
| "livelockLoop prog opts n (i # is) c =
     bindR (livelockStep prog opts n c) (\<lambda>r. case r of
        Progress st \<Rightarrow> Inr (Progress st)
      | Cycle c' \<Rightarrow> livelockLoop prog opts n is c')"

text \<open>One cycle, started by the transition \<open>t\<close> of an enabled thread.\<close>

definition livelockCycle ::
  "target_program \<Rightarrow> search_options \<Rightarrow> nat \<Rightarrow> int \<Rightarrow> transition \<Rightarrow> tid set \<Rightarrow> search_state \<Rightarrow>
     cycle_result search" where
  "livelockCycle prog opts n increasedDepth t expl st =
     (if isProgressTransition t then Inr (Progress st)
      else bindR (runTransition prog opts t st) (\<lambda>st1.
        livelockLoop prog opts n [1..increasedDepth - 1]
          \<lparr>threadIsRelated = {getThreadId t}, threadIsExplored = insert (getThreadId t) expl,
           next_tid = getThreadId t, cycle_state = st1\<lparr>transitionId := transitionId st1 + 1\<rparr>\<rparr>))"

text \<open>
  The \<^verbatim>\<open>while\<close> loop over the cycles.  Each explores a thread that no cycle before has explored, so
  \<open>rounds\<close>, the number of threads, is never used up (\<open>livelock_test_ends\<close>).
\<close>

fun livelockCycles ::
  "target_program \<Rightarrow> search_options \<Rightarrow> nat \<Rightarrow> int \<Rightarrow> nat \<Rightarrow> transition \<Rightarrow> tid set \<Rightarrow> search_state \<Rightarrow>
     (bool \<times> search_state) search" where
  "livelockCycles prog opts n increasedDepth rounds t expl st =
     (if rounds = 0 then Inl Hangs
      else bindR (livelockCycle prog opts n increasedDepth t expl st) (\<lambda>r. case r of
          Progress st' \<Rightarrow> Inr (False, st')
        | Cycle c \<Rightarrow>
            bindR (liftR (firstUnexploredEnabled (programState (cycle_state c)) (threadIsExplored c) [0..<n]))
              (\<lambda>nxt. case nxt of
                 None \<Rightarrow> Inr (True, cycle_state c)
               | Some t' \<Rightarrow> livelockCycles prog opts n increasedDepth (rounds - 1) t'
                              (threadIsExplored c) (cycle_state c))))"

declare livelockCycles.simps [simp del]

text \<open>When no thread is enabled the code reads a pointer it has not assigned.\<close>

definition isInLivelock ::
  "target_program \<Rightarrow> search_options \<Rightarrow> int \<Rightarrow> search_state \<Rightarrow> (bool \<times> search_state) search" where
  "isInLivelock prog opts increasedDepth st =
     (let numThreads = getNumProgramThreads (programState st) in
      bindR (liftR (lastEnabledTransition numThreads (programState st))) (\<lambda>start. case start of
        None \<Rightarrow> Inl (Aborted UninitializedRead)
      | Some t \<Rightarrow> livelockCycles prog opts numThreads increasedDepth numThreads t {} st))"

section \<open>The end of a trace\<close>

definition cycleLimit :: "environment \<Rightarrow> int" where
  "cycleLimit env = (case env ENV_MAX_LIVELOCK_CYCLE_LIMIT of
      None \<Rightarrow> int LLOCK_INCREASED_MAX_TRANSITIONS_DEPTH | Some v \<Rightarrow> int32 (uint (strtoul v)))"

definition checkForLivelock ::
  "target_program \<Rightarrow> environment \<Rightarrow> search_options \<Rightarrow> search_state \<Rightarrow> (bool \<times> bool \<times> search_state) search" where
  "checkForLivelock prog env opts st =
     (let increasedDepth = cycleLimit env in
      bindR (isInLivelock prog opts increasedDepth
               (st\<lparr>programState := increaseMaxTransitionsDepthLimit increasedDepth (programState st)\<rparr>))
        (\<lambda>(hasLivelock, st1).
      let st2 = st1\<lparr>programState := resetMaxTransitionsDepthLimit env (programState st1)\<rparr> in
      bindR (liftR (isInDeadlock (programState st2))) (\<lambda>hasDeadlock.
        Inr (hasDeadlock, hasLivelock, st2))))"

text \<open>
  The block of the loop that ends a trace: what was found is reported, and the target process of the
  trace is terminated.
\<close>

definition reportErrors ::
  "search_options \<Rightarrow> transition option \<Rightarrow> bool \<times> bool \<times> search_state \<Rightarrow>
     (transition option \<times> search_state) search" where
  "reportErrors opts nxt found =
     (case found of (hasDeadlock, hasLivelock, st) \<Rightarrow>
       let st1 = (if hasDeadlock then addResult DeadlockDetected st else st) in
       if hasDeadlock \<and> firstDeadlock opts then Inl (Completed (st1\<lparr>traceId := traceId st1 + 1\<rparr>))
       else
         let st2 = (if hasLivelock then addResult LivelockDetected st1 else st1) in
         if hasLivelock \<and> firstDeadlock opts then Inl (Completed (st2\<lparr>traceId := traceId st2 + 1\<rparr>))
         else Inr (nxt, mc_terminate_trace st2))"

definition endCheckedTrace ::
  "target_program \<Rightarrow> environment \<Rightarrow> search_options \<Rightarrow> transition option \<Rightarrow> search_state \<Rightarrow>
     (transition option \<times> search_state) search" where
  "endCheckedTrace prog env opts nxt st =
     bindR (liftR (isInDeadlock (programState st))) (\<lambda>deadlock.
       let st1 = (if deadlock \<and> nxt \<noteq> None then addResult TruncatedTraceSeq st else st);
           nxt1 = (if deadlock \<and> nxt \<noteq> None then None else nxt) in
       bindR (if is_set env ENV_CHECK_FOR_LIVELOCK \<and> nxt1 = None then checkForLivelock prog env opts st1
              else Inr (deadlock, False, st1)) (reportErrors opts nxt1))"

definition finishCheckedTrace ::
  "target_program \<Rightarrow> environment \<Rightarrow> search_options \<Rightarrow> transition option \<Rightarrow> search_state \<Rightarrow>
     (transition option \<times> search_state) search" where
  "finishCheckedTrace prog env opts nxt st =
     bindR (liftR (if nxt = None then Inr True
              else if traceSeqLength opts > 0 then isInDeadlock (programState st) else Inr False)) (\<lambda>ends.
     if \<not> ends then Inr (nxt, st) else endCheckedTrace prog env opts nxt st)"

text \<open>An iteration of the search up to the end of the trace, and with this end.\<close>

definition iterationToChoice ::
  "target_program \<Rightarrow> search_options \<Rightarrow> transition \<Rightarrow> search_state \<Rightarrow>
     (transition option \<times> search_state) search" where
  "iterationToChoice prog opts t st =
     bindR (runTransition prog opts t (st\<lparr>transitionId := transitionId st + 1\<rparr>)) (\<lambda>st1.
     bindR (liftR (dynamicallyUpdateBacktrackSets (set_order prog) (programState st1))) (\<lambda>s.
     bindR (checkDataRace opts (getThreadId t) (st1\<lparr>programState := s\<rparr>)) (\<lambda>st2.
       chooseNextTransition opts t st2)))"

definition checkedIteration ::
  "target_program \<Rightarrow> environment \<Rightarrow> search_options \<Rightarrow> transition \<Rightarrow> search_state \<Rightarrow>
     (transition option \<times> search_state) search" where
  "checkedIteration prog env opts t st =
     bindR (iterationToChoice prog opts t st) (\<lambda>(nxt, st1). finishCheckedTrace prog env opts nxt st1)"

lemma searchIteration_choice:
  "searchIteration prog opts t st =
     bindR (iterationToChoice prog opts t st) (\<lambda>(nxt, st1). finishTrace opts nxt st1)"
  by (simp add: searchIteration_def iterationToChoice_def bindR_assoc)

end
