(* ===== verification/LivelockRuns.thy ===== *)
theory LivelockRuns
  imports Livelock TypedSearch Selection
begin

text \<open>
  What the livelock test does to the state of the search: every transition it runs is the enabled
  pending transition of a thread and no report of progress (\<open>test_run\<close>), the invariants of the search
  hold afterwards, and the test comes to an end.
\<close>

section \<open>What the test runs\<close>

text \<open>The counters of the search are of no matter to the model and the target.\<close>

definition same_run :: "search_state \<Rightarrow> search_state \<Rightarrow> bool" where
  "same_run st st' \<longleftrightarrow> programState st' = programState st \<and> trace_process st' = trace_process st"

lemma same_run_refl [simp, intro]: "same_run st st" "same_run st (st\<lparr>transitionId := i\<rparr>)"
  by (simp_all add: same_run_def)

inductive test_run ::
  "target_program \<Rightarrow> search_options \<Rightarrow> search_state \<Rightarrow> transition list \<Rightarrow> search_state \<Rightarrow> bool"
  for prog opts where
  stay: "test_run prog opts st [] st"
| go: "test_run prog opts st ts st1 \<Longrightarrow> getNextTransitionForThread (programState st1) q = Inr t \<Longrightarrow>
    transitionEnabledInState t \<Longrightarrow> \<not> isProgressTransition t \<Longrightarrow> runTransition prog opts t st1 = Inr st2 \<Longrightarrow>
    same_run st2 st3 \<Longrightarrow> test_run prog opts st (ts @ [t]) st3"

lemma test_run_trans:
  "test_run prog opts st1 ts' st2 \<Longrightarrow> test_run prog opts st ts st1 \<Longrightarrow> test_run prog opts st (ts @ ts') st2"
  by (induction rule: test_run.induct) (auto simp: test_run.go simp flip: append_assoc)

lemma test_run_one:
  assumes "getNextTransitionForThread (programState st) q = Inr t" and "transitionEnabledInState t"
    and "\<not> isProgressTransition t" and "runTransition prog opts t st = Inr st'"
  shows "test_run prog opts st [t] (st'\<lparr>transitionId := i\<rparr>)" and "test_run prog opts st [t] st'"
    and "same_run st' st'' \<Longrightarrow> test_run prog opts st [t] st''"
  using test_run.go [OF test_run.stay assms] by simp_all

definition sound_state :: "search_state \<Rightarrow> bool" where
  "sound_state st \<longleftrightarrow> search_ok (programState st) \<and> well_typed (programState st) \<and> in_step st"

lemma runTransition_sound:
  assumes "runTransition prog opts t st = Inr st'" and "sound_state st"
  shows "sound_state st'"
    and "transitionStack (programState st') = transitionStack (programState st) @ [staticCopy (methods_of t)]"
    and "length (stateStack (programState st')) = Suc (length (stateStack (programState st)))"
    and "done_grows (programState st) (programState st')"
  using assms(1)
proof (atomize (full), cases rule: runTransition_cases)
  case (1 sched entry handler)
  note sim = 1(4) [unfolded 1(3)]
  have ok: "search_ok (programState st)" using assms(2) by (simp add: sound_state_def)
  note so = simulate_search_ok [OF 1(4,2) ok]
  have "well_typed (programState st')" using simulate_typed [OF sim] assms(2) by (simp add: sound_state_def)
  moreover have "in_step st'"
    using assms(2) 1(1,5) so(3) by (simp add: in_step_def sound_state_def)
  moreover have "transitionStack (programState st') = transitionStack (programState st) @ [staticCopy (methods_of t)]"
    using 1(4,2) by (rule simulateRunningTransition_cases)
  ultimately show "(sound_state st' \<and>
    transitionStack (programState st') = transitionStack (programState st) @ [staticCopy (methods_of t)]) \<and>
    length (stateStack (programState st')) = Suc (length (stateStack (programState st))) \<and>
    done_grows (programState st) (programState st')"
    using so by (simp add: sound_state_def)
qed

lemma runTransition_grows:
  assumes "runTransition prog opts t st = Inr st'" and "sound_state st"
  shows "grows (programState st) (programState st')"
  using assms(1)
proof (cases rule: runTransition_cases)
  case (1 sched entry handler)
  show ?thesis using simulate_grows [OF 1(4) [unfolded 1(3)]] assms(2) by (simp add: sound_state_def)
qed

lemma runTransition_branches:
  assumes "runTransition prog opts t st = Inr st'"
    and "backtrackSet (last (stateStack (programState st))) = {}"
  shows "map backtrackSet (stateStack (programState st')) = map backtrackSet (stateStack (programState st)) @ [{}]"
  using assms(1)
proof (cases rule: runTransition_cases)
  case (1 sched entry handler)
  from 1(4,2) show ?thesis
  proof (cases rule: simulateRunningTransition_cases)
    case sim: (1 en sl)
    obtain its it where st: "stateStack (programState st) = its @ [it]"
      using sim(2) by (cases "stateStack (programState st)" rule: rev_cases) auto
    show ?thesis
      using assms(2) sim(5) by (simp add: st newStackItem_def)
  qed
qed

lemma sound_same: "same_run st st' \<Longrightarrow> sound_state st' = sound_state st"
  by (simp add: sound_state_def in_step_def same_run_def)

lemma sound_tick [simp]: "sound_state (st\<lparr>transitionId := i\<rparr>) = sound_state st"
  by (rule sound_same) simp

lemma progress_staticCopy [simp]:
  "isProgressTransition (staticCopy (methods_of t)) = isProgressTransition t"
  by (cases t) (auto simp: isProgressTransition_def methods_of_def class_methods mutex_dispatch_def
      split: thread_op.splits mutex_op.splits sem_op.splits cond_op.splits barrier_op.splits rwlock_op.splits
          rwwlock_op.splits global_op.splits)

lemma test_run_sound:
  assumes "test_run prog opts st ts st'" and "sound_state st"
  shows "sound_state st'"
    and "transitionStack (programState st')
      = transitionStack (programState st) @ map (staticCopy \<circ> methods_of) ts"
    and "length (stateStack (programState st')) = length (stateStack (programState st)) + length ts"
    and "done_grows (programState st) (programState st')"
    and "\<forall>t \<in> set ts. \<not> isProgressTransition t"
  using assms
proof (atomize (full), induction rule: test_run.induct)
  case (stay st)
  then show ?case by auto
next
  case (go st ts st1 q t st2 st3)
  have same: "programState st3 = programState st2" using go.hyps(6) by (simp add: same_run_def)
  have s1: "sound_state st1" using go.IH go.prems by blast
  note run = runTransition_sound [OF go.hyps(5) s1]
  have "done_grows (programState st) (programState st3)"
    using done_grows_trans run(4) go.IH go.prems by (simp add: same) blast
  then show ?case using go.IH go.prems go.hyps(4) run sound_same [OF go.hyps(6)] by (simp add: same)
qed

lemma test_run_grows:
  assumes "test_run prog opts st ts st'" and "sound_state st"
  shows "grows (programState st) (programState st')"
  using assms
proof (induction rule: test_run.induct)
  case (stay st)
  then show ?case by simp
next
  case (go st ts st1 q t st2 st3)
  have "sound_state st1" by (rule test_run_sound(1) [OF go.hyps(1) go.prems])
  then show ?case using grows_trans [OF go.IH [OF go.prems] runTransition_grows [OF go.hyps(5)]] go.hyps(6)
    by (simp add: same_run_def)
qed

lemma test_run_branches:
  assumes "test_run prog opts st ts st'" and "backtrackSet (last (stateStack (programState st))) = {}"
    and "stateStack (programState st) \<noteq> []"
  shows "map backtrackSet (stateStack (programState st'))
    = map backtrackSet (stateStack (programState st)) @ replicate (length ts) {}"
  using assms
proof (induction rule: test_run.induct)
  case (stay st)
  then show ?case by simp
next
  case (go st ts st1 q t st2 st3)
  have ih: "map backtrackSet (stateStack (programState st1))
      = map backtrackSet (stateStack (programState st)) @ replicate (length ts) {}" using go by simp
  have "stateStack (programState st1) \<noteq> []" using ih go.prems(2) by auto
  then have "backtrackSet (last (stateStack (programState st1)))
      = last (map backtrackSet (stateStack (programState st1)))" by (simp add: last_map)
  also have "\<dots> = {}" using go.prems by (cases ts rule: rev_cases) (simp_all add: ih last_map)
  finally show ?case
    using runTransition_branches [OF go.hyps(5)] go.hyps(6) ih by (simp add: replicate_append_same same_run_def)
qed

section \<open>Steps and cycles\<close>

lemma foldR_reads_last:
  assumes "lastEnabledTransition n s = Inr (Some t)"
  shows "\<exists>q < n. getNextTransitionForThread s q = Inr t \<and> transitionEnabledInState t"
proof -
  let ?P = "\<lambda>nxt. \<forall>t. nxt = Some t \<longrightarrow> (\<exists>q < n. getNextTransitionForThread s q = Inr t \<and> transitionEnabledInState t)"
  have "?P (Some t)"
    by (rule foldR_invariant [OF assms [unfolded lastEnabledTransition_def], where P = ?P])
       (auto simp: result_simps split: if_splits)
  then show ?thesis by simp
qed

lemma firstUnexplored_spec:
  "firstUnexploredEnabled s expl ns = Inr r \<Longrightarrow> (case r of
     None \<Rightarrow> \<forall>q \<in> set ns. \<exists>t. getNextTransitionForThread s q = Inr t \<and> (transitionEnabledInState t \<longrightarrow> q \<in> expl)
   | Some t \<Rightarrow> \<exists>q \<in> set ns. q \<notin> expl \<and> getNextTransitionForThread s q = Inr t \<and> transitionEnabledInState t)"
  by (induction ns) (auto simp: result_simps split: if_splits option.splits)

lemma livelockStep_runs:
  assumes "livelockStep prog opts n c = Inr r" and "well_typed (programState (cycle_state c))"
  shows "case r of Progress st \<Rightarrow> st = cycle_state c
    | Cycle c' \<Rightarrow> \<exists>ts. test_run prog opts (cycle_state c) ts (cycle_state c') \<and> length ts \<le> 1
        \<and> threadIsExplored c' = threadIsExplored c \<union> getThreadId ` set ts"
proof -
  let ?st = "cycle_state c"
  from assms(1) obtain rel q t where t: "getNextTransitionForThread (programState ?st) q = Inr t"
    and r: "(if \<not> transitionEnabledInState t then Inr (Cycle (c\<lparr>threadIsRelated := rel, next_tid := q\<rparr>))
        else if isProgressTransition t then Inr (Progress ?st)
        else bindR (runTransition prog opts t ?st) (\<lambda>st'.
          Inr (Cycle \<lparr>threadIsRelated = rel, threadIsExplored = insert q (threadIsExplored c),
                      next_tid = q, cycle_state = st'\<rparr>))) = Inr r"
    unfolding livelockStep_def Let_def bindR_eq_Inr liftR_eq_Inr by blast
  have own: "getThreadId t = q" using pending_read(1) [OF assms(2) t] .
  show ?thesis
  proof (cases "transitionEnabledInState t \<and> \<not> isProgressTransition t")
    case True
    then obtain st' where "runTransition prog opts t ?st = Inr st'"
      and "r = Cycle \<lparr>threadIsRelated = rel, threadIsExplored = insert q (threadIsExplored c),
                      next_tid = q, cycle_state = st'\<rparr>"
      using r by (auto simp: bindR_eq_Inr)
    then show ?thesis
      using test_run_one(2) [OF t] True own by (auto intro!: exI [of _ "[t]"])
  next
    case False
    then show ?thesis
      using r by (auto split: if_splits intro!: exI [of _ "[]"] test_run.stay)
  qed
qed

lemma livelockLoop_runs:
  assumes "livelockLoop prog opts n is c = Inr r" and "sound_state (cycle_state c)"
  shows "case r of
      Progress st \<Rightarrow> \<exists>ts. test_run prog opts (cycle_state c) ts st \<and> length ts \<le> length is
    | Cycle c' \<Rightarrow> \<exists>ts. test_run prog opts (cycle_state c) ts (cycle_state c') \<and> length ts \<le> length is
        \<and> threadIsExplored c' = threadIsExplored c \<union> getThreadId ` set ts"
  using assms
proof (induction "is" arbitrary: c)
  case Nil
  then show ?case by (auto intro!: exI [of _ "[]"] test_run.stay)
next
  case (Cons i "is")
  from Cons.prems(1) obtain r1 where r1: "livelockStep prog opts n c = Inr r1"
    and rest: "(case r1 of Progress st \<Rightarrow> Inr (Progress st) | Cycle c' \<Rightarrow> livelockLoop prog opts n is c') = Inr r"
    by (auto simp: bindR_eq_Inr)
  note step = livelockStep_runs [OF r1]
  show ?case
  proof (cases r1)
    case (Progress st)
    then show ?thesis
      using step rest Cons.prems(2) by (auto simp: sound_state_def intro!: exI [of _ "[]"] test_run.stay)
  next
    case (Cycle c1)
    then obtain ts where ts: "test_run prog opts (cycle_state c) ts (cycle_state c1)" "length ts \<le> 1"
      "threadIsExplored c1 = threadIsExplored c \<union> getThreadId ` set ts"
      using step Cons.prems(2) by (auto simp: sound_state_def)
    have "livelockLoop prog opts n is c1 = Inr r" using rest Cycle by simp
    note ih = Cons.IH [OF this test_run_sound(1) [OF ts(1) Cons.prems(2)]]
    show ?thesis
    proof (cases r)
      case (Progress st')
      with ih obtain us where "test_run prog opts (cycle_state c1) us st'" "length us \<le> length is" by auto
      then show ?thesis
        using Progress ts(2) test_run_trans [OF _ ts(1)] by (auto intro!: exI [of _ "ts @ us"])
    next
      case (Cycle c')
      with ih obtain us where "test_run prog opts (cycle_state c1) us (cycle_state c')"
        "length us \<le> length is" "threadIsExplored c' = threadIsExplored c1 \<union> getThreadId ` set us" by auto
      then show ?thesis
        using Cycle ts(2,3) test_run_trans [OF _ ts(1)] by (auto intro!: exI [of _ "ts @ us"])
    qed
  qed
qed

text \<open>What a cycle that starts with \<open>t\<close> adds to the trace.\<close>

definition cycle_length :: "int \<Rightarrow> nat" where
  "cycle_length increasedDepth = max 1 (nat increasedDepth)"

lemma livelockCycle_runs:
  assumes "livelockCycle prog opts n d t expl st = Inr r" and "sound_state st"
    and "getNextTransitionForThread (programState st) q = Inr t" and "transitionEnabledInState t"
  shows "case r of
      Progress st' \<Rightarrow> \<exists>ts. test_run prog opts st ts st' \<and> length ts \<le> cycle_length d
    | Cycle c \<Rightarrow> \<exists>ts. test_run prog opts st ts (cycle_state c) \<and> length ts \<le> cycle_length d
        \<and> threadIsExplored c = expl \<union> getThreadId ` set ts \<and> t \<in> set ts"
proof (cases "isProgressTransition t")
  case True
  then show ?thesis using assms(1) by (auto simp: livelockCycle_def intro!: exI [of _ "[]"] test_run.stay)
next
  case False
  let ?c = "\<lambda>st1. \<lparr>threadIsRelated = {getThreadId t}, threadIsExplored = insert (getThreadId t) expl,
     next_tid = getThreadId t, cycle_state = st1\<lparr>transitionId := transitionId st1 + 1\<rparr>\<rparr>"
  from False assms(1) obtain st1 where st1: "runTransition prog opts t st = Inr st1"
    and loop: "livelockLoop prog opts n [1..d - 1] (?c st1) = Inr r"
    by (auto simp: livelockCycle_def bindR_eq_Inr)
  have first: "test_run prog opts st [t] (cycle_state (?c st1))"
    using test_run_one(1) [OF assms(3,4) False st1] by simp
  have len: "Suc (length [1..d - 1]) \<le> cycle_length d" by (auto simp: cycle_length_def)
  show ?thesis
  proof (cases r)
    case (Progress st')
    from livelockLoop_runs [OF loop] Progress test_run_sound(1) [OF first assms(2)] obtain ts where
      "test_run prog opts (cycle_state (?c st1)) ts st'" "length ts \<le> length [1..d - 1]" by auto
    then show ?thesis
      using Progress len test_run_trans [OF _ first] by (auto intro!: exI [of _ "[t] @ ts"])
  next
    case (Cycle c)
    from livelockLoop_runs [OF loop] Cycle test_run_sound(1) [OF first assms(2)] obtain ts where
      "test_run prog opts (cycle_state (?c st1)) ts (cycle_state c)" "length ts \<le> length [1..d - 1]"
      "threadIsExplored c = insert (getThreadId t) expl \<union> getThreadId ` set ts" by auto
    then show ?thesis
      using Cycle len test_run_trans [OF _ first] by (auto intro!: exI [of _ "[t] @ ts"])
  qed
qed

section \<open>The test comes to an end\<close>

lemma runTransition_no_hang:
  assumes "trace_process st \<noteq> None"
  shows "runTransition prog opts t st \<noteq> Inl Hangs"
  using assms
  by (auto simp: runTransition_def mc_run_thread_to_next_visible_operation_def getNextTraceSeqEntry_def
      bindR_eq_Inl Let_def liftR_def guardR_def split: option.splits sum.splits if_splits)

lemma sound_process: "sound_state st \<Longrightarrow> trace_process st \<noteq> None"
  by (simp add: sound_state_def in_step_def)

lemma liftR_no_hang [simp]: "liftR r \<noteq> Inl Hangs"
  by (cases r) simp_all

lemma cycle_case_Inl:
  "(case r of Progress st \<Rightarrow> Inr (f st) | Cycle c \<Rightarrow> g c) = Inl e \<longleftrightarrow> (\<exists>c. r = Cycle c \<and> g c = Inl e)"
  by (cases r) simp_all

lemma option_case_Inl:
  "(case x of None \<Rightarrow> Inr a | Some t \<Rightarrow> g t) = Inl e \<longleftrightarrow> (\<exists>t. x = Some t \<and> g t = Inl e)"
  by (cases x) simp_all

lemma livelockStep_no_hang:
  assumes "sound_state (cycle_state c)"
  shows "livelockStep prog opts n c \<noteq> Inl Hangs"
  using runTransition_no_hang [OF sound_process [OF assms]]
  by (auto simp: livelockStep_def Let_def bindR_eq_Inl split: if_splits)

lemma livelockLoop_no_hang:
  "sound_state (cycle_state c) \<Longrightarrow> livelockLoop prog opts n is c \<noteq> Inl Hangs"
proof (induction "is" arbitrary: c)
  case (Cons i "is")
  show ?case
  proof
    assume "livelockLoop prog opts n (i # is) c = Inl Hangs"
    then obtain c' where "livelockStep prog opts n c = Inr (Cycle c')" "livelockLoop prog opts n is c' = Inl Hangs"
      using livelockStep_no_hang [OF Cons.prems, of prog opts n]
      by (auto simp: bindR_eq_Inl cycle_case_Inl)
    then show False
      using livelockStep_runs [of prog opts n c "Cycle c'"] Cons test_run_sound(1)
      by (fastforce simp: sound_state_def)
  qed
qed simp

lemma livelockCycle_no_hang:
  assumes "sound_state st" and "getNextTransitionForThread (programState st) q = Inr t" and "transitionEnabledInState t"
  shows "livelockCycle prog opts n d t expl st \<noteq> Inl Hangs"
proof
  assume "livelockCycle prog opts n d t expl st = Inl Hangs"
  then obtain st1 where "\<not> isProgressTransition t" "runTransition prog opts t st = Inr st1"
    and hang: "livelockLoop prog opts n [1..d - 1] \<lparr>threadIsRelated = {getThreadId t},
       threadIsExplored = insert (getThreadId t) expl, next_tid = getThreadId t,
       cycle_state = st1\<lparr>transitionId := transitionId st1 + 1\<rparr>\<rparr> = Inl Hangs"
    using runTransition_no_hang [OF sound_process [OF assms(1)]]
    by (auto simp: livelockCycle_def bindR_eq_Inl split: if_splits)
  then have "sound_state st1"
    using runTransition_sound(1) assms(1) by blast
  then show False using livelockLoop_no_hang [OF _ ] hang by (metis livelock_cycle.select_convs(4) sound_tick)
qed

section \<open>A sequence of cycles\<close>

text \<open>
  What the test needs of a cycle, whether or not it may stop early: it runs a thread that is enabled, marks
  what it runs as explored, and comes to an end.
\<close>

locale livelock_test =
  fixes prog :: target_program and opts :: search_options and n :: nat and d :: int
    and cycle :: "transition \<Rightarrow> tid set \<Rightarrow> search_state \<Rightarrow> cycle_result search"
    and cycles :: "nat \<Rightarrow> transition \<Rightarrow> tid set \<Rightarrow> search_state \<Rightarrow> (bool \<times> search_state) search"
  assumes cycle_runs: "cycle t expl st = Inr r \<Longrightarrow> sound_state st \<Longrightarrow>
      getNextTransitionForThread (programState st) q = Inr t \<Longrightarrow> transitionEnabledInState t \<Longrightarrow>
      (case r of
        Progress st' \<Rightarrow> \<exists>ts. test_run prog opts st ts st' \<and> length ts \<le> cycle_length d
      | Cycle c \<Rightarrow> \<exists>ts. test_run prog opts st ts (cycle_state c) \<and> length ts \<le> cycle_length d
          \<and> threadIsExplored c = expl \<union> getThreadId ` set ts \<and> t \<in> set ts)"
    and cycle_no_hang: "sound_state st \<Longrightarrow> getNextTransitionForThread (programState st) q = Inr t \<Longrightarrow>
      transitionEnabledInState t \<Longrightarrow> cycle t expl st \<noteq> Inl Hangs"
    and cycles_rec: "cycles rounds t expl st =
      (if rounds = 0 then Inl Hangs
       else bindR (cycle t expl st) (\<lambda>r. case r of Progress st' \<Rightarrow> Inr (False, st')
        | Cycle c \<Rightarrow>
            bindR (liftR (firstUnexploredEnabled (programState (cycle_state c)) (threadIsExplored c) [0..<n]))
              (\<lambda>nxt. case nxt of
                 None \<Rightarrow> Inr (True, cycle_state c)
               | Some t' \<Rightarrow> cycles (rounds - 1) t' (threadIsExplored c) (cycle_state c))))"
begin

lemma cycles_runs:
  assumes "cycles rounds t expl st = Inr (found, st')" and "sound_state st"
    and "getNextTransitionForThread (programState st) q = Inr t" and "transitionEnabledInState t"
  shows "\<exists>ts. test_run prog opts st ts st' \<and> length ts \<le> rounds * cycle_length d
    \<and> (found \<longrightarrow> ts \<noteq> [] \<and> (\<forall>p < n. \<exists>u. getNextTransitionForThread (programState st') p = Inr u
        \<and> (transitionEnabledInState u \<longrightarrow> p \<in> expl \<union> getThreadId ` set ts)))"
  using assms
proof (induction rounds arbitrary: t expl st q)
  case 0
  then show ?case by (simp add: cycles_rec [of 0])
next
  case (Suc rounds)
  note sound = Suc.prems(2) and reads = Suc.prems(3,4)
  from Suc.prems(1) obtain r where r: "cycle t expl st = Inr r"
    and rest: "(case r of Progress st' \<Rightarrow> Inr (False, st')
        | Cycle c \<Rightarrow>
            bindR (liftR (firstUnexploredEnabled (programState (cycle_state c)) (threadIsExplored c) [0..<n]))
              (\<lambda>nxt. case nxt of
                 None \<Rightarrow> Inr (True, cycle_state c)
               | Some t' \<Rightarrow> cycles rounds t'
                              (threadIsExplored c) (cycle_state c))) = Inr (found, st')"
    by (auto simp: cycles_rec [of "Suc rounds"] bindR_eq_Inr)
  note cycle = cycle_runs [OF r sound reads]
  show ?case
  proof (cases r)
    case (Progress st1)
    then show ?thesis using cycle rest by (auto intro: trans_le_add1)
  next
    case (Cycle c)
    then obtain ts where ts: "test_run prog opts st ts (cycle_state c)" "length ts \<le> cycle_length d"
      "threadIsExplored c = expl \<union> getThreadId ` set ts" "t \<in> set ts" using cycle by auto
    from rest Cycle obtain nxt where
      nxt: "firstUnexploredEnabled (programState (cycle_state c)) (threadIsExplored c) [0..<n] = Inr nxt"
      and go: "(case nxt of None \<Rightarrow> Inr (True, cycle_state c)
               | Some t' \<Rightarrow> cycles rounds t' (threadIsExplored c) (cycle_state c))
        = Inr (found, st')"
      by (auto simp: bindR_eq_Inr liftR_eq_Inr)
    note first = firstUnexplored_spec [OF nxt]
    show ?thesis
    proof (cases nxt)
      case None
      then show ?thesis using go first ts by (auto intro!: exI [of _ ts])
    next
      case (Some t')
      then obtain q' where q': "getNextTransitionForThread (programState (cycle_state c)) q' = Inr t'"
        "transitionEnabledInState t'" using first by auto
      have "cycles rounds t' (threadIsExplored c) (cycle_state c) = Inr (found, st')"
        using go Some by simp
      from Suc.IH [OF this test_run_sound(1) [OF ts(1) sound] q'] obtain us where
        us: "test_run prog opts (cycle_state c) us st'" "length us \<le> rounds * cycle_length d"
        "found \<longrightarrow> us \<noteq> [] \<and> (\<forall>p < n. \<exists>u. getNextTransitionForThread (programState st') p = Inr u
        \<and> (transitionEnabledInState u \<longrightarrow> p \<in> threadIsExplored c \<union> getThreadId ` set us))" by blast
      show ?thesis
        using test_run_trans [OF us(1) ts(1)] us(2,3) ts(2,3) by (intro exI [of _ "ts @ us"]) auto
    qed
  qed
qed

lemma cycles_no_hang:
  assumes "sound_state st" and "getNextTransitionForThread (programState st) q = Inr t"
    and "transitionEnabledInState t" and "q < n" and "q \<notin> expl" and "card ({..<n} - expl) \<le> rounds"
  shows "cycles rounds t expl st \<noteq> Inl Hangs"
  using assms
proof (induction rounds arbitrary: q t expl st)
  case 0
  then show ?case by (auto simp: card_eq_0_iff)
next
  case (Suc rounds)
  note sound = Suc.prems(1) and reads = Suc.prems(2,3)
  have own: "getThreadId t = q" using pending_read(1) [OF _ reads(1)] sound by (simp add: sound_state_def)
  show ?case
  proof
    assume "cycles (Suc rounds) t expl st = Inl Hangs"
    then obtain c t' where c: "cycle t expl st = Inr (Cycle c)"
      and t': "firstUnexploredEnabled (programState (cycle_state c)) (threadIsExplored c) [0..<n] = Inr (Some t')"
      and hang: "cycles rounds t' (threadIsExplored c) (cycle_state c) = Inl Hangs"
      using cycle_no_hang [OF sound reads]
      by (auto simp: cycles_rec [of "Suc rounds"] bindR_eq_Inl liftR_eq_Inr
          cycle_case_Inl option_case_Inl)
    from cycle_runs [OF c sound reads] obtain ts where
      ts: "test_run prog opts st ts (cycle_state c)" "threadIsExplored c = expl \<union> getThreadId ` set ts"
      "t \<in> set ts" by auto
    have q: "q \<in> threadIsExplored c" "expl \<subseteq> threadIsExplored c" using ts(2,3) own by auto
    have "card ({..<n} - threadIsExplored c) < card ({..<n} - expl)"
      by (rule psubset_card_mono) (use q Suc.prems(4,5) in auto)
    then have "card ({..<n} - threadIsExplored c) \<le> rounds" using Suc.prems(6) by simp
    moreover from firstUnexplored_spec [OF t'] obtain q' where "q' < n" "q' \<notin> threadIsExplored c"
      "getNextTransitionForThread (programState (cycle_state c)) q' = Inr t'" "transitionEnabledInState t'" by auto
    ultimately show False
      using Suc.IH [OF test_run_sound(1) [OF ts(1) sound]] hang by blast
  qed
qed

end

interpretation plain: livelock_test prog opts n d "livelockCycle prog opts n d" "livelockCycles prog opts n d"
  for prog opts n d
  by unfold_locales (rule livelockCycle_runs, assumption+, rule livelockCycle_no_hang, assumption+,
    rule livelockCycles.simps)

lemma isInLivelock_runs:
  assumes "isInLivelock prog opts d st = Inr (found, st')" and "sound_state st"
  shows "\<exists>ts. test_run prog opts st ts st' \<and> length ts \<le> getNumProgramThreads (programState st) * cycle_length d
    \<and> (found \<longrightarrow> ts \<noteq> [] \<and> (\<forall>p < getNumProgramThreads (programState st).
        \<exists>u. getNextTransitionForThread (programState st') p = Inr u
        \<and> (transitionEnabledInState u \<longrightarrow> p \<in> getThreadId ` set ts)))"
proof -
  let ?n = "getNumProgramThreads (programState st)"
  from assms(1) obtain t where t: "lastEnabledTransition ?n (programState st) = Inr (Some t)"
    and run: "livelockCycles prog opts ?n d ?n t {} st = Inr (found, st')"
    by (auto simp: isInLivelock_def Let_def bindR_eq_Inr liftR_eq_Inr split: option.splits)
  from foldR_reads_last [OF t] obtain q where "getNextTransitionForThread (programState st) q = Inr t"
    "transitionEnabledInState t" by blast
  from plain.cycles_runs [OF run assms(2) this] show ?thesis by simp
qed

lemma isInLivelock_no_hang:
  assumes "sound_state st"
  shows "isInLivelock prog opts d st \<noteq> Inl Hangs"
proof
  let ?n = "getNumProgramThreads (programState st)"
  assume "isInLivelock prog opts d st = Inl Hangs"
  then obtain t where t: "lastEnabledTransition ?n (programState st) = Inr (Some t)"
    and hang: "livelockCycles prog opts ?n d ?n t {} st = Inl Hangs"
    by (auto simp: isInLivelock_def Let_def bindR_eq_Inl liftR_eq_Inr split: option.splits)
  from foldR_reads_last [OF t] obtain q where "q < ?n" "getNextTransitionForThread (programState st) q = Inr t"
    "transitionEnabledInState t" by blast
  then show False using plain.cycles_no_hang [OF assms, of q t ?n "{}" ?n] hang by simp
qed

section \<open>No thread is enabled\<close>

lemma lastEnabled_None:
  assumes "readable s" and "n \<le> getNumProgramThreads s"
  shows "lastEnabledTransition n s = Inr None \<longleftrightarrow> (\<forall>q < n. \<not> transitionEnabledInState (pending s q))"
    and "\<exists>r. lastEnabledTransition n s = Inr r"
  using assms(2)
proof (atomize (full), induction n)
  case 0
  then show ?case by (simp add: lastEnabledTransition_def)
next
  case (Suc n)
  then have "getNextTransitionForThread s n = Inr (pending s n)" using readable_pending [OF assms(1)] by simp
  moreover have "lastEnabledTransition (Suc n) s = bindR (lastEnabledTransition n s) (\<lambda>nxt.
      bindR (getNextTransitionForThread s n) (\<lambda>t. Inr (if transitionEnabledInState t then Some t else nxt)))"
    by (simp add: lastEnabledTransition_def foldR_snoc del: upt_Suc add: upt_Suc_append)
  ultimately show ?case using Suc by (auto simp: less_Suc_eq split: if_splits)
qed

end
