(* ===== verification/CheckedSearch.thy ===== *)
theory CheckedSearch
  imports LivelockRuns
begin

text \<open>
  The search with the livelock test: an iteration up to the end of the trace, the end with the test,
  and the states such a search reaches (\<open>checked_reachable\<close>), in which the invariants of the search
  hold; without the test its iterations are those of \<open>Search\<close> (\<open>checked_off\<close>).
\<close>

section \<open>An iteration up to the end of the trace\<close>

lemma update_keeps_top:
  assumes "dynamicallyUpdateBacktrackSets iter s = Inr s'" and "iteration_order iter"
    and "items_ok s" and "length (transitionStack s) < length (stateStack s)"
  shows "last (stateStack s') = last (stateStack s)"
proof -
  define k where "k = length (stateStack s) - 1"
  let ?top = "length (transitionStack s) - 1"
  let ?same = "\<lambda>u. items_ok u \<and> length (stateStack u) = Suc k \<and> stateStack u ! k = stateStack s ! k"
  have s: "?same s" using assms(3,4) by (simp add: k_def)
  have helper: "?same (snd (dynamicallyUpdateBacktrackSetsHelper iter x i p u))" if "?same u" and "i < k" for x i p u
  proof -
    have ok: "items_ok u" and i: "i < length (stateStack u)" using that by auto
    have "finite (enabledThreads (stateStack u ! i))" using ok i by (simp add: items_ok_def item_wf_def)
    then have "stateStack (snd (dynamicallyUpdateBacktrackSetsHelper iter x i p u)) ! k = stateStack u ! k"
      using that(2) by (simp add: helper_spec [OF assms(2)] updateStateItem_def)
    then show ?thesis
      using helper_only_backtracking [OF assms(2) ok i, of x p] only_backtracking_length that(1)
      by (metis only_backtracking_def)
  qed
  have down: "?same (backtrackDownLoop iter x p n u)" if "?same u" and "n \<le> k" for x p n u
    using that
  proof (induction n arbitrary: u)
    case (Suc n)
    let ?u = "snd (dynamicallyUpdateBacktrackSetsHelper iter x n p u)"
    have u: "?same ?u" by (rule helper) (use Suc.prems in simp_all)
    have "?same (backtrackDownLoop iter x p n ?u)" by (rule Suc.IH) (use u Suc.prems(2) in simp_all)
    then show ?case using u
      by (cases "dynamicallyUpdateBacktrackSetsHelper iter x n p u") auto
  qed simp
  from assms(1) obtain nxt s1 where ne: "transitionStack s \<noteq> []"
    and s1: "foldR (\<lambda>t s'. bindR (getNextTransitionForThread s' t) (\<lambda>nextSP.
        Inr (snd (dynamicallyUpdateBacktrackSetsHelper iter nextSP ?top t s'))))
        (iter ({0..<getNumProgramThreads s} - {getThreadId (last (transitionStack s))})) s = Inr s1"
    and s': "s' = backtrackDownLoop iter nxt (getThreadId (last (transitionStack s))) ?top s1"
    by (auto simp: dynamicallyUpdateBacktrackSets_def Let_def result_simps)
  have top: "?top < k" using ne assms(4) by (cases "transitionStack s") (auto simp: k_def)
  have "?same s1"
  proof (rule foldR_invariant [OF s1, where P = ?same])
    fix t u u'
    assume u: "?same u" and "bindR (getNextTransitionForThread u t) (\<lambda>nextSP.
        Inr (snd (dynamicallyUpdateBacktrackSetsHelper iter nextSP ?top t u))) = Inr u'"
    then obtain x where "u' = snd (dynamicallyUpdateBacktrackSetsHelper iter x ?top t u)"
      by (auto simp: bindR_eq_Inr)
    then show "?same u'" using helper [OF u top] by simp
  qed (rule s)
  then have "?same s'" unfolding s' using down top by simp
  then show ?thesis
    using s by (metis diff_Suc_1 last_conv_nth length_0_conv nat.simps(3))
qed

lemma choice_sound:
  assumes "iterationToChoice prog opts t st = Inr (nxt, st')" and "iteration_order (set_order prog)"
    and "sound_state st"
  shows "sound_state st'" and "backtrackSet (last (stateStack (programState st'))) = {}"
    and "stateStack (programState st') \<noteq> []"
    and "done_grows (programState st) (programState st')"
proof -
  from assms(1) obtain st1 s st2 where
    st1: "runTransition prog opts t (st\<lparr>transitionId := transitionId st + 1\<rparr>) = Inr st1"
    and s: "dynamicallyUpdateBacktrackSets (set_order prog) (programState st1) = Inr s"
    and st2: "checkDataRace opts (getThreadId t) (st1\<lparr>programState := s\<rparr>) = Inr st2"
    and st': "chooseNextTransition opts t st2 = Inr (nxt, st')"
    by (auto simp: iterationToChoice_def bindR_eq_Inr liftR_eq_Inr)
  have ps: "programState st' = s" "trace_process st' = trace_process st1"
    using checkDataRace_keeps [OF st2] chooseNext_keeps [OF st'] by simp_all
  have sound1: "sound_state st1" using runTransition_sound(1) [OF st1] assms(3) by simp
  then have ok: "search_ok (programState st1)" by (simp add: sound_state_def)
  have lens: "length (transitionStack (programState st1)) < length (stateStack (programState st1))"
    "items_ok (programState st1)" using ok by (simp_all add: search_ok_def clocks_ok_def)
  note upd = update_search_ok [OF s assms(2) ok]
  have "only_backtracking (programState st1) s"
    using update_only_backtracking [OF s assms(2)] lens by simp
  then have "well_typed s"
    using sound1 same_objects_typed only_backtracking_same_objects by (auto simp: sound_state_def)
  then show "sound_state st'"
    using upd(1,3) sound1 ps by (simp add: sound_state_def in_step_def)
  show "stateStack (programState st') \<noteq> []" using upd(4) lens ps by auto
  show "done_grows (programState st) (programState st')"
    using runTransition_sound(4) [OF st1] assms(3) upd(2) ps done_grows_trans by simp
  from st1 have "backtrackSet (last (stateStack (programState st1))) = {}"
  proof (cases rule: runTransition_cases)
    case (1 sched entry handler)
    from 1(4,2) show ?thesis
      by (cases rule: simulateRunningTransition_cases) (simp add: newStackItem_def)
  qed
  then show "backtrackSet (last (stateStack (programState st'))) = {}"
    using update_keeps_top [OF s assms(2) lens(2,1)] ps by simp
qed

section \<open>The end of a trace with the test\<close>

lemma configuration_sound [simp]:
  "sound_state (st\<lparr>programState := increaseMaxTransitionsDepthLimit n (programState st)\<rparr>) = sound_state st"
  "sound_state (st\<lparr>programState := resetMaxTransitionsDepthLimit env (programState st)\<rparr>) = sound_state st"
proof -
  have "same_objects s (s\<lparr>configuration := c\<rparr>)" for s c by (simp add: same_objects_def)
  then have "search_ok (s\<lparr>configuration := c\<rparr>) = search_ok s"
    "well_typed (s\<lparr>configuration := c\<rparr>) = well_typed s" for s c
    using same_objects_typed
    by (simp add: search_ok_def clocks_ok_def items_ok_def irreversible_ok_def, blast)
  then show "sound_state (st\<lparr>programState := increaseMaxTransitionsDepthLimit n (programState st)\<rparr>) = sound_state st"
  "sound_state (st\<lparr>programState := resetMaxTransitionsDepthLimit env (programState st)\<rparr>) = sound_state st"
    by (simp_all add: sound_state_def in_step_def getThreadIdBacktrace_def increaseMaxTransitionsDepthLimit_def
        resetMaxTransitionsDepthLimit_def)
qed

section \<open>The search with the test\<close>

text \<open>The states of a search that may test for livelocks at the end of its traces.\<close>

inductive checked_reachable ::
  "target_program \<Rightarrow> environment \<Rightarrow> search_options \<Rightarrow> stack_configuration \<Rightarrow>
     transition option \<times> search_state \<Rightarrow> bool"
  for prog env opts cfg where
  start: "initialSearch prog cfg = Inr st \<Longrightarrow> prepareBranch FIRST_BRANCH st = Inr (p, st1) \<Longrightarrow>
    beginSearch opts p st1 = Inr (t, st2) \<Longrightarrow> checked_reachable prog env opts cfg (Some t, st2)"
| iterate: "checked_reachable prog env opts cfg (Some t, st) \<Longrightarrow>
    checkedIteration prog env opts t st = Inr r \<Longrightarrow> checked_reachable prog env opts cfg r"
| next_branch: "checked_reachable prog env opts cfg (None, st) \<Longrightarrow> finishBranch opts st = Inr (b, st1) \<Longrightarrow>
    b \<noteq> FIRST_BRANCH \<Longrightarrow> prepareBranch b st1 = Inr (p, st2) \<Longrightarrow> beginSearch opts p st2 = Inr (t, st3) \<Longrightarrow>
    checked_reachable prog env opts cfg (Some t, st3)"

lemma checkForLivelock_cases:
  assumes "checkForLivelock prog env opts st = Inr (hasDeadlock, hasLivelock, st')"
  obtains st1 where "isInLivelock prog opts (cycleLimit env)
      (st\<lparr>programState := increaseMaxTransitionsDepthLimit (cycleLimit env) (programState st)\<rparr>) = Inr (hasLivelock, st1)"
    and "st' = st1\<lparr>programState := resetMaxTransitionsDepthLimit env (programState st1)\<rparr>"
    and "isInDeadlock (programState st') = Inr hasDeadlock"
  using assms by (auto simp: checkForLivelock_def Let_def bindR_eq_Inr liftR_eq_Inr)

lemma checkForLivelock_sound:
  assumes "checkForLivelock prog env opts st = Inr (hasDeadlock, hasLivelock, st')" and "sound_state st"
  shows "sound_state st'"
  using assms(1)
proof (cases rule: checkForLivelock_cases)
  case (1 st1)
  show ?thesis
    using isInLivelock_runs [OF 1(1)] test_run_sound(1) assms(2) 1(2) by auto
qed

lemma sound_update [simp]:
  "sound_state (addResult r st) = sound_state st"
  by (simp add: sound_state_def in_step_def)

definition sound_end :: "transition option \<Rightarrow> search_state \<Rightarrow> bool" where
  "sound_end nxt st \<longleftrightarrow> (if nxt = None then search_ok (programState st) \<and> well_typed (programState st)
     \<and> trace_process st = None else sound_state st)"

lemma reportErrors_ends:
  assumes "reportErrors opts nxt (hasDeadlock, hasLivelock, st) = Inr (nxt', st')"
  shows "nxt' = nxt" and "trace_process st' = None" and "programState st' = programState st"
  using assms by (auto simp: reportErrors_def Let_def split: if_splits)

lemma endChecked_parts:
  assumes "endCheckedTrace prog env opts nxt st = Inr (nxt', st')" and "sound_state st"
  obtains deadlock hasDeadlock hasLivelock u where "isInDeadlock (programState st) = Inr deadlock"
    and "sound_state u" and "nxt' = (if deadlock \<and> nxt \<noteq> None then None else nxt)"
    and "programState st' = programState u" and "trace_process st' = None"
proof -
  define st1 where "st1 = (\<lambda>deadlock. if deadlock \<and> nxt \<noteq> None then addResult TruncatedTraceSeq st else st)"
  define nxt1 where "nxt1 = (\<lambda>deadlock. if deadlock \<and> nxt \<noteq> None then None else nxt)"
  from assms(1) obtain deadlock found where d: "isInDeadlock (programState st) = Inr deadlock"
    and found: "(if is_set env ENV_CHECK_FOR_LIVELOCK \<and> nxt1 deadlock = None
        then checkForLivelock prog env opts (st1 deadlock) else Inr (deadlock, False, st1 deadlock)) = Inr found"
    and report: "reportErrors opts (nxt1 deadlock) found = Inr (nxt', st')"
    unfolding endCheckedTrace_def Let_def bindR_eq_Inr liftR_eq_Inr st1_def nxt1_def by blast
  obtain hd hl u where f: "found = (hd, hl, u)" by (cases found)
  have "sound_state (st1 deadlock)" using assms(2) by (simp add: st1_def)
  then have "sound_state u"
    using found checkForLivelock_sound by (auto simp: f split: if_splits)
  then show thesis
    using that [OF d] reportErrors_ends [OF report [unfolded f]] by (simp add: nxt1_def)
qed

lemma finishChecked_sound:
  assumes "finishCheckedTrace prog env opts nxt st = Inr (nxt', st')" and "sound_state st"
  shows "sound_end nxt' st'" and "nxt' \<noteq> None \<Longrightarrow> nxt' = nxt \<and> st' = st"
proof -
  from assms(1) obtain ends where ends: "(if nxt = None then Inr True
      else if traceSeqLength opts > 0 then isInDeadlock (programState st) else Inr False) = Inr ends"
    and go: "(if \<not> ends then Inr (nxt, st) else endCheckedTrace prog env opts nxt st) = Inr (nxt', st')"
    unfolding finishCheckedTrace_def bindR_eq_Inr liftR_eq_Inr by blast
  have "sound_end nxt' st' \<and> (nxt' \<noteq> None \<longrightarrow> nxt' = nxt \<and> st' = st)"
  proof (cases ends)
    case False
    then show ?thesis using ends go assms(2) by (auto simp: sound_end_def split: if_splits)
  next
    case True
    then have "endCheckedTrace prog env opts nxt st = Inr (nxt', st')" using go by simp
    from endChecked_parts [OF this assms(2)] obtain deadlock u where
      "isInDeadlock (programState st) = Inr deadlock" "sound_state u"
      "nxt' = (if deadlock \<and> nxt \<noteq> None then None else nxt)"
      "programState st' = programState u" "trace_process st' = None" by blast
    then show ?thesis
      using ends True by (auto simp: sound_end_def sound_state_def split: if_splits)
  qed
  then show "sound_end nxt' st'" "nxt' \<noteq> None \<Longrightarrow> nxt' = nxt \<and> st' = st" by auto
qed

lemma checked_reachable_sound:
  assumes "checked_reachable prog env opts cfg (nxt, st)" and "iteration_order (set_order prog)"
  shows "sound_end nxt st"
  using assms(1)
proof (induction "(nxt, st)" arbitrary: nxt st rule: checked_reachable.induct)
  case (start st0 p st1 t st)
  then show ?case
    using first_branch_ok [OF start(1,2)] initial_typed [OF start(1)] beginSearch_keeps [OF start(3)]
    by (simp add: sound_end_def sound_state_def in_step_def)
next
  case (iterate t st0)
  then obtain nxt1 st1 where c: "iterationToChoice prog opts t st0 = Inr (nxt1, st1)"
    and f: "finishCheckedTrace prog env opts nxt1 st1 = Inr (nxt, st)"
    by (auto simp: checkedIteration_def bindR_eq_Inr)
  have "sound_state st0" using iterate(2) by (simp add: sound_end_def)
  from finishChecked_sound(1) [OF f choice_sound(1) [OF c assms(2) this]] show ?case .
next
  case (next_branch st0 b st1 p st2 t st)
  have ok: "search_ok (programState st1)" "well_typed (programState st1)"
    using next_branch(2) finishBranch_keeps(1) [OF next_branch(3)] by (simp_all add: sound_end_def)
  from branch_ok(1,2) [OF next_branch(5,4) ok(1)] branch_typed [OF next_branch(5,4) ok(2)] show ?case
    using beginSearch_keeps [OF next_branch(6)] by (simp add: sound_end_def sound_state_def in_step_def)
qed

lemma checked_off: "\<not> is_set env ENV_CHECK_FOR_LIVELOCK \<Longrightarrow> checkedIteration prog env opts t st = searchIteration prog opts t st"
proof -
  assume off: "\<not> is_set env ENV_CHECK_FOR_LIVELOCK"
  have "finishCheckedTrace prog env opts nxt st = finishTrace opts nxt st" for nxt st
    using off by (auto simp: finishCheckedTrace_def finishTrace_def endCheckedTrace_def reportErrors_def Let_def
      bindR_def split: sum.splits)
  then show ?thesis by (simp add: checkedIteration_def searchIteration_choice)
qed

lemma deepest_map: "getDeepestDPORBranchPoint s = getDeepestDPORBranchPoint s'"
  if "map backtrackSet (stateStack s') = map backtrackSet (stateStack s) @ replicate n {}"
proof -
  have d: "deepestBranchLoop xs k = deepestBranchLoop ys k"
    if "\<forall>j < k. backtrackSet (xs ! j) = backtrackSet (ys ! j)" for xs ys k
    using that by (induction k) (auto simp: hasThreadsToBacktrackOn_def)
  have len: "length (stateStack s') = length (stateStack s) + n"
    using arg_cong [OF that, of length] by simp
  have b: "backtrackSet (stateStack s' ! j) = (if j < length (stateStack s) then backtrackSet (stateStack s ! j) else {})"
    if "j < length (stateStack s) + n" for j
    using arg_cong [OF \<open>map _ _ = _\<close>, of "\<lambda>l. l ! j"] len that by (simp add: nth_append split: if_splits)
  have "deepestBranchLoop (stateStack s') (length (stateStack s) + k) = deepestBranchLoop (stateStack s') (length (stateStack s))"
    if "k \<le> n" for k
    using that b by (induction k) (auto simp: hasThreadsToBacktrackOn_def)
  then show ?thesis
    using d [of "length (stateStack s)" "stateStack s'" "stateStack s"] b len
    by (simp add: getDeepestDPORBranchPoint_def)
qed

end
