(* ===== verification/LivelockProperties.thy ===== *)
theory LivelockProperties
  imports CheckedSearch Demo
begin

text \<open>The properties of the livelock test, with small programs it is run on.\<close>

lemma getNext_configuration [simp]:
  "getNextTransitionForThread (s\<lparr>configuration := c\<rparr>) q = getNextTransitionForThread s q"
  "getNumProgramThreads (s\<lparr>configuration := c\<rparr>) = getNumProgramThreads s"
  using getNext_same_objects [of s "s\<lparr>configuration := c\<rparr>"]
  by (simp_all add: same_objects_def getNumProgramThreads_def)

lemma limits_keep [simp]:
  "getNextTransitionForThread (increaseMaxTransitionsDepthLimit n s) q = getNextTransitionForThread s q"
  "getNextTransitionForThread (resetMaxTransitionsDepthLimit env s) q = getNextTransitionForThread s q"
  "getNumProgramThreads (increaseMaxTransitionsDepthLimit n s) = getNumProgramThreads s"
  "transitionStack (increaseMaxTransitionsDepthLimit n s) = transitionStack s"
  "transitionStack (resetMaxTransitionsDepthLimit env s) = transitionStack s"
  "stateStack (increaseMaxTransitionsDepthLimit n s) = stateStack s"
  "stateStack (resetMaxTransitionsDepthLimit env s) = stateStack s"
  by (simp_all add: increaseMaxTransitionsDepthLimit_def resetMaxTransitionsDepthLimit_def)

lemma deepest_limits [simp]:
  "getDeepestDPORBranchPoint (increaseMaxTransitionsDepthLimit n s) = getDeepestDPORBranchPoint s"
  "getDeepestDPORBranchPoint (resetMaxTransitionsDepthLimit env s) = getDeepestDPORBranchPoint s"
  by (simp_all add: getDeepestDPORBranchPoint_def)

lemma trace_end_sound:
  assumes "checked_reachable prog env opts cfg (Some t, st)" and "iteration_order (set_order prog)"
    and "iterationToChoice prog opts t st = Inr (nxt, st1)"
  shows "sound_state st1" and "backtrackSet (last (stateStack (programState st1))) = {}"
    and "stateStack (programState st1) \<noteq> []"
  using choice_sound [OF assms(3,2)] checked_reachable_sound [OF assms(1,2)] by (simp_all add: sound_end_def)


section \<open>Example programs\<close>

text \<open>One thread that reads a variable for ever, one that reports progress for ever, and one that waits for itself.\<close>

definition spin_program :: target_program where
  "spin_program = (script_program (\<lambda>_. []))\<lparr>stops_at := (\<lambda>_. OpGlobalRead 60)\<rparr>"

definition progress_program :: target_program where
  "progress_program = (script_program (\<lambda>_. []))\<lparr>stops_at := (\<lambda>_. OpProgress)\<rparr>"

definition join_program :: target_program where
  "join_program = (script_program (\<lambda>_. []))\<lparr>stops_at := (\<lambda>_. OpThreadJoin 100)\<rparr>"

definition livelock_environment :: environment where
  "livelock_environment = (\<lambda>x. if x = ENV_CHECK_FOR_LIVELOCK then Some ''1'' else None)"

definition no_depth :: stack_configuration where
  "no_depth = \<lparr>maxThreadExecutionDepth = 1500, maxTotalTransitionsDepthLimit = 0\<rparr>"

definition at_trace_end ::
  "target_program \<Rightarrow> (transition \<Rightarrow> search_state \<Rightarrow> search_state \<Rightarrow> bool) \<Rightarrow> bool" where
  "at_trace_end prog P = (case search_after prog default_options no_depth 0 of
     Inl e \<Rightarrow> False
   | Inr (nxt, st) \<Rightarrow> (case nxt of None \<Rightarrow> False
       | Some t \<Rightarrow> (case iterationToChoice prog default_options t st of
             Inl e \<Rightarrow> False | Inr (nxt1, st1) \<Rightarrow> nxt1 = None \<and> P t st st1)))"

lemma start_checked_reachable:
  "search_after prog opts cfg 0 = Inr r \<Longrightarrow> checked_reachable prog env opts cfg r"
  by (auto simp: search_after_def bindR_eq_Inr intro: checked_reachable.start)

lemma at_trace_end_mono:
  assumes "at_trace_end prog P"
    and "\<And>t st st1. checked_reachable prog livelock_environment default_options no_depth (Some t, st) \<Longrightarrow>
      iterationToChoice prog default_options t st = Inr (None, st1) \<Longrightarrow> P t st st1 \<Longrightarrow> Q t st st1"
  shows "at_trace_end prog Q"
  using assms start_checked_reachable [of prog default_options no_depth _ livelock_environment]
  unfolding at_trace_end_def by (auto split: sum.splits prod.splits option.splits)

lemma spin_livelock: "at_trace_end spin_program (\<lambda>t st st1.
    case checkForLivelock spin_program livelock_environment default_options st1 of
      Inl e \<Rightarrow> False
    | Inr (hasDeadlock, hasLivelock, st2) \<Rightarrow> \<not> hasDeadlock \<and> hasLivelock
        \<and> length (transitionStack (programState st2)) = length (transitionStack (programState st1)) + 5)"
  by code_simp

lemma progress_no_livelock: "at_trace_end progress_program (\<lambda>t st st1.
    case checkForLivelock progress_program livelock_environment default_options st1 of
      Inl e \<Rightarrow> False | Inr (hasDeadlock, hasLivelock, st2) \<Rightarrow> \<not> hasDeadlock \<and> \<not> hasLivelock)"
  by code_simp

lemma join_deadlock: "at_trace_end join_program (\<lambda>t st st1. isInDeadlock (programState st1) = Inr True)"
  by code_simp

lemma program_orders [simp]: "iteration_order (set_order spin_program)" "iteration_order (set_order join_program)"
  by (simp_all add: spin_program_def join_program_def script_program_def iteration_order_def)

section \<open>Properties\<close>

text \<open>
  C21. The livelock test at the end of a trace never runs or waits for ever, in any state of a
  search with the test: each cycle explores a thread no cycle before has explored, and the
  target process is there.
\<close>

theorem livelock_test_ends:
  assumes "checked_reachable prog env opts cfg (Some t, st)" and "iteration_order (set_order prog)"
    and "iterationToChoice prog opts t st = Inr (None, st1)"
  shows "checkForLivelock prog env opts st1 \<noteq> Inl Hangs"
  using isInLivelock_no_hang trace_end_sound(1) [OF assms]
  by (auto simp: checkForLivelock_def Let_def bindR_eq_Inl)

theorem livelock_test_ends_witness:
  "at_trace_end spin_program (\<lambda>t st st1.
     checkForLivelock spin_program livelock_environment default_options st1 \<noteq> Inl Hangs)"
  using spin_livelock by (rule at_trace_end_mono) (rule livelock_test_ends, assumption, simp, assumption)


lemma spin_found: "at_trace_end spin_program (\<lambda>t st st1. \<exists>hasDeadlock st2.
    checkForLivelock spin_program livelock_environment default_options st1 = Inr (hasDeadlock, True, st2))"
  using spin_livelock by (rule at_trace_end_mono) (auto split: sum.splits)


text \<open>
  C23. The livelock test does not disturb the search: afterwards the deepest branch point is the
  one of the trace, and the target has run exactly the transitions of the model.
\<close>

theorem livelock_test_keeps_the_branches:
  assumes "checked_reachable prog env opts cfg (Some t, st)" and "iteration_order (set_order prog)"
    and "iterationToChoice prog opts t st = Inr (None, st1)"
    and "checkForLivelock prog env opts st1 = Inr (hasDeadlock, hasLivelock, st2)"
  shows "getDeepestDPORBranchPoint (programState st2) = getDeepestDPORBranchPoint (programState st1)
    \<and> trace_process st2 = Some (map getThreadId (transitionStack (programState st2)))"
proof -
  note st1 = trace_end_sound [OF assms(1-3)]
  from assms(4) obtain u where
    u: "isInLivelock prog opts (cycleLimit env)
      (st1\<lparr>programState := increaseMaxTransitionsDepthLimit (cycleLimit env) (programState st1)\<rparr>) = Inr (hasLivelock, u)"
    and st2: "st2 = u\<lparr>programState := resetMaxTransitionsDepthLimit env (programState u)\<rparr>"
    by (rule checkForLivelock_cases)
  from isInLivelock_runs [OF u] st1(1) obtain ts where
    "test_run prog opts (st1\<lparr>programState := increaseMaxTransitionsDepthLimit (cycleLimit env) (programState st1)\<rparr>) ts u"
    by auto
  from deepest_map [OF test_run_branches [OF this]] st1(2,3) have
    "getDeepestDPORBranchPoint (programState st2) = getDeepestDPORBranchPoint (programState st1)"
    by (simp add: st2)
  moreover have "in_step st2" using checkForLivelock_sound [OF assms(4) st1(1)] by (simp add: sound_state_def)
  ultimately show ?thesis by (simp add: in_step_def getThreadIdBacktrace_def)
qed

theorem livelock_test_keeps_the_branches_witness:
  "at_trace_end spin_program (\<lambda>t st st1. \<exists>d st2.
     checkForLivelock spin_program livelock_environment default_options st1 = Inr (d, True, st2)
     \<and> getDeepestDPORBranchPoint (programState st2) = getDeepestDPORBranchPoint (programState st1)
     \<and> trace_process st2 = Some (map getThreadId (transitionStack (programState st2))))"
  using spin_found
  by (rule at_trace_end_mono)
     (use livelock_test_keeps_the_branches [OF _ program_orders(1)] in blast)

text \<open>
  C24. With the livelock test switched on, a trace that ends in a deadlock is not reported: no
  thread is enabled, so the test reads the pointer nextTransition without having assigned it.
\<close>

theorem deadlock_breaks_the_livelock_test:
  assumes "checked_reachable prog env opts cfg (Some t, st)" and "iteration_order (set_order prog)"
    and "iterationToChoice prog opts t st = Inr (None, st1)"
    and "isInDeadlock (programState st1) = Inr True" and "env ENV_CHECK_FOR_LIVELOCK \<noteq> None"
  shows "checkedIteration prog env opts t st = Inl (Aborted UninitializedRead)"
proof -
  let ?s = "increaseMaxTransitionsDepthLimit (cycleLimit env) (programState st1)"
  let ?n = "getNumProgramThreads (programState st1)"
  have read: "readable (programState st1)"
    using trace_end_sound(1) [OF assms(1-3)] well_typed_readable by (simp add: sound_state_def)
  then have "\<forall>q < ?n. \<not> transitionEnabledInState (pending (programState st1) q)"
    using assms(4) by (simp add: deadlock_spec stuck_def)
  then have "lastEnabledTransition ?n (programState st1) = Inr None"
    using lastEnabled_None(1) [OF read] by simp
  then have "lastEnabledTransition ?n ?s = Inr None" by (simp add: lastEnabledTransition_def)
  then have "checkForLivelock prog env opts st1 = Inl (Aborted UninitializedRead)"
    by (simp add: checkForLivelock_def isInLivelock_def Let_def)
  then show ?thesis
    using assms(3-5) by (auto simp: checkedIteration_def finishCheckedTrace_def endCheckedTrace_def)
qed

theorem deadlock_breaks_the_livelock_test_witness:
  "at_trace_end join_program (\<lambda>t st st1.
     checkedIteration join_program livelock_environment default_options t st = Inl (Aborted UninitializedRead))"
  using join_deadlock
  by (rule at_trace_end_mono)
     (rule deadlock_breaks_the_livelock_test, assumption, simp, assumption, assumption, simp add: livelock_environment_def)

end
