(* ===== verification/UniqueRep.thy ===== *)
theory UniqueRep
  imports Livelock
begin

text \<open>
  The unique representations of transitions (\<^verbatim>\<open>toUniqueRep\<close>, \<^verbatim>\<open>MCTransitionUniqueRep\<close> in
  \<^verbatim>\<open>include/MCTransition.h\<close>) and the test with which a livelock test compiled with early stopping
  recognises a state it has been in (\<^verbatim>\<open>stateIsRevisited\<close>, \<^verbatim>\<open>canStopSafely\<close>, \<^verbatim>\<open>MCObjectEquals\<close>).

  The two words of the union \<^verbatim>\<open>param\<close> are numbers.  A variable sets the first only, by its address;
  \<open>junk\<close> is what the second holds then.  \<open>hadWaiters\<close> is the flag that the constructor of a signal or
  broadcast sets.
\<close>

section \<open>Representations\<close>

datatype MCTransitionType =
    MC_NO_TRANSITION
  | MC_COND_INIT
  | MC_COND_WAIT
  | MC_COND_BROADCAST
  | MC_COND_SIGNAL
  | MC_COND_ENQUEUE
  | MC_THREAD_CREATE
  | MC_THREAD_START
  | MC_THREAD_JOIN
  | MC_THREAD_FINISH
  | MC_SEM_POST
  | MC_SEM_WAIT
  | MC_SEM_ENQUEUE
  | MC_SEM_INIT
  | MC_RW_LOCK_INIT
  | MC_RW_LOCK_WRITER_LOCK
  | MC_RW_LOCK_UNLOCK
  | MC_RW_LOCK_WRITER_ENQUEUE
  | MC_RW_LOCK_READER_LOCK
  | MC_RW_LOCK_READER_ENQUEUE
  | MC_MUTEX_UNLOCK
  | MC_MUTEX_INIT
  | MC_MUTEX_LOCK
  | MC_MUTEX_TRYLOCK
  | MC_BARRIER_WAIT
  | MC_BARRIER_ENQUEUE
  | MC_BARRIER_INIT
  | MC_RWW_LOCK_WRITER_2_LOCK
  | MC_RWW_LOCK_READER_LOCK
  | MC_RWW_LOCK_UNLOCK
  | MC_RWW_LOCK_WRITER_1_LOCK
  | MC_RWW_LOCK_INIT
  | MC_RWW_LOCK_WRITER_2_ENQUEUE
  | MC_RWW_LOCK_READER_ENQUEUE
  | MC_RWW_LOCK_WRITER_1_ENQUEUE
  | MC_GLOBAL_VARIABLE_WRITE
  | MC_GLOBAL_VARIABLE_READ
  | MC_ABORT_TRANSITION
  | MC_EXIT_TRANSITION
  | MC_PROGRESS_TRANSITION

record unique_rep =
  typeId :: MCTransitionType
  rep_threadId :: tid
  rep_param :: "nat \<times> nat"

definition uniqueRepEqual :: "unique_rep \<Rightarrow> unique_rep \<Rightarrow> bool" where
  "uniqueRepEqual a b \<longleftrightarrow>
     typeId b = typeId a \<and> rep_threadId b = rep_threadId a \<and> rep_param a = rep_param b"

definition UINT_MAX :: nat where
  "UINT_MAX = 4294967295"

text \<open>The \<^verbatim>\<open>typeid\<close> of visible objects, and the place of an object among those of its class.\<close>

fun same_typeid :: "visible_object \<Rightarrow> visible_object \<Rightarrow> bool" where
  "same_typeid (VThread _) (VThread _) = True"
| "same_typeid (VMutex _) (VMutex _) = True"
| "same_typeid (VSemaphore _) (VSemaphore _) = True"
| "same_typeid (VCond _) (VCond _) = True"
| "same_typeid (VBarrier _) (VBarrier _) = True"
| "same_typeid (VRWLock _) (VRWLock _) = True"
| "same_typeid (VRWWLock _) (VRWWLock _) = True"
| "same_typeid (VGlobal _) (VGlobal _) = True"
| "same_typeid _ _ = False"

definition countVisibleObjectsOfType :: "object_store \<Rightarrow> objid \<Rightarrow> nat result" where
  "countVisibleObjectsOfType st objectId =
     bindR (getObjectWithId objectId st) (\<lambda>v.
       Inr (length (filter (\<lambda>i. same_typeid (fst (storage st ! i)) v) [0..<Suc objectId])))"

definition newRep :: "MCTransitionType \<Rightarrow> mcthread \<Rightarrow> nat \<Rightarrow> nat \<Rightarrow> unique_rep result" where
  "newRep ty th a b = Inr \<lparr>typeId = ty, rep_threadId = thread_tid th, rep_param = (a, b)\<rparr>"

definition objectRep ::
  "object_store \<Rightarrow> MCTransitionType \<Rightarrow> mcthread \<Rightarrow> objid \<Rightarrow> nat \<Rightarrow> unique_rep result" where
  "objectRep st ty th i b = bindR (countVisibleObjectsOfType st i) (\<lambda>a. newRep ty th a b)"

definition objectsRep ::
  "object_store \<Rightarrow> MCTransitionType \<Rightarrow> mcthread \<Rightarrow> objid \<Rightarrow> objid option \<Rightarrow> unique_rep result" where
  "objectsRep st ty th i j =
     bindR (countVisibleObjectsOfType st i) (\<lambda>a. case j of None \<Rightarrow> Inl NullDereference
      | Some m \<Rightarrow> bindR (countVisibleObjectsOfType st m) (\<lambda>b. newRep ty th a b))"

definition MCThreadStart_toUniqueRep :: "mcthread \<Rightarrow> unique_rep result" where
  "MCThreadStart_toUniqueRep th =
     newRep MC_THREAD_START th UINT_MAX UINT_MAX"

definition MCThreadFinish_toUniqueRep :: "mcthread \<Rightarrow> unique_rep result" where
  "MCThreadFinish_toUniqueRep th =
     newRep MC_THREAD_FINISH th UINT_MAX UINT_MAX"

definition MCThreadCreate_toUniqueRep :: "mcthread \<Rightarrow> mcthread \<Rightarrow> unique_rep result" where
  "MCThreadCreate_toUniqueRep th target =
     newRep MC_THREAD_CREATE th (thread_tid target) UINT_MAX"

definition MCThreadJoin_toUniqueRep :: "mcthread \<Rightarrow> mcthread \<Rightarrow> unique_rep result" where
  "MCThreadJoin_toUniqueRep th target =
     newRep MC_THREAD_JOIN th (thread_tid target) UINT_MAX"

definition MCMutexInit_toUniqueRep :: "object_store \<Rightarrow> mcthread \<Rightarrow> mcmutex \<Rightarrow> unique_rep result" where
  "MCMutexInit_toUniqueRep st th m =
     objectRep st MC_MUTEX_INIT th (mutex_id m) UINT_MAX"

definition MCMutexLock_toUniqueRep :: "object_store \<Rightarrow> mcthread \<Rightarrow> mcmutex \<Rightarrow> unique_rep result" where
  "MCMutexLock_toUniqueRep st th m =
     objectRep st MC_MUTEX_LOCK th (mutex_id m) UINT_MAX"

definition MCMutexTrylock_toUniqueRep :: "object_store \<Rightarrow> mcthread \<Rightarrow> mcmutex \<Rightarrow> unique_rep result" where
  "MCMutexTrylock_toUniqueRep st th m =
     objectRep st MC_MUTEX_TRYLOCK th (mutex_id m) UINT_MAX"

definition MCMutexUnlock_toUniqueRep :: "object_store \<Rightarrow> mcthread \<Rightarrow> mcmutex \<Rightarrow> unique_rep result" where
  "MCMutexUnlock_toUniqueRep st th m =
     objectRep st MC_MUTEX_UNLOCK th (mutex_id m) UINT_MAX"

definition MCSemInit_toUniqueRep :: "object_store \<Rightarrow> mcthread \<Rightarrow> mcsem \<Rightarrow> unique_rep result" where
  "MCSemInit_toUniqueRep st th s =
     objectRep st MC_SEM_INIT th (sem_id s) (unat (sem_count s))"

definition MCSemPost_toUniqueRep :: "object_store \<Rightarrow> mcthread \<Rightarrow> mcsem \<Rightarrow> unique_rep result" where
  "MCSemPost_toUniqueRep st th s =
     objectRep st MC_SEM_POST th (sem_id s) UINT_MAX"

definition MCSemEnqueue_toUniqueRep :: "object_store \<Rightarrow> mcthread \<Rightarrow> mcsem \<Rightarrow> unique_rep result" where
  "MCSemEnqueue_toUniqueRep st th s =
     objectRep st MC_SEM_ENQUEUE th (sem_id s) UINT_MAX"

definition MCSemWait_toUniqueRep :: "object_store \<Rightarrow> mcthread \<Rightarrow> mcsem \<Rightarrow> unique_rep result" where
  "MCSemWait_toUniqueRep st th s =
     objectRep st MC_SEM_WAIT th (sem_id s) UINT_MAX"

definition MCCondInit_toUniqueRep :: "object_store \<Rightarrow> mcthread \<Rightarrow> mccond \<Rightarrow> unique_rep result" where
  "MCCondInit_toUniqueRep st th c =
     objectRep st MC_COND_INIT th (cond_id c) UINT_MAX"

definition MCCondSignal_toUniqueRep :: "object_store \<Rightarrow> mcthread \<Rightarrow> mccond \<Rightarrow> bool \<Rightarrow> unique_rep result" where
  "MCCondSignal_toUniqueRep st th c hadWaiters =
     objectRep st MC_COND_SIGNAL th (cond_id c) (if hadWaiters then 0 else 1)"

definition MCCondBroadcast_toUniqueRep :: "object_store \<Rightarrow> mcthread \<Rightarrow> mccond \<Rightarrow> bool \<Rightarrow> unique_rep result" where
  "MCCondBroadcast_toUniqueRep st th c hadWaiters =
     objectRep st MC_COND_BROADCAST th (cond_id c) (if hadWaiters then 0 else 1)"

definition MCCondEnqueue_toUniqueRep :: "object_store \<Rightarrow> mcthread \<Rightarrow> mcmutex \<Rightarrow> mccond \<Rightarrow> unique_rep result" where
  "MCCondEnqueue_toUniqueRep st th m c =
     objectsRep st MC_COND_ENQUEUE th (cond_id c) (Some (mutex_id m))"

definition MCCondWait_toUniqueRep :: "object_store \<Rightarrow> mcthread \<Rightarrow> mccond \<Rightarrow> unique_rep result" where
  "MCCondWait_toUniqueRep st th c =
     objectsRep st MC_COND_WAIT th (cond_id c) (cond_mutex c)"

definition MCBarrierInit_toUniqueRep :: "object_store \<Rightarrow> mcthread \<Rightarrow> mcbarrier \<Rightarrow> unique_rep result" where
  "MCBarrierInit_toUniqueRep st th b =
     objectRep st MC_BARRIER_INIT th (barrier_id b) (unat (barrier_waitCount b))"

definition MCBarrierEnqueue_toUniqueRep :: "object_store \<Rightarrow> mcthread \<Rightarrow> mcbarrier \<Rightarrow> unique_rep result" where
  "MCBarrierEnqueue_toUniqueRep st th b =
     objectRep st MC_BARRIER_ENQUEUE th (barrier_id b) UINT_MAX"

definition MCBarrierWait_toUniqueRep :: "object_store \<Rightarrow> mcthread \<Rightarrow> mcbarrier \<Rightarrow> unique_rep result" where
  "MCBarrierWait_toUniqueRep st th b =
     objectRep st MC_BARRIER_WAIT th (barrier_id b) UINT_MAX"

definition MCRWLockInit_toUniqueRep :: "object_store \<Rightarrow> mcthread \<Rightarrow> mcrwlock \<Rightarrow> unique_rep result" where
  "MCRWLockInit_toUniqueRep st th l =
     objectRep st MC_RW_LOCK_INIT th (rw_id l) UINT_MAX"

definition MCRWLockReaderEnqueue_toUniqueRep :: "object_store \<Rightarrow> mcthread \<Rightarrow> mcrwlock \<Rightarrow> unique_rep result" where
  "MCRWLockReaderEnqueue_toUniqueRep st th l =
     objectRep st MC_RW_LOCK_READER_ENQUEUE th (rw_id l) UINT_MAX"

definition MCRWLockReaderLock_toUniqueRep :: "object_store \<Rightarrow> mcthread \<Rightarrow> mcrwlock \<Rightarrow> unique_rep result" where
  "MCRWLockReaderLock_toUniqueRep st th l =
     objectRep st MC_RW_LOCK_READER_LOCK th (rw_id l) UINT_MAX"

definition MCRWLockWriterEnqueue_toUniqueRep :: "object_store \<Rightarrow> mcthread \<Rightarrow> mcrwlock \<Rightarrow> unique_rep result" where
  "MCRWLockWriterEnqueue_toUniqueRep st th l =
     objectRep st MC_RW_LOCK_WRITER_ENQUEUE th (rw_id l) UINT_MAX"

definition MCRWLockWriterLock_toUniqueRep :: "object_store \<Rightarrow> mcthread \<Rightarrow> mcrwlock \<Rightarrow> unique_rep result" where
  "MCRWLockWriterLock_toUniqueRep st th l =
     objectRep st MC_RW_LOCK_WRITER_LOCK th (rw_id l) UINT_MAX"

definition MCRWLockUnlock_toUniqueRep :: "object_store \<Rightarrow> mcthread \<Rightarrow> mcrwlock \<Rightarrow> unique_rep result" where
  "MCRWLockUnlock_toUniqueRep st th l =
     objectRep st MC_RW_LOCK_UNLOCK th (rw_id l) UINT_MAX"

definition MCRWWLockInit_toUniqueRep :: "object_store \<Rightarrow> mcthread \<Rightarrow> mcrwwlock \<Rightarrow> unique_rep result" where
  "MCRWWLockInit_toUniqueRep st th l =
     objectRep st MC_RWW_LOCK_INIT th (rww_id l) UINT_MAX"

definition MCRWWLockReaderEnqueue_toUniqueRep :: "object_store \<Rightarrow> mcthread \<Rightarrow> mcrwwlock \<Rightarrow> unique_rep result" where
  "MCRWWLockReaderEnqueue_toUniqueRep st th l =
     objectRep st MC_RWW_LOCK_READER_ENQUEUE th (rww_id l) UINT_MAX"

definition MCRWWLockReaderLock_toUniqueRep :: "object_store \<Rightarrow> mcthread \<Rightarrow> mcrwwlock \<Rightarrow> unique_rep result" where
  "MCRWWLockReaderLock_toUniqueRep st th l =
     objectRep st MC_RWW_LOCK_READER_LOCK th (rww_id l) UINT_MAX"

definition MCRWWLockWriter1Enqueue_toUniqueRep :: "object_store \<Rightarrow> mcthread \<Rightarrow> mcrwwlock \<Rightarrow> unique_rep result" where
  "MCRWWLockWriter1Enqueue_toUniqueRep st th l =
     objectRep st MC_RWW_LOCK_WRITER_1_ENQUEUE th (rww_id l) UINT_MAX"

definition MCRWWLockWriter1Lock_toUniqueRep :: "object_store \<Rightarrow> mcthread \<Rightarrow> mcrwwlock \<Rightarrow> unique_rep result" where
  "MCRWWLockWriter1Lock_toUniqueRep st th l =
     objectRep st MC_RWW_LOCK_WRITER_1_LOCK th (rww_id l) UINT_MAX"

definition MCRWWLockWriter2Enqueue_toUniqueRep :: "object_store \<Rightarrow> mcthread \<Rightarrow> mcrwwlock \<Rightarrow> unique_rep result" where
  "MCRWWLockWriter2Enqueue_toUniqueRep st th l =
     objectRep st MC_RWW_LOCK_WRITER_2_ENQUEUE th (rww_id l) UINT_MAX"

definition MCRWWLockWriter2Lock_toUniqueRep :: "object_store \<Rightarrow> mcthread \<Rightarrow> mcrwwlock \<Rightarrow> unique_rep result" where
  "MCRWWLockWriter2Lock_toUniqueRep st th l =
     objectRep st MC_RWW_LOCK_WRITER_2_LOCK th (rww_id l) UINT_MAX"

definition MCRWWLockUnlock_toUniqueRep :: "object_store \<Rightarrow> mcthread \<Rightarrow> mcrwwlock \<Rightarrow> unique_rep result" where
  "MCRWWLockUnlock_toUniqueRep st th l =
     objectRep st MC_RWW_LOCK_UNLOCK th (rww_id l) UINT_MAX"

definition MCGlobalVariableRead_toUniqueRep :: "mcthread \<Rightarrow> mcglobal \<Rightarrow> nat \<Rightarrow> unique_rep result" where
  "MCGlobalVariableRead_toUniqueRep th g junk =
     newRep MC_GLOBAL_VARIABLE_READ th (global_addr g) junk"

definition MCGlobalVariableWrite_toUniqueRep :: "mcthread \<Rightarrow> mcglobal \<Rightarrow> nat \<Rightarrow> unique_rep result" where
  "MCGlobalVariableWrite_toUniqueRep th g junk =
     newRep MC_GLOBAL_VARIABLE_WRITE th (global_addr g) junk"

definition MCAbortTransition_toUniqueRep :: "mcthread \<Rightarrow> unique_rep result" where
  "MCAbortTransition_toUniqueRep th =
     newRep MC_ABORT_TRANSITION th UINT_MAX UINT_MAX"

definition MCExitTransition_toUniqueRep :: "mcthread \<Rightarrow> unique_rep result" where
  "MCExitTransition_toUniqueRep th =
     newRep MC_EXIT_TRANSITION th UINT_MAX UINT_MAX"

definition MCProgressTransition_toUniqueRep :: "mcthread \<Rightarrow> unique_rep result" where
  "MCProgressTransition_toUniqueRep th =
     newRep MC_PROGRESS_TRANSITION th UINT_MAX UINT_MAX"

definition toUniqueRep :: "object_store \<Rightarrow> nat \<Rightarrow> bool \<Rightarrow> transition \<Rightarrow> unique_rep result" where
  "toUniqueRep st junk hadWaiters t = (case t of
      MCThreadTransition th op target \<Rightarrow> (case op of
          ThreadCreate \<Rightarrow> MCThreadCreate_toUniqueRep th target
        | ThreadStart \<Rightarrow> MCThreadStart_toUniqueRep th
        | ThreadJoin \<Rightarrow> MCThreadJoin_toUniqueRep th target
        | ThreadFinish \<Rightarrow> MCThreadFinish_toUniqueRep th)
    | MCMutexTransition th op m \<Rightarrow> (case op of
          MutexInit \<Rightarrow> MCMutexInit_toUniqueRep st th m
        | MutexLock \<Rightarrow> MCMutexLock_toUniqueRep st th m
        | MutexTrylock _ \<Rightarrow> MCMutexTrylock_toUniqueRep st th m
        | MutexUnlock \<Rightarrow> MCMutexUnlock_toUniqueRep st th m)
    | MCSemaphoreTransition th op s \<Rightarrow> (case op of
          SemInit \<Rightarrow> MCSemInit_toUniqueRep st th s
        | SemPost \<Rightarrow> MCSemPost_toUniqueRep st th s
        | SemEnqueue \<Rightarrow> MCSemEnqueue_toUniqueRep st th s
        | SemWait \<Rightarrow> MCSemWait_toUniqueRep st th s)
    | MCCondTransition th op c \<Rightarrow> (case op of
          CondInit \<Rightarrow> MCCondInit_toUniqueRep st th c
        | CondSignal \<Rightarrow> MCCondSignal_toUniqueRep st th c hadWaiters
        | CondBroadcast \<Rightarrow> MCCondBroadcast_toUniqueRep st th c hadWaiters
        | CondEnqueue m \<Rightarrow> MCCondEnqueue_toUniqueRep st th m c
        | CondWait _ \<Rightarrow> MCCondWait_toUniqueRep st th c)
    | MCBarrierTransition th op b \<Rightarrow> (case op of
          BarrierInit \<Rightarrow> MCBarrierInit_toUniqueRep st th b
        | BarrierEnqueue \<Rightarrow> MCBarrierEnqueue_toUniqueRep st th b
        | BarrierWait \<Rightarrow> MCBarrierWait_toUniqueRep st th b)
    | MCRWLockTransition th op l \<Rightarrow> (case op of
          RWLockInit \<Rightarrow> MCRWLockInit_toUniqueRep st th l
        | RWLockReaderEnqueue \<Rightarrow> MCRWLockReaderEnqueue_toUniqueRep st th l
        | RWLockReaderLock \<Rightarrow> MCRWLockReaderLock_toUniqueRep st th l
        | RWLockWriterEnqueue \<Rightarrow> MCRWLockWriterEnqueue_toUniqueRep st th l
        | RWLockWriterLock \<Rightarrow> MCRWLockWriterLock_toUniqueRep st th l
        | RWLockUnlock \<Rightarrow> MCRWLockUnlock_toUniqueRep st th l)
    | MCRWWLockTransition th op l \<Rightarrow> (case op of
          RWWLockInit \<Rightarrow> MCRWWLockInit_toUniqueRep st th l
        | RWWLockReaderEnqueue \<Rightarrow> MCRWWLockReaderEnqueue_toUniqueRep st th l
        | RWWLockReaderLock \<Rightarrow> MCRWWLockReaderLock_toUniqueRep st th l
        | RWWLockWriter1Enqueue \<Rightarrow> MCRWWLockWriter1Enqueue_toUniqueRep st th l
        | RWWLockWriter1Lock \<Rightarrow> MCRWWLockWriter1Lock_toUniqueRep st th l
        | RWWLockWriter2Enqueue \<Rightarrow> MCRWWLockWriter2Enqueue_toUniqueRep st th l
        | RWWLockWriter2Lock \<Rightarrow> MCRWWLockWriter2Lock_toUniqueRep st th l
        | RWWLockUnlock \<Rightarrow> MCRWWLockUnlock_toUniqueRep st th l)
    | MCGlobalVariableTransition th op g \<Rightarrow> (case op of
          GlobalRead \<Rightarrow> MCGlobalVariableRead_toUniqueRep th g junk
        | GlobalWrite _ \<Rightarrow> MCGlobalVariableWrite_toUniqueRep th g junk)
    | MCAbortTransition th \<Rightarrow> MCAbortTransition_toUniqueRep th
    | MCExitTransition th _ \<Rightarrow> MCExitTransition_toUniqueRep th
    | MCProgressTransition th \<Rightarrow> MCProgressTransition_toUniqueRep th)"

lemmas class_reps = MCThreadStart_toUniqueRep_def MCThreadFinish_toUniqueRep_def MCThreadCreate_toUniqueRep_def
  MCThreadJoin_toUniqueRep_def MCMutexInit_toUniqueRep_def MCMutexLock_toUniqueRep_def
  MCMutexTrylock_toUniqueRep_def MCMutexUnlock_toUniqueRep_def MCSemInit_toUniqueRep_def
  MCSemPost_toUniqueRep_def MCSemEnqueue_toUniqueRep_def MCSemWait_toUniqueRep_def
  MCCondInit_toUniqueRep_def MCCondSignal_toUniqueRep_def MCCondBroadcast_toUniqueRep_def
  MCCondEnqueue_toUniqueRep_def MCCondWait_toUniqueRep_def MCBarrierInit_toUniqueRep_def
  MCBarrierEnqueue_toUniqueRep_def MCBarrierWait_toUniqueRep_def MCRWLockInit_toUniqueRep_def
  MCRWLockReaderEnqueue_toUniqueRep_def MCRWLockReaderLock_toUniqueRep_def
  MCRWLockWriterEnqueue_toUniqueRep_def MCRWLockWriterLock_toUniqueRep_def
  MCRWLockUnlock_toUniqueRep_def MCRWWLockInit_toUniqueRep_def
  MCRWWLockReaderEnqueue_toUniqueRep_def MCRWWLockReaderLock_toUniqueRep_def
  MCRWWLockWriter1Enqueue_toUniqueRep_def MCRWWLockWriter1Lock_toUniqueRep_def
  MCRWWLockWriter2Enqueue_toUniqueRep_def MCRWWLockWriter2Lock_toUniqueRep_def
  MCRWWLockUnlock_toUniqueRep_def MCGlobalVariableRead_toUniqueRep_def
  MCGlobalVariableWrite_toUniqueRep_def MCAbortTransition_toUniqueRep_def
  MCExitTransition_toUniqueRep_def MCProgressTransition_toUniqueRep_def

section \<open>States that were visited before\<close>

definition MCMutex_MCObjectEquals :: "mcmutex \<Rightarrow> visible_object \<Rightarrow> bool" where
  "MCMutex_MCObjectEquals this other \<longleftrightarrow> (case other of
      VMutex b \<Rightarrow> mutex_state this = mutex_state b | _ \<Rightarrow> False)"

definition MCSemaphore_MCObjectEquals :: "mcsem \<Rightarrow> visible_object \<Rightarrow> bool" where
  "MCSemaphore_MCObjectEquals this other \<longleftrightarrow> (case other of
      VSemaphore b \<Rightarrow> sem_state this = sem_state b \<and> sem_count this = sem_count b
        \<and> sem_spuriousWakeupCount this = sem_spuriousWakeupCount b
        \<and> length (sem_waitingQueue this) = length (sem_waitingQueue b)
    | _ \<Rightarrow> False)"

definition MCConditionVariable_MCObjectEquals :: "mccond \<Rightarrow> visible_object \<Rightarrow> bool" where
  "MCConditionVariable_MCObjectEquals this other \<longleftrightarrow> (case other of
      VCond b \<Rightarrow> cond_state this = cond_state b
        \<and> cond_numRemainingSpuriousWakeups this = cond_numRemainingSpuriousWakeups b
    | _ \<Rightarrow> False)"

definition MCGlobalVariable_MCObjectEquals :: "mcglobal \<Rightarrow> visible_object \<Rightarrow> bool" where
  "MCGlobalVariable_MCObjectEquals this other \<longleftrightarrow> (case other of
      VGlobal b \<Rightarrow> global_addr this = global_addr b \<and> global_val this = global_val b | _ \<Rightarrow> False)"

text \<open>The other classes keep the method of \<^verbatim>\<open>MCVisibleObject\<close>, which always answers yes.\<close>

definition MCObjectEquals :: "visible_object \<Rightarrow> visible_object \<Rightarrow> bool" where
  "MCObjectEquals this other \<longleftrightarrow> (case this of
      VMutex m \<Rightarrow> MCMutex_MCObjectEquals m other
    | VSemaphore s \<Rightarrow> MCSemaphore_MCObjectEquals s other
    | VCond c \<Rightarrow> MCConditionVariable_MCObjectEquals c other
    | VGlobal g \<Rightarrow> MCGlobalVariable_MCObjectEquals g other
    | _ \<Rightarrow> True)"

record stateLlock =
  objects :: "visible_object list"
  enabled :: "tid set"
  visited_nextTransitions :: "unique_rep list"

text \<open>\<open>junk t\<close> and \<open>hadWaiters t\<close> belong to the pending transition of \<open>t\<close>.\<close>

definition snapshot ::
  "(tid \<Rightarrow> nat) \<Rightarrow> (tid \<Rightarrow> bool) \<Rightarrow> mcstack \<Rightarrow> nat \<Rightarrow> tid set \<Rightarrow> stateLlock result" where
  "snapshot junk hadWaiters s numThreads en =
     bindR (foldR (\<lambda>q reps. bindR (getNextTransitionForThread s q) (\<lambda>t.
              bindR (toUniqueRep (objectStorage s) (junk q) (hadWaiters q) t) (\<lambda>r. Inr (reps @ [r]))))
              [0..<numThreads] []) (\<lambda>reps.
       Inr \<lparr>objects = map (\<lambda>(current, _). object_copy current) (storage (objectStorage s)), enabled = en,
            visited_nextTransitions = reps\<rparr>)"

text \<open>The loop over the objects of the current state indexes the objects of the old one.\<close>

fun objectsEqual :: "visible_object list \<Rightarrow> visible_object list \<Rightarrow> bool result" where
  "objectsEqual old [] = Inr True"
| "objectsEqual [] (c # cs) = Inl OutOfBounds"
| "objectsEqual (b # bs) (c # cs) = (if MCObjectEquals b c then objectsEqual bs cs else Inr False)"

fun transitionsEqual :: "unique_rep list \<Rightarrow> unique_rep list \<Rightarrow> bool result" where
  "transitionsEqual old [] = Inr True"
| "transitionsEqual [] (c # cs) = Inl OutOfBounds"
| "transitionsEqual (b # bs) (c # cs) = (if uniqueRepEqual b c then transitionsEqual bs cs else Inr False)"

fun revisited :: "stateLlock list \<Rightarrow> stateLlock \<Rightarrow> bool result" where
  "revisited [] current = Inr False"
| "revisited (old # visited) current =
     (if enabled old \<noteq> enabled current then revisited visited current
      else bindR (transitionsEqual (visited_nextTransitions old) (visited_nextTransitions current)) (\<lambda>same.
        if \<not> same then revisited visited current
        else bindR (objectsEqual (objects old) (objects current)) (\<lambda>eq.
          if eq then Inr True else revisited visited current)))"

definition stateIsRevisited ::
  "(tid \<Rightarrow> nat) \<Rightarrow> (tid \<Rightarrow> bool) \<Rightarrow> mcstack \<Rightarrow> nat \<Rightarrow> tid set \<Rightarrow> stateLlock list \<Rightarrow>
     (bool \<times> stateLlock list) result" where
  "stateIsRevisited junk hadWaiters s numThreads en visitedStates =
     bindR (snapshot junk hadWaiters s numThreads en) (\<lambda>current.
     bindR (revisited visitedStates current) (\<lambda>found.
       Inr (found, if found then visitedStates else visitedStates @ [current])))"

text \<open>
  Whether no blocked thread that has not run waits for an object the cycle uses; the related threads
  are visited in the order \<open>iter\<close>.
\<close>

definition canStopSafely ::
  "iteration \<Rightarrow> mcstack \<Rightarrow> tid set \<Rightarrow> tid set \<Rightarrow> tid set \<Rightarrow> nat \<Rightarrow> bool result" where
  "canStopSafely iter s rel expl en cycleStartIdx =
     foldR (\<lambda>q safe. if \<not> safe \<or> q \<in> expl \<or> q \<in> en then Inr safe
        else bindR (getNextTransitionForThread s q) (\<lambda>t.
          Inr (\<forall>u \<in> set (drop cycleStartIdx (transitionStack s)).
                 getObjectsAccessedByTransition t \<inter> getObjectsAccessedByTransition u = {})))
       (iter rel) True"

end
