(* ===== verification/EarlyStopping.thy ===== *)
theory EarlyStopping
  imports UniqueRep
begin

text \<open>
  The livelock test as it is compiled with \<^verbatim>\<open>LIVELOCK_EARLY_STOPPING\<close> (\<^verbatim>\<open>MCStack::isInLivelock\<close> in
  \<^verbatim>\<open>src/MCStack.cpp\<close>): the states of a cycle are kept, and a cycle ends when it comes back to one of them
  and no thread that is blocked waits for what the cycle uses.

  \<open>junk st\<close> and \<open>hadWaiters st\<close> are what the representations of the pending transitions hold in the state
  \<open>st\<close> (see \<open>UniqueRep\<close>).  Reading the enabled threads takes an entry of the given schedule, as in the code.
\<close>

record early_stopping =
  junk :: "search_state \<Rightarrow> tid \<Rightarrow> nat"
  had_waiters :: "search_state \<Rightarrow> tid \<Rightarrow> bool"

definition currentlyEnabledThreads :: "search_options \<Rightarrow> search_state \<Rightarrow> (tid set \<times> search_state) search" where
  "currentlyEnabledThreads opts st =
     bindR (getNextTraceSeqEntry opts (enabledTraceSeqIdx st)
              (st\<lparr>enabledTraceSeqIdx := enabledTraceSeqIdx st + 1\<rparr>)) (\<lambda>(entry, st1).
     bindR (liftR (getCurrentlyEnabledThreads entry (programState st1))) (\<lambda>en. Inr (en, st1)))"

definition visitState ::
  "search_options \<Rightarrow> early_stopping \<Rightarrow> nat \<Rightarrow> stateLlock list \<Rightarrow> search_state \<Rightarrow>
     (bool \<times> stateLlock list \<times> search_state) search" where
  "visitState opts es n visited st =
     bindR (currentlyEnabledThreads opts st) (\<lambda>(en, st1).
     bindR (liftR (stateIsRevisited (junk es st1) (had_waiters es st1) (programState st1) n en visited))
       (\<lambda>(revisited, visited'). Inr (revisited, visited', st1)))"

text \<open>One more transition of a cycle; \<open>Stops\<close> is the \<^verbatim>\<open>break\<close>.\<close>

datatype early_result = Reports search_state | Stops livelock_cycle | GoesOn livelock_cycle "stateLlock list"

definition earlyStep ::
  "target_program \<Rightarrow> search_options \<Rightarrow> early_stopping \<Rightarrow> nat \<Rightarrow> nat \<Rightarrow> livelock_cycle \<Rightarrow> stateLlock list \<Rightarrow>
     early_result search" where
  "earlyStep prog opts es n cycleStart c visited =
     (let st = cycle_state c; s = programState st in
      bindR (liftR (relateThreads n (threadIsRelated c) s)) (\<lambda>rel.
      bindR (liftR (nextThreadOfCycle n rel (next_tid c) s)) (\<lambda>q.
      bindR (liftR (getNextTransitionForThread s q)) (\<lambda>t.
        if \<not> transitionEnabledInState t
        then Inr (GoesOn (c\<lparr>threadIsRelated := rel, next_tid := q\<rparr>) visited)
        else if isProgressTransition t then Inr (Reports st)
        else bindR (runTransition prog opts t st) (\<lambda>st1.
             bindR (visitState opts es n visited st1) (\<lambda>(revisited, visited', st2).
               let expl = insert q (threadIsExplored c);
                   after = (\<lambda>st'. \<lparr>threadIsRelated = rel, threadIsExplored = expl, next_tid = q, cycle_state = st'\<rparr>)
               in if \<not> revisited then Inr (GoesOn (after st2) visited')
                  else bindR (currentlyEnabledThreads opts st2) (\<lambda>(en, st3).
                       bindR (liftR (canStopSafely (set_order prog) (programState st3) rel expl en cycleStart))
                         (\<lambda>safe. Inr (if safe then Stops (after st3) else GoesOn (after st3) visited')))))))))"

fun earlyLoop ::
  "target_program \<Rightarrow> search_options \<Rightarrow> early_stopping \<Rightarrow> nat \<Rightarrow> nat \<Rightarrow> int list \<Rightarrow> livelock_cycle \<Rightarrow>
     stateLlock list \<Rightarrow> early_result search" where
  "earlyLoop prog opts es n cycleStart [] c visited = Inr (GoesOn c visited)"
| "earlyLoop prog opts es n cycleStart (i # is) c visited =
     bindR (earlyStep prog opts es n cycleStart c visited) (\<lambda>r. case r of
        GoesOn c' visited' \<Rightarrow> earlyLoop prog opts es n cycleStart is c' visited'
      | _ \<Rightarrow> Inr r)"

definition earlyCycle ::
  "target_program \<Rightarrow> search_options \<Rightarrow> early_stopping \<Rightarrow> nat \<Rightarrow> int \<Rightarrow> transition \<Rightarrow> tid set \<Rightarrow> search_state \<Rightarrow>
     early_result search" where
  "earlyCycle prog opts es n increasedDepth t expl st =
     (if isProgressTransition t then Inr (Reports st)
      else bindR (runTransition prog opts t st) (\<lambda>st1.
           bindR (visitState opts es n [] (st1\<lparr>transitionId := transitionId st1 + 1\<rparr>)) (\<lambda>(_, visited, st2).
             earlyLoop prog opts es n (length (transitionStack (programState st2)) - 1) [1..increasedDepth - 1]
               \<lparr>threadIsRelated = {getThreadId t}, threadIsExplored = insert (getThreadId t) expl,
                next_tid = getThreadId t, cycle_state = st2\<rparr> visited)))"

fun earlyCycles ::
  "target_program \<Rightarrow> search_options \<Rightarrow> early_stopping \<Rightarrow> nat \<Rightarrow> int \<Rightarrow> nat \<Rightarrow> transition \<Rightarrow> tid set \<Rightarrow>
     search_state \<Rightarrow> (bool \<times> search_state) search" where
  "earlyCycles prog opts es n increasedDepth rounds t expl st =
     (if rounds = 0 then Inl Hangs
      else bindR (earlyCycle prog opts es n increasedDepth t expl st) (\<lambda>r.
        let next_cycle = (\<lambda>c. bindR (liftR (firstUnexploredEnabled (programState (cycle_state c))
                                          (threadIsExplored c) [0..<n]))
              (\<lambda>nxt. case nxt of
                 None \<Rightarrow> Inr (True, cycle_state c)
               | Some t' \<Rightarrow> earlyCycles prog opts es n increasedDepth (rounds - 1) t'
                              (threadIsExplored c) (cycle_state c)))
        in case r of
          Reports st' \<Rightarrow> Inr (False, st')
        | Stops c \<Rightarrow> next_cycle c
        | GoesOn c visited \<Rightarrow> next_cycle c))"

declare earlyCycles.simps [simp del]

definition isInLivelockEarly ::
  "target_program \<Rightarrow> search_options \<Rightarrow> early_stopping \<Rightarrow> int \<Rightarrow> search_state \<Rightarrow> (bool \<times> search_state) search" where
  "isInLivelockEarly prog opts es increasedDepth st =
     (let numThreads = getNumProgramThreads (programState st) in
      bindR (liftR (lastEnabledTransition numThreads (programState st))) (\<lambda>start. case start of
        None \<Rightarrow> Inl (Aborted UninitializedRead)
      | Some t \<Rightarrow> earlyCycles prog opts es numThreads increasedDepth numThreads t {} st))"

end
