(* ===== verification/UniqueRepProperties.thy ===== *)
theory UniqueRepProperties
  imports UniqueRep Independence LivelockProperties
begin

text \<open>
  The unique representations tell the pending transitions of a trace apart, so a state that is taken for
  visited waits for the same operations; what the comparison of states with them overlooks.
\<close>

section \<open>A representation names its transition\<close>

lemma same_typeid_class: "same_typeid v w \<longleftrightarrow> object_class v = object_class w
    \<or> (\<exists>p q. object_class v = ThreadObject p \<and> object_class w = ThreadObject q)"
  by (cases v; cases w) (auto simp: object_class_def)

lemma count_injective:
  assumes "class_at st i = Some k" and "class_at st j = Some k"
    and "countVisibleObjectsOfType st i = Inr n" and "countVisibleObjectsOfType st j = Inr n"
  shows "i = j"
proof -
  have less: "n < m" if "i < j" "class_at st i = Some k" "class_at st j = Some k"
    "countVisibleObjectsOfType st i = Inr n" "countVisibleObjectsOfType st j = Inr m" for i j n m
  proof -
    let ?v = "fst (storage st ! i)" and ?w = "fst (storage st ! j)"
    let ?f = "\<lambda>v. filter (\<lambda>i. same_typeid (fst (storage st ! i)) v)"
    have cls: "object_class ?v = k" "object_class ?w = k"
      using that(2,3) by (auto simp: class_at_def split: if_splits)
    then have same: "same_typeid x ?v = same_typeid x ?w" for x by (simp add: same_typeid_class)
    have n: "n = length (?f ?v [0..<Suc i])" and m: "m = length (?f ?w [0..<Suc j])"
      using that(4,5) by (auto simp: countVisibleObjectsOfType_def getObjectWithId_def bindR_eq_Inr split: if_splits)
    have "[0..<Suc j] = [0..<Suc i] @ [Suc i..<j] @ [j]"
      using that(1) upt_add_eq_append [of 0 "Suc i" "j - Suc i"] by simp
    then have "m = length (?f ?w [0..<Suc i]) + length (?f ?w [Suc i..<j]) + 1"
      using m same_typeid_class [of ?w ?w] by (simp del: upt_Suc)
    then show ?thesis using n same by simp
  qed
  show ?thesis
    using less [of i j n n] less [of j i n n] assms by (cases i j rule: linorder_cases) auto
qed

text \<open>Classes stay as they are, so the place of an object is the same in a later store.\<close>

lemma count_injective_later:
  assumes later: "\<And>i k. class_at st i = Some k \<Longrightarrow> class_at st' i = Some k"
    and i: "class_at st i = Some k" "countVisibleObjectsOfType st i = Inr n"
    and j: "class_at st' j = Some k" "countVisibleObjectsOfType st' j = Inr n"
  shows "i = j"
proof -
  let ?f = "\<lambda>st v. filter (\<lambda>i. same_typeid (fst (storage st ! i)) v)"
  have cls: "object_class (fst (storage st ! i)) = k" and il: "i < length (storage st)"
    using i(1) by (auto simp: class_at_def split: if_splits)
  have "same_typeid (fst (storage st' ! m)) (fst (storage st' ! i)) = same_typeid (fst (storage st ! m)) (fst (storage st ! i))"
    if "m \<le> i" for m
  proof -
    have "class_at st m = Some (object_class (fst (storage st ! m)))" using that il by (simp add: class_at_def)
    from later [OF this] later [OF i(1)] show ?thesis
      using cls by (auto simp: class_at_def same_typeid_class split: if_splits)
  qed
  then have "?f st' (fst (storage st' ! i)) [0..<Suc i] = ?f st (fst (storage st ! i)) [0..<Suc i]"
    by (intro filter_cong) auto
  moreover have "i < length (storage st')" using later [OF i(1)] by (auto simp: class_at_def split: if_splits)
  ultimately have "countVisibleObjectsOfType st' i = Inr n"
    using i(2) il by (auto simp: countVisibleObjectsOfType_def getObjectWithId_def bindR_eq_Inr
        simp del: upt_Suc)
  then show ?thesis using count_injective later [OF i(1)] j by blast
qed

text \<open>What a transition is about: a thread, an object or two, the address of a variable.\<close>

definition subjects :: "transition \<Rightarrow> nat list" where
  "subjects t = (case t of
      MCThreadTransition _ op target \<Rightarrow> (case op of
          ThreadCreate \<Rightarrow> [thread_tid target] | ThreadJoin \<Rightarrow> [thread_tid target] | _ \<Rightarrow> [])
    | MCMutexTransition _ _ m \<Rightarrow> [mutex_id m]
    | MCSemaphoreTransition _ _ s \<Rightarrow> [sem_id s]
    | MCCondTransition _ op c \<Rightarrow> (case op of
          CondEnqueue m \<Rightarrow> [cond_id c, mutex_id m]
        | CondWait _ \<Rightarrow> (case cond_mutex c of None \<Rightarrow> [cond_id c] | Some m \<Rightarrow> [cond_id c, m])
        | _ \<Rightarrow> [cond_id c])
    | MCBarrierTransition _ _ b \<Rightarrow> [barrier_id b]
    | MCRWLockTransition _ _ l \<Rightarrow> [rw_id l]
    | MCRWWLockTransition _ _ l \<Rightarrow> [rww_id l]
    | MCGlobalVariableTransition _ _ g \<Rightarrow> [global_addr g]
    | MCAbortTransition _ \<Rightarrow> []
    | MCExitTransition _ _ \<Rightarrow> []
    | MCProgressTransition _ \<Rightarrow> [])"

lemma objectRep_Inr: "objectRep st ty th i b = Inr r \<longleftrightarrow>
    (\<exists>a. countVisibleObjectsOfType st i = Inr a \<and> r = \<lparr>typeId = ty, rep_threadId = thread_tid th, rep_param = (a, b)\<rparr>)"
  by (auto simp: objectRep_def newRep_def bindR_eq_Inr)

lemma objectsRep_Inr: "objectsRep st ty th i j = Inr r \<longleftrightarrow>
    (\<exists>a b m. countVisibleObjectsOfType st i = Inr a \<and> j = Some m \<and> countVisibleObjectsOfType st m = Inr b
       \<and> r = \<lparr>typeId = ty, rep_threadId = thread_tid th, rep_param = (a, b)\<rparr>)"
  by (auto simp: objectsRep_def newRep_def bindR_eq_Inr split: option.splits)

lemma newRep_Inr: "newRep ty th a b = Inr r \<longleftrightarrow> r = \<lparr>typeId = ty, rep_threadId = thread_tid th, rep_param = (a, b)\<rparr>"
  by (auto simp: newRep_def)

lemma uniqueRepEqual_iff [simp]: "uniqueRepEqual a b \<longleftrightarrow> a = b"
  by (cases a; cases b) (auto simp: uniqueRepEqual_def)

lemma wait_mutex_class:
  assumes "typed s" and "current s (MCCondTransition th op c)" and "cond_mutex c = Some m"
  shows "class_at (objectStorage s) m = Some MutexObject"
proof -
  have c: "getObjectWithId (cond_id c) (objectStorage s) = Inr (VCond c)"
    using assms(2)
    by (auto simp: current_def Let_def get_iff)
  then have i: "cond_id c < length (storage (objectStorage s))" "fst (storage (objectStorage s) ! cond_id c) = VCond c"
    by (auto simp: getObjectWithId_def split: if_splits)
  then have "pointers_ok (objectStorage s) (VCond c)"
    using assms(1) by (metis typed_def store_wf_def)
  then show ?thesis using assms(3) by (simp add: pointers_ok_def)
qed

text \<open>The type of a transition, and the class of the objects it is about, if it is about objects.\<close>

definition typeId_of :: "transition \<Rightarrow> MCTransitionType" where
  "typeId_of t = (case t of
      MCThreadTransition _ op _ \<Rightarrow> (case op of
          ThreadCreate \<Rightarrow> MC_THREAD_CREATE
        | ThreadStart \<Rightarrow> MC_THREAD_START
        | ThreadJoin \<Rightarrow> MC_THREAD_JOIN
        | ThreadFinish \<Rightarrow> MC_THREAD_FINISH)
    | MCMutexTransition _ op _ \<Rightarrow> (case op of
          MutexInit \<Rightarrow> MC_MUTEX_INIT
        | MutexLock \<Rightarrow> MC_MUTEX_LOCK
        | MutexTrylock _ \<Rightarrow> MC_MUTEX_TRYLOCK
        | MutexUnlock \<Rightarrow> MC_MUTEX_UNLOCK)
    | MCSemaphoreTransition _ op _ \<Rightarrow> (case op of
          SemInit \<Rightarrow> MC_SEM_INIT
        | SemPost \<Rightarrow> MC_SEM_POST
        | SemEnqueue \<Rightarrow> MC_SEM_ENQUEUE
        | SemWait \<Rightarrow> MC_SEM_WAIT)
    | MCCondTransition _ op _ \<Rightarrow> (case op of
          CondInit \<Rightarrow> MC_COND_INIT
        | CondSignal \<Rightarrow> MC_COND_SIGNAL
        | CondBroadcast \<Rightarrow> MC_COND_BROADCAST
        | CondEnqueue _ \<Rightarrow> MC_COND_ENQUEUE
        | CondWait _ \<Rightarrow> MC_COND_WAIT)
    | MCBarrierTransition _ op _ \<Rightarrow> (case op of
          BarrierInit \<Rightarrow> MC_BARRIER_INIT
        | BarrierEnqueue \<Rightarrow> MC_BARRIER_ENQUEUE
        | BarrierWait \<Rightarrow> MC_BARRIER_WAIT)
    | MCRWLockTransition _ op _ \<Rightarrow> (case op of
          RWLockInit \<Rightarrow> MC_RW_LOCK_INIT
        | RWLockReaderEnqueue \<Rightarrow> MC_RW_LOCK_READER_ENQUEUE
        | RWLockReaderLock \<Rightarrow> MC_RW_LOCK_READER_LOCK
        | RWLockWriterEnqueue \<Rightarrow> MC_RW_LOCK_WRITER_ENQUEUE
        | RWLockWriterLock \<Rightarrow> MC_RW_LOCK_WRITER_LOCK
        | RWLockUnlock \<Rightarrow> MC_RW_LOCK_UNLOCK)
    | MCRWWLockTransition _ op _ \<Rightarrow> (case op of
          RWWLockInit \<Rightarrow> MC_RWW_LOCK_INIT
        | RWWLockReaderEnqueue \<Rightarrow> MC_RWW_LOCK_READER_ENQUEUE
        | RWWLockReaderLock \<Rightarrow> MC_RWW_LOCK_READER_LOCK
        | RWWLockWriter1Enqueue \<Rightarrow> MC_RWW_LOCK_WRITER_1_ENQUEUE
        | RWWLockWriter1Lock \<Rightarrow> MC_RWW_LOCK_WRITER_1_LOCK
        | RWWLockWriter2Enqueue \<Rightarrow> MC_RWW_LOCK_WRITER_2_ENQUEUE
        | RWWLockWriter2Lock \<Rightarrow> MC_RWW_LOCK_WRITER_2_LOCK
        | RWWLockUnlock \<Rightarrow> MC_RWW_LOCK_UNLOCK)
    | MCGlobalVariableTransition _ op _ \<Rightarrow> (case op of
          GlobalRead \<Rightarrow> MC_GLOBAL_VARIABLE_READ
        | GlobalWrite _ \<Rightarrow> MC_GLOBAL_VARIABLE_WRITE)
    | MCAbortTransition _ \<Rightarrow> MC_ABORT_TRANSITION
    | MCExitTransition _ _ \<Rightarrow> MC_EXIT_TRANSITION
    | MCProgressTransition _ \<Rightarrow> MC_PROGRESS_TRANSITION)"

definition subject_class :: "transition \<Rightarrow> object_class option" where
  "subject_class t = (case t of
      MCMutexTransition _ _ _ \<Rightarrow> Some MutexObject
    | MCSemaphoreTransition _ _ _ \<Rightarrow> Some SemaphoreObject
    | MCCondTransition _ _ _ \<Rightarrow> Some CondObject
    | MCBarrierTransition _ _ _ \<Rightarrow> Some BarrierObject
    | MCRWLockTransition _ _ _ \<Rightarrow> Some RWLockObject
    | MCRWWLockTransition _ _ _ \<Rightarrow> Some RWWLockObject
    | _ \<Rightarrow> None)"

lemmas op_splits = thread_op.splits mutex_op.splits sem_op.splits cond_op.splits barrier_op.splits
  rwlock_op.splits rwwlock_op.splits global_op.splits

lemma rep_spec:
  assumes "toUniqueRep st junk hadWaiters t = Inr r"
  shows "typeId r = typeId_of t" and "rep_threadId r = getThreadId t"
    and "subjects t = a # as \<Longrightarrow> (if subject_class t = None then a = fst (rep_param r)
          else countVisibleObjectsOfType st a = Inr (fst (rep_param r)))"
    and "subjects t = [a, b] \<Longrightarrow> countVisibleObjectsOfType st b = Inr (snd (rep_param r))"
    and "typeId_of t = MC_COND_WAIT \<Longrightarrow> length (subjects t) = 2"
  using assms
  by (cases t; auto simp: toUniqueRep_def class_reps typeId_of_def getThreadId_def transition_thread_def subjects_def
      subject_class_def newRep_Inr objectRep_Inr objectsRep_Inr split: op_splits option.splits)+

text \<open>The class and the number of the subjects are fixed by the type, except for a wait without a mutex.\<close>

definition class_of_type :: "MCTransitionType \<Rightarrow> object_class option" where
  "class_of_type ty =
     (if ty \<in> {MC_MUTEX_INIT, MC_MUTEX_LOCK, MC_MUTEX_TRYLOCK, MC_MUTEX_UNLOCK} then Some MutexObject
      else if ty \<in> {MC_SEM_INIT, MC_SEM_POST, MC_SEM_ENQUEUE, MC_SEM_WAIT} then Some SemaphoreObject
      else if ty \<in> {MC_COND_INIT, MC_COND_SIGNAL, MC_COND_BROADCAST, MC_COND_ENQUEUE, MC_COND_WAIT}
        then Some CondObject
      else if ty \<in> {MC_BARRIER_INIT, MC_BARRIER_ENQUEUE, MC_BARRIER_WAIT} then Some BarrierObject
      else if ty \<in> {MC_RW_LOCK_INIT, MC_RW_LOCK_READER_ENQUEUE, MC_RW_LOCK_READER_LOCK,
        MC_RW_LOCK_WRITER_ENQUEUE, MC_RW_LOCK_WRITER_LOCK, MC_RW_LOCK_UNLOCK} then Some RWLockObject
      else if ty \<in> {MC_RWW_LOCK_INIT, MC_RWW_LOCK_READER_ENQUEUE, MC_RWW_LOCK_READER_LOCK,
        MC_RWW_LOCK_WRITER_1_ENQUEUE, MC_RWW_LOCK_WRITER_1_LOCK, MC_RWW_LOCK_WRITER_2_ENQUEUE,
        MC_RWW_LOCK_WRITER_2_LOCK, MC_RWW_LOCK_UNLOCK} then Some RWWLockObject
      else None)"

definition number_of_subjects :: "MCTransitionType \<Rightarrow> nat" where
  "number_of_subjects ty =
     (if ty \<in> {MC_THREAD_START, MC_THREAD_FINISH, MC_ABORT_TRANSITION, MC_EXIT_TRANSITION,
        MC_PROGRESS_TRANSITION} then 0
      else if ty \<in> {MC_COND_ENQUEUE, MC_COND_WAIT} then 2 else 1)"

lemma type_determines:
  shows "subject_class t = class_of_type (typeId_of t)"
    and "typeId_of t \<noteq> MC_COND_WAIT \<Longrightarrow> length (subjects t) = number_of_subjects (typeId_of t)"
  by (cases t; simp add: typeId_of_def subject_class_def class_of_type_def split: op_splits)
     (cases t; simp add: typeId_of_def subjects_def number_of_subjects_def split: op_splits)

lemma subject_classes:
  assumes "typed s" and "current s t"
  shows "subjects t = a # as \<Longrightarrow> subject_class t = Some k \<Longrightarrow> class_at (objectStorage s) a = Some k"
    and "subjects t = [a, b] \<Longrightarrow> class_at (objectStorage s) b = Some MutexObject"
proof -
  have wf: "store_wf (objectStorage s)" using assms(1) by (simp add: typed_def)
  show "subjects t = a # as \<Longrightarrow> subject_class t = Some k \<Longrightarrow> class_at (objectStorage s) a = Some k"
    using assms(2)
    by (cases t) (auto simp: subjects_def subject_class_def current_def Let_def dest: get_class [OF wf]
        split: cond_op.splits option.splits)
  show "subjects t = [a, b] \<Longrightarrow> class_at (objectStorage s) b = Some MutexObject"
  proof -
    assume two: "subjects t = [a, b]"
    then obtain th op c where t: "t = MCCondTransition th op c"
      by (cases t) (auto simp: subjects_def split: thread_op.splits)
    show ?thesis
    proof (cases op)
      case (CondEnqueue m)
      then show ?thesis using two assms(2) get_class(1) [OF wf] by (auto simp: t subjects_def current_def Let_def)
    next
      case (CondWait mo)
      then show ?thesis
        using two wait_mutex_class [OF assms(1) assms(2) [unfolded t]] by (auto simp: t subjects_def split: option.splits)
    qed (use two in \<open>simp_all add: t subjects_def\<close>)
  qed
qed

lemma same_rep_same_operation:
  assumes wt: "well_typed s" "well_typed s'" "grows s s'"
    and get: "getNextTransitionForThread s p = Inr t" "getNextTransitionForThread s' q = Inr u"
    and rep: "toUniqueRep (objectStorage s) junk hadWaiters t = Inr r"
      "toUniqueRep (objectStorage s') junk' hadWaiters' u = Inr r'" "uniqueRepEqual r r'"
  shows "p = q" and "typeId_of t = typeId_of u" and "subjects t = subjects u"
proof -
  have ty: "typed s" "typed s'" using wt by (simp_all add: well_typed_def)
  note cur = pending_current [OF wt(1) get(1)] pending_current [OF wt(2) get(2)]
  note t = rep_spec [OF rep(1)] and u = rep_spec [OF rep(2)]
  note injective = count_injective_later [of "objectStorage s" "objectStorage s'", OF grows_class [OF wt(3)]]
  have r: "r' = r" using rep(3) by simp
  show "p = q" using t(2) u(2) pending_read(1) [OF wt(1) get(1)] pending_read(1) [OF wt(2) get(2)] r by simp
  show type: "typeId_of t = typeId_of u" using t(1) u(1) r by simp
  have shape: "subject_class t = subject_class u" using type by (simp add: type_determines(1))
  have len: "length (subjects t) = length (subjects u)" "length (subjects t) \<le> 2"
    using type_determines(2) [of t] type_determines(2) [of u] t(5) u(5) type
    by (cases "typeId_of t = MC_COND_WAIT"; simp add: number_of_subjects_def split: if_splits)+
  have first: "a = b" if "subjects t = a # as" "subjects u = b # bs" for a b as bs
  proof (cases "subject_class u")
    case None
    then show ?thesis using t(3) [OF that(1)] u(3) [OF that(2)] shape r by simp
  next
    case (Some k)
    show ?thesis
      by (rule injective [of a k "fst (rep_param r)"])
         (use t(3) [OF that(1)] u(3) [OF that(2)] shape r Some subject_classes(1) [OF ty(1) cur(1) that(1)]
            subject_classes(1) [OF ty(2) cur(2) that(2)] in simp_all)
  qed
  have second: "a' = b'" if "subjects t = [a, a']" "subjects u = [b, b']" for a b a' b'
    using t(4) [OF that(1)] u(4) [OF that(2)] r
      subject_classes(2) [OF ty(1) cur(1) that(1)] subject_classes(2) [OF ty(2) cur(2) that(2)]
    by (auto intro: injective)
  show "subjects t = subjects u"
  proof (cases "subjects t")
    case Nil
    then show ?thesis using len by simp
  next
    case (Cons a as)
    then obtain b bs where u': "subjects u = b # bs" using len by (cases "subjects u") auto
    then have "length as = length bs" "length as \<le> 1" using len Cons by simp_all
    then consider "as = []" "bs = []" | a' b' where "as = [a']" "bs = [b']"
      by (cases as; cases bs; auto)
    then show ?thesis
    proof cases
      case 1
      then show ?thesis using first [OF Cons u'] Cons u' by simp
    next
      case (2 a' b')
      then show ?thesis using first [OF Cons u'] second [of a a' b b'] Cons u' by simp
    qed
  qed
qed

section \<open>What a visited state is\<close>

lemma snapshot_reps:
  assumes "snapshot junk hadWaiters s n en = Inr l"
  shows "enabled l = en" and "length (visited_nextTransitions l) = n"
    and "q < n \<Longrightarrow> \<exists>t. getNextTransitionForThread s q = Inr t
      \<and> toUniqueRep (objectStorage s) (junk q) (hadWaiters q) t = Inr (visited_nextTransitions l ! q)"
proof -
  let ?step = "\<lambda>q reps. bindR (getNextTransitionForThread s q) (\<lambda>t.
      bindR (toUniqueRep (objectStorage s) (junk q) (hadWaiters q) t) (\<lambda>r. Inr (reps @ [r])))"
  from assms obtain reps where reps: "foldR ?step [0..<n] [] = Inr reps" and l: "enabled l = en"
    "visited_nextTransitions l = reps"
    by (auto simp: snapshot_def bindR_eq_Inr)
  have "length reps = n \<and> (\<forall>q < n. \<exists>t. getNextTransitionForThread s q = Inr t
      \<and> toUniqueRep (objectStorage s) (junk q) (hadWaiters q) t = Inr (reps ! q))"
    using reps
  proof (induction n arbitrary: reps)
    case (Suc n)
    then obtain reps' t r where "foldR ?step [0..<n] [] = Inr reps'" "reps = reps' @ [r]"
      "getNextTransitionForThread s n = Inr t" "toUniqueRep (objectStorage s) (junk n) (hadWaiters n) t = Inr r"
      by (auto simp: foldR_append bindR_eq_Inr)
    then show ?case using Suc.IH [of reps'] by (auto simp: nth_append less_Suc_eq)
  qed simp
  with l show "enabled l = en" "length (visited_nextTransitions l) = n"
    "q < n \<Longrightarrow> \<exists>t. getNextTransitionForThread s q = Inr t
      \<and> toUniqueRep (objectStorage s) (junk q) (hadWaiters q) t = Inr (visited_nextTransitions l ! q)" by simp_all
qed

lemma transitionsEqual_spec:
  "transitionsEqual old now = Inr True \<Longrightarrow> q < length now \<Longrightarrow> uniqueRepEqual (old ! q) (now ! q)"
  by (induction old now arbitrary: q rule: transitionsEqual.induct) (auto simp: nth_Cons split: if_splits nat.splits)

lemma revisited_spec:
  assumes "revisited visited now = Inr True"
  shows "\<exists>old \<in> set visited. enabled old = enabled now
    \<and> transitionsEqual (visited_nextTransitions old) (visited_nextTransitions now) = Inr True
    \<and> objectsEqual (objects old) (objects now) = Inr True"
  using assms by (induction visited) (auto simp: bindR_eq_Inr split: if_splits)

text \<open>The states a test keeps are those it has been in on the way to the present one.\<close>

definition kept_state ::
  "target_program \<Rightarrow> search_options \<Rightarrow> nat \<Rightarrow> search_state \<Rightarrow> stateLlock \<Rightarrow> bool" where
  "kept_state prog opts n st' old \<longleftrightarrow> (\<exists>st ts junk hadWaiters.
     sound_state st \<and> test_run prog opts st ts st'
     \<and> snapshot junk hadWaiters (programState st) n (enabled old) = Inr old)"

definition waits_for_the_same :: "nat \<Rightarrow> mcstack \<Rightarrow> mcstack \<Rightarrow> bool" where
  "waits_for_the_same n s s' \<longleftrightarrow> (\<forall>q < n. \<exists>t u.
     getNextTransitionForThread s q = Inr t \<and> getNextTransitionForThread s' q = Inr u
     \<and> typeId_of t = typeId_of u \<and> subjects t = subjects u)"

lemma same_snapshot_waits:
  assumes "sound_state st" and "test_run prog opts st ts st'"
    and "snapshot jk hw (programState st) n en = Inr old" and "snapshot jk' hw' (programState st') n en' = Inr now"
    and "transitionsEqual (visited_nextTransitions old) (visited_nextTransitions now) = Inr True"
  shows "waits_for_the_same n (programState st) (programState st')"
  unfolding waits_for_the_same_def
proof (intro allI impI)
  fix q
  assume q: "q < n"
  have wt: "well_typed (programState st)" "well_typed (programState st')"
    using assms(1) test_run_sound(1) [OF assms(2,1)] by (simp_all add: sound_state_def)
  from snapshot_reps(3) [OF assms(3) q] obtain t where t: "getNextTransitionForThread (programState st) q = Inr t"
    "toUniqueRep (objectStorage (programState st)) (jk q) (hw q) t = Inr (visited_nextTransitions old ! q)" by blast
  from snapshot_reps(3) [OF assms(4) q] obtain u where u: "getNextTransitionForThread (programState st') q = Inr u"
    "toUniqueRep (objectStorage (programState st')) (jk' q) (hw' q) u = Inr (visited_nextTransitions now ! q)" by blast
  have "uniqueRepEqual (visited_nextTransitions old ! q) (visited_nextTransitions now ! q)"
    using transitionsEqual_spec [OF assms(5)] q snapshot_reps(2) [OF assms(4)] by simp
  from same_rep_same_operation(2,3) [OF wt test_run_grows [OF assms(2,1)] t(1) u(1) t(2) u(2) this] t(1) u(1)
  show "\<exists>t u. getNextTransitionForThread (programState st) q = Inr t
     \<and> getNextTransitionForThread (programState st') q = Inr u
     \<and> typeId_of t = typeId_of u \<and> subjects t = subjects u" by blast
qed

definition first_visited :: "search_state \<Rightarrow> (nat \<Rightarrow> nat) \<Rightarrow> stateLlock result" where
  "first_visited st junk = snapshot junk (\<lambda>_. False) (programState st) 1 {0}"

lemma spin_revisited: "at_trace_end spin_program (\<lambda>t st st1.
    case getNextTransitionForThread (programState st1) 0 of Inl e \<Rightarrow> False | Inr u \<Rightarrow>
      transitionEnabledInState u \<and> \<not> isProgressTransition u
      \<and> (case first_visited st1 (\<lambda>_. 7) of Inl e \<Rightarrow> False | Inr old \<Rightarrow>
         (case runTransition spin_program default_options u st1 of Inl e \<Rightarrow> False | Inr st2 \<Rightarrow>
          (case stateIsRevisited (\<lambda>_. 7) (\<lambda>_. False) (programState st2) 1 {0} [old] of
             Inl e \<Rightarrow> False | Inr (found, visited) \<Rightarrow> found))))"
  by code_simp

text \<open>
  When the test for visited states recognises a state, then an earlier state of the livelock
  test has the same pending operations on the same objects: the unique representations, which
  hold only the place of an object among those of its class, never make two different operations
  look alike, although objects are created in between and whatever the bytes are that a variable
  leaves unset.
\<close>

theorem revisited_states_wait_for_the_same:
  assumes "\<forall>old \<in> set visited. kept_state prog opts n st' old"
    and "stateIsRevisited junk hadWaiters (programState st') n en visited = Inr (True, visited')"
  shows "\<exists>st ts. sound_state st \<and> test_run prog opts st ts st'
    \<and> waits_for_the_same n (programState st) (programState st')"
proof -
  from assms(2) obtain now where now: "snapshot junk hadWaiters (programState st') n en = Inr now"
    and "revisited visited now = Inr True"
    by (auto simp: stateIsRevisited_def bindR_eq_Inr)
  from revisited_spec [OF this(2)] obtain old where "old \<in> set visited"
    and eq: "transitionsEqual (visited_nextTransitions old) (visited_nextTransitions now) = Inr True" by blast
  with assms(1) obtain st ts junk0 hw0 where st: "sound_state st" "test_run prog opts st ts st'"
    and "snapshot junk0 hw0 (programState st) n (enabled old) = Inr old"
    unfolding kept_state_def by blast
  from same_snapshot_waits [OF st this(3) now eq] st show ?thesis by blast
qed

theorem revisited_states_wait_for_the_same_witness:
  "at_trace_end spin_program (\<lambda>t st st1. \<exists>old st2 visited.
     stateIsRevisited (\<lambda>_. 7) (\<lambda>_. False) (programState st2) 1 {0} [old] = Inr (True, visited)
     \<and> (\<exists>st3 ts. sound_state st3 \<and> test_run spin_program default_options st3 ts st2
          \<and> waits_for_the_same 1 (programState st3) (programState st2)))"
  using spin_revisited
proof (rule at_trace_end_mono)
  fix t st st1
  assume r: "checked_reachable spin_program livelock_environment default_options no_depth (Some t, st)"
    and c: "iterationToChoice spin_program default_options t st = Inr (None, st1)"
    and run: "case getNextTransitionForThread (programState st1) 0 of Inl e \<Rightarrow> False | Inr u \<Rightarrow>
      transitionEnabledInState u \<and> \<not> isProgressTransition u
      \<and> (case first_visited st1 (\<lambda>_. 7) of Inl e \<Rightarrow> False | Inr old \<Rightarrow>
         (case runTransition spin_program default_options u st1 of Inl e \<Rightarrow> False | Inr st2 \<Rightarrow>
          (case stateIsRevisited (\<lambda>_. 7) (\<lambda>_. False) (programState st2) 1 {0} [old] of
             Inl e \<Rightarrow> False | Inr (found, visited) \<Rightarrow> found)))"
  then obtain u old st2 visited where u: "getNextTransitionForThread (programState st1) 0 = Inr u"
    "transitionEnabledInState u" "\<not> isProgressTransition u"
    and old: "first_visited st1 (\<lambda>_. 7) = Inr old"
    and st2: "runTransition spin_program default_options u st1 = Inr st2"
    and found: "stateIsRevisited (\<lambda>_. 7) (\<lambda>_. False) (programState st2) 1 {0} [old] = Inr (True, visited)"
    by (auto split: sum.splits prod.splits)
  have "sound_state st1" by (rule trace_end_sound(1) [OF r program_orders(1) c])
  moreover have "enabled old = {0}" using snapshot_reps(1) old by (simp add: first_visited_def)
  ultimately have "\<forall>old \<in> set [old]. kept_state spin_program default_options 1 st2 old"
    using test_run_one(2) [OF u st2] old by (auto simp: kept_state_def first_visited_def)
  from revisited_states_wait_for_the_same [OF this found] found
  show "\<exists>old st2 visited.
     stateIsRevisited (\<lambda>_. 7) (\<lambda>_. False) (programState st2) 1 {0} [old] = Inr (True, visited)
     \<and> (\<exists>st3 ts. sound_state st3 \<and> test_run spin_program default_options st3 ts st2
          \<and> waits_for_the_same 1 (programState st3) (programState st2))" by blast
qed

section \<open>What the test for visited states overlooks\<close>

lemma locks_look_alike: "MCObjectEquals (VRWLock l) (VRWLock l')" "MCObjectEquals (VRWWLock w) (VRWWLock w')"
  "MCObjectEquals (VBarrier b) (VBarrier b')" "MCObjectEquals (VThread th) (VThread th')"
  by (simp_all add: MCObjectEquals_def)

text \<open>An object that was registered since a state was visited is compared with one past the end.\<close>

lemma new_object_past_the_end:
  assumes "enabled old = enabled now" and "visited_nextTransitions old = visited_nextTransitions now"
    and "length (objects old) < length (objects now)"
    and "list_all2 MCObjectEquals (objects old) (take (length (objects old)) (objects now))"
  shows "revisited (old # visited) now = Inl OutOfBounds"
proof -
  have reps: "transitionsEqual rs rs = Inr True" for rs by (induction rs) simp_all
  have "objectsEqual bs cs = Inl OutOfBounds"
    if "list_all2 MCObjectEquals bs (take (length bs) cs)" "length bs < length cs" for bs cs
    using that by (induction bs cs rule: objectsEqual.induct) auto
  then show ?thesis using assms by (simp add: reps)
qed

end
