(* ===== verification/EarlyStoppingProperties.thy ===== *)
theory EarlyStoppingProperties
  imports EarlyStopping UniqueRepProperties
begin

text \<open>
  The livelock test with early stopping runs like the one without (\<open>early\<close>, an interpretation of the
  \<open>livelock_test\<close> of \<open>LivelockRuns\<close>), comes to an end, and stops a cycle only in a state that waits for the
  same operations as an earlier state of the cycle, when no thread that is blocked waits for an object the
  cycle has used.
\<close>

section \<open>States that are kept\<close>

lemma currentlyEnabled_same:
  assumes "currentlyEnabledThreads opts st = Inr (en, st')"
  shows "same_run st st'" and "traceSeq opts = None \<Longrightarrow>
    en = {q. q < getNumProgramThreads (programState st) \<and> (\<exists>t. getNextTransitionForThread (programState st) q = Inr t
      \<and> transitionEnabledInState t)}"
proof -
  from assms obtain entry where e: "getNextTraceSeqEntry opts (enabledTraceSeqIdx st)
      (st\<lparr>enabledTraceSeqIdx := enabledTraceSeqIdx st + 1\<rparr>) = Inr (entry, st')"
    and en: "getCurrentlyEnabledThreads entry (programState st') = Inr en"
    by (auto simp: currentlyEnabledThreads_def result_simps liftR_eq_Inr)
  show same: "same_run st st'"
    using e by (auto simp: getNextTraceSeqEntry_def same_run_def setEndOfTraceSeq_def result_simps
        split: if_splits option.splits)
  assume "traceSeq opts = None"
  then have neg: "entry < 0"
    using e by (auto simp: getNextTraceSeqEntry_def split: if_splits)
  have fold: "foldR (\<lambda>i acc. bindR (getNextTransitionForThread s i) (\<lambda>t.
      Inr (if transitionEnabledInState t then insert i acc else acc))) is acc = Inr r \<Longrightarrow>
    r = acc \<union> {q \<in> set is. \<exists>t. getNextTransitionForThread s q = Inr t \<and> transitionEnabledInState t}"
    for s "is" acc r
    by (induction "is" arbitrary: acc) (auto simp: bindR_eq_Inr split: if_splits)
  show "en = {q. q < getNumProgramThreads (programState st) \<and> (\<exists>t. getNextTransitionForThread (programState st) q = Inr t
      \<and> transitionEnabledInState t)}"
    using en neg same fold [of "programState st" "[0..<getNumProgramThreads (programState st)]" "{}" en]
    by (auto simp: getCurrentlyEnabledThreads_def same_run_def)
qed

lemma visitState_cases:
  assumes "visitState opts es n visited st = Inr (b, visited', st')"
  obtains en where "same_run st st'"
    and "stateIsRevisited (junk es st') (had_waiters es st') (programState st') n en visited = Inr (b, visited')"
proof -
  from assms obtain en where "currentlyEnabledThreads opts st = Inr (en, st')"
    "stateIsRevisited (junk es st') (had_waiters es st') (programState st') n en visited = Inr (b, visited')"
    by (auto simp: visitState_def result_simps liftR_eq_Inr)
  then show thesis using currentlyEnabled_same(1) that by blast
qed

text \<open>A state of the cycle that started in \<open>st0\<close>, on the way to \<open>st\<close>.\<close>

definition kept ::
  "target_program \<Rightarrow> search_options \<Rightarrow> nat \<Rightarrow> search_state \<Rightarrow> search_state \<Rightarrow> stateLlock \<Rightarrow> bool" where
  "kept prog opts n st0 st old \<longleftrightarrow> (\<exists>st1 us ts jk hw. us \<noteq> [] \<and> test_run prog opts st0 us st1 \<and> test_run prog opts st1 ts st
     \<and> snapshot jk hw (programState st1) n (enabled old) = Inr old)"

lemma kept_on:
  "kept prog opts n st0 st old \<Longrightarrow> test_run prog opts st ts st' \<Longrightarrow> kept prog opts n st0 st' old"
  unfolding kept_def using test_run_trans by blast

lemma stateIsRevisited_cases:
  assumes "stateIsRevisited jk hw s n en visited = Inr (b, visited')"
  obtains now where "snapshot jk hw s n en = Inr now" and "enabled now = en" and "revisited visited now = Inr b"
    and "visited' = (if b then visited else visited @ [now])"
  using assms snapshot_reps(1) by (auto simp: stateIsRevisited_def result_simps)

lemma kept_after_visit:
  assumes "visitState opts es n visited st = Inr (b, visited', st')"
    and "\<forall>old \<in> set visited. kept prog opts n st0 st old" and "test_run prog opts st0 us st" and "us \<noteq> []"
  shows "\<forall>old \<in> set visited'. kept prog opts n st0 st' old" and "test_run prog opts st0 us st'"
proof -
  from assms(1) obtain en where same: "same_run st st'"
    and visit: "stateIsRevisited (junk es st') (had_waiters es st') (programState st') n en visited = Inr (b, visited')"
    by (rule visitState_cases)
  from visit obtain now where now: "snapshot (junk es st') (had_waiters es st') (programState st') n en = Inr now"
    "enabled now = en" "visited' = (if b then visited else visited @ [now])"
    by (rule stateIsRevisited_cases)
  have onto: "test_run prog opts st0 ts st'" if "test_run prog opts st0 ts st" "ts \<noteq> []" for st0 ts
    using that same
  proof (cases rule: test_run.cases)
    case (go ts st1 q t st2)
    then show ?thesis using test_run.go [OF go(2-6)] same by (auto simp: same_run_def)
  qed simp
  show run: "test_run prog opts st0 us st'" by (rule onto [OF assms(3,4)])
  have "kept prog opts n st0 st' now"
    unfolding kept_def using assms(4) run test_run.stay now(1,2) by blast
  moreover have "kept prog opts n st0 st' old" if "kept prog opts n st0 st old" for old
  proof -
    from that obtain st1 us ts jk hw where k: "us \<noteq> []" "test_run prog opts st0 us st1" "test_run prog opts st1 ts st"
      "snapshot jk hw (programState st1) n (enabled old) = Inr old" unfolding kept_def by blast
    show ?thesis
    proof (cases "ts = []")
      case True
      then have "st1 = st" using k(3) by (auto elim: test_run.cases)
      then have "snapshot jk hw (programState st') n (enabled old) = Inr old" "test_run prog opts st0 us st'"
        using k same onto by (auto simp: same_run_def)
      then show ?thesis unfolding kept_def using k(1) test_run.stay by blast
    next
      case False
      then show ?thesis unfolding kept_def using k onto [OF k(3) False] by blast
    qed
  qed
  ultimately show "\<forall>old \<in> set visited'. kept prog opts n st0 st' old" using assms(2) now(3) by auto
qed

section \<open>One step\<close>

text \<open>What a step that stops the cycle has found.\<close>

definition comes_back ::
  "target_program \<Rightarrow> search_options \<Rightarrow> nat \<Rightarrow> search_state \<Rightarrow> search_state \<Rightarrow> bool" where
  "comes_back prog opts n st0 st \<longleftrightarrow> (\<exists>st1 us ts. us \<noteq> [] \<and> ts \<noteq> [] \<and> test_run prog opts st0 us st1
     \<and> test_run prog opts st1 ts st \<and> waits_for_the_same n (programState st1) (programState st))"

definition nobody_waits :: "nat \<Rightarrow> livelock_cycle \<Rightarrow> bool" where
  "nobody_waits cycleStart c \<longleftrightarrow> (let s = programState (cycle_state c) in
     \<forall>p u. p \<in> threadIsRelated c - threadIsExplored c \<longrightarrow> getNextTransitionForThread s p = Inr u \<longrightarrow>
       \<not> transitionEnabledInState u \<longrightarrow>
       (\<forall>v \<in> set (drop cycleStart (transitionStack s)).
          getObjectsAccessedByTransition u \<inter> getObjectsAccessedByTransition v = {}))"

lemma canStopSafely_spec:
  assumes "canStopSafely iter s rel expl en cycleStart = Inr True" and "p \<in> set (iter rel)"
    and "p \<notin> expl" and "p \<notin> en" and "getNextTransitionForThread s p = Inr t"
    and "v \<in> set (drop cycleStart (transitionStack s))"
  shows "getObjectsAccessedByTransition t \<inter> getObjectsAccessedByTransition v = {}"
proof -
  let ?f = "\<lambda>q safe. if \<not> safe \<or> q \<in> expl \<or> q \<in> en then Inr safe
        else bindR (getNextTransitionForThread s q) (\<lambda>t. Inr (\<forall>u \<in> set (drop cycleStart (transitionStack s)).
                 getObjectsAccessedByTransition t \<inter> getObjectsAccessedByTransition u = {}))"
  from assms(1) have "foldR ?f (iter rel) True = Inr True" by (simp add: canStopSafely_def)
  from foldR_visit [OF this assms(2)] obtain ps qs b b' where
    b: "foldR ?f ps True = Inr b" "?f p b = Inr b'" "foldR ?f qs b' = Inr True" .
  have false: "foldR ?f ps False = Inr False" for ps by (induction ps) simp_all
  have "b'" using b(3) false [of qs] by (cases b') simp_all
  moreover have "b" using b(2) \<open>b'\<close> by (cases b) simp_all
  ultimately show ?thesis using b(2) assms(3-6) by simp
qed

lemma relateThreads_finite:
  "relateThreads n rel s = Inr rel' \<Longrightarrow> finite rel \<Longrightarrow> finite rel'"
  unfolding relateThreads_def
  by (erule foldR_invariant [where P = finite]) (auto simp: bindR_eq_Inr split: if_splits)

lemma nobody_waits_when_safe:
  assumes safe: "canStopSafely (set_order prog) (programState (cycle_state c)) (threadIsRelated c) (threadIsExplored c)
      en cycleStart = Inr True"
    and en: "currentlyEnabledThreads opts st = Inr (en, cycle_state c)"
    and fin: "finite (threadIsRelated c)"
    and simple: "traceSeq opts = None" "iteration_order (set_order prog)"
  shows "nobody_waits cycleStart c"
  unfolding nobody_waits_def Let_def
proof (intro allI impI ballI)
  fix p u v
  assume p: "p \<in> threadIsRelated c - threadIsExplored c"
    and u: "getNextTransitionForThread (programState (cycle_state c)) p = Inr u" "\<not> transitionEnabledInState u"
    and v: "v \<in> set (drop cycleStart (transitionStack (programState (cycle_state c))))"
  have "p \<notin> en"
    using currentlyEnabled_same [OF en] simple(1) u by (auto simp: same_run_def)
  moreover have "p \<in> set (set_order prog (threadIsRelated c))" using iter_set [OF simple(2) fin] p by simp
  ultimately show "getObjectsAccessedByTransition u \<inter> getObjectsAccessedByTransition v = {}"
    using canStopSafely_spec [OF safe _ _ _ u(1) v] p by blast
qed

text \<open>The invariant of the loop: \<open>us\<close> is what the cycle has run since \<open>st0\<close>.\<close>

definition on_the_way ::
  "target_program \<Rightarrow> search_options \<Rightarrow> nat \<Rightarrow> search_state \<Rightarrow> tid set \<Rightarrow> transition list \<Rightarrow> livelock_cycle \<Rightarrow>
     stateLlock list \<Rightarrow> bool" where
  "on_the_way prog opts n st0 expl us c visited \<longleftrightarrow>
     us \<noteq> [] \<and> test_run prog opts st0 us (cycle_state c) \<and> threadIsExplored c = expl \<union> getThreadId ` set us
     \<and> finite (threadIsRelated c) \<and> (\<forall>old \<in> set visited. kept prog opts n st0 (cycle_state c) old)"

definition safely_stopped ::
  "target_program \<Rightarrow> search_options \<Rightarrow> nat \<Rightarrow> nat \<Rightarrow> search_state \<Rightarrow> livelock_cycle \<Rightarrow> bool" where
  "safely_stopped prog opts n cycleStart st0 c \<longleftrightarrow> comes_back prog opts n st0 (cycle_state c)
     \<and> (traceSeq opts = None \<longrightarrow> iteration_order (set_order prog) \<longrightarrow> nobody_waits cycleStart c)"

lemma comes_back_intro:
  assumes visit: "stateIsRevisited jk hw (programState st3) n en visited = Inr (True, visited')"
    and visited: "\<forall>old \<in> set visited. kept prog opts n st0 st old" and st0: "sound_state st0"
    and go: "test_run prog opts st [t] st3"
  shows "comes_back prog opts n st0 st3" and "visited' = visited"
proof -
  from visit obtain now where now: "snapshot jk hw (programState st3) n en = Inr now"
    and "revisited visited now = Inr True" and same: "visited' = visited" by (auto elim: stateIsRevisited_cases)
  from revisited_spec [OF this(2)] obtain old where old: "old \<in> set visited"
    "transitionsEqual (visited_nextTransitions old) (visited_nextTransitions now) = Inr True" by blast
  with visited obtain sta vs ts jk' hw' where k: "vs \<noteq> []" "test_run prog opts st0 vs sta"
    "test_run prog opts sta ts st" "snapshot jk' hw' (programState sta) n (enabled old) = Inr old"
    unfolding kept_def by blast
  have again: "test_run prog opts sta (ts @ [t]) st3" by (rule test_run_trans [OF go k(3)])
  from k(1,2) again same_snapshot_waits [OF test_run_sound(1) [OF k(2) st0] again k(4) now old(2)]
  show "comes_back prog opts n st0 st3" unfolding comes_back_def by blast
  from same show "visited' = visited" .
qed

lemma earlyStep_runs:
  assumes step: "earlyStep prog opts es n cycleStart c visited = Inr r" and st0: "sound_state st0"
    and way: "on_the_way prog opts n st0 expl us c visited"
  shows "case r of
      Reports st \<Rightarrow> st = cycle_state c
    | GoesOn c' visited' \<Rightarrow> \<exists>ts. length ts \<le> 1 \<and> on_the_way prog opts n st0 expl (us @ ts) c' visited'
    | Stops c' \<Rightarrow> \<exists>ts. length ts \<le> 1 \<and> on_the_way prog opts n st0 expl (us @ ts) c' []
        \<and> safely_stopped prog opts n cycleStart st0 c'"
proof -
  let ?st = "cycle_state c"
  have run: "us \<noteq> []" "test_run prog opts st0 us ?st" "threadIsExplored c = expl \<union> getThreadId ` set us"
    and fin: "finite (threadIsRelated c)" and visited: "\<forall>old \<in> set visited. kept prog opts n st0 ?st old"
    using way by (simp_all add: on_the_way_def)
  have sound: "sound_state ?st" by (rule test_run_sound(1) [OF run(2) st0])
  from step obtain rel q t where rel: "relateThreads n (threadIsRelated c) (programState ?st) = Inr rel"
    and t: "getNextTransitionForThread (programState ?st) q = Inr t"
    and r: "(if \<not> transitionEnabledInState t
        then Inr (GoesOn (c\<lparr>threadIsRelated := rel, next_tid := q\<rparr>) visited)
        else if isProgressTransition t then Inr (Reports ?st)
        else bindR (runTransition prog opts t ?st) (\<lambda>st1.
             bindR (visitState opts es n visited st1) (\<lambda>(revisited, visited', st2).
               let expl = insert q (threadIsExplored c);
                   after = (\<lambda>st'. \<lparr>threadIsRelated = rel, threadIsExplored = expl, next_tid = q, cycle_state = st'\<rparr>)
               in if \<not> revisited then Inr (GoesOn (after st2) visited')
                  else bindR (currentlyEnabledThreads opts st2) (\<lambda>(en, st3).
                       bindR (liftR (canStopSafely (set_order prog) (programState st3) rel expl en cycleStart))
                         (\<lambda>safe. Inr (if safe then Stops (after st3) else GoesOn (after st3) visited')))))) = Inr r"
    unfolding earlyStep_def Let_def bindR_eq_Inr liftR_eq_Inr by blast
  note fin' = relateThreads_finite [OF rel fin]
  have own: "getThreadId t = q" using pending_read(1) [OF _ t] sound by (simp add: sound_state_def)
  show ?thesis
  proof (cases "transitionEnabledInState t \<and> \<not> isProgressTransition t")
    case False
    then show ?thesis
      using r way fin' by (auto simp: on_the_way_def split: if_splits intro!: exI [of _ "[]"])
  next
    case True
    then have en: "transitionEnabledInState t" "\<not> isProgressTransition t" by simp_all
    let ?after = "\<lambda>st'. \<lparr>threadIsRelated = rel, threadIsExplored = insert q (threadIsExplored c), next_tid = q,
      cycle_state = st'\<rparr>"
    from True r obtain st1 b visited' st2 where st1: "runTransition prog opts t ?st = Inr st1"
      and visit: "visitState opts es n visited st1 = Inr (b, visited', st2)"
      and rest: "(if \<not> b then Inr (GoesOn (?after st2) visited')
                  else bindR (currentlyEnabledThreads opts st2) (\<lambda>(en, st3).
                       bindR (liftR (canStopSafely (set_order prog) (programState st3) rel
                          (insert q (threadIsExplored c)) en cycleStart))
                         (\<lambda>safe. Inr (if safe then Stops (?after st3) else GoesOn (?after st3) visited')))) = Inr r"
      by (auto simp: bindR_eq_Inr Let_def)
    note one = test_run_one [OF t en st1]
    have after: "on_the_way prog opts n st0 expl (us @ [t]) (?after st') vs"
      if "same_run st1 st'" "\<forall>old \<in> set vs. kept prog opts n st0 st' old" for st' vs
      using that run(3) own fin' test_run_trans [OF one(3) [OF that(1)] run(2)] by (simp add: on_the_way_def)
    have visited1: "\<forall>old \<in> set visited. kept prog opts n st0 st1 old" using visited kept_on [OF _ one(2)] by blast
    note kept2 = kept_after_visit(1) [OF visit visited1 test_run_trans [OF one(2) run(2)]]
    from visit obtain en2 where same2: "same_run st1 st2"
      and look: "stateIsRevisited (junk es st2) (had_waiters es st2) (programState st2) n en2 visited = Inr (b, visited')"
      by (rule visitState_cases)
    show ?thesis
    proof (cases b)
      case False
      then have "r = GoesOn (?after st2) visited'" using rest by simp
      then show ?thesis using after [OF same2 kept2] by (auto intro!: exI [of _ "[t]"])
    next
      case True
      with rest obtain enb st3 safe where st3: "currentlyEnabledThreads opts st2 = Inr (enb, st3)"
        and safe: "canStopSafely (set_order prog) (programState st3) rel (insert q (threadIsExplored c)) enb cycleStart
          = Inr safe"
        and r': "r = (if safe then Stops (?after st3) else GoesOn (?after st3) visited')"
        by (auto simp: bindR_eq_Inr liftR_eq_Inr)
      note same3 = currentlyEnabled_same(1) [OF st3]
      have same: "same_run st1 st3" using same2 same3 by (simp add: same_run_def)
      note go = one(3) [OF same]
      have "stateIsRevisited (junk es st2) (had_waiters es st2) (programState st3) n en2 visited = Inr (True, visited')"
        using look same3 True by (simp add: same_run_def)
      note again = comes_back_intro [OF this visited st0 go]
      have "on_the_way prog opts n st0 expl (us @ [t]) (?after st3) visited'"
        using after [OF same] visited kept_on [OF _ go] again(2) by blast
      moreover have "nobody_waits cycleStart (?after st3)"
        if "safe" "traceSeq opts = None" "iteration_order (set_order prog)"
        by (rule nobody_waits_when_safe [where c = "?after st3" and st = st2])
           (use that safe st3 fin' in simp_all)
      ultimately show ?thesis
        using r' again(1) by (auto simp: safely_stopped_def on_the_way_def intro!: exI [of _ "[t]"])
    qed
  qed
qed

section \<open>A cycle\<close>

lemma earlyLoop_runs:
  assumes "earlyLoop prog opts es n cycleStart is c visited = Inr r" and "sound_state st0"
    and "on_the_way prog opts n st0 expl us c visited"
  shows "case r of
      Reports st \<Rightarrow> \<exists>us'. test_run prog opts st0 us' st \<and> length us' \<le> length us + length is
    | GoesOn c' visited' \<Rightarrow> \<exists>us'. length us' \<le> length us + length is \<and> set us \<subseteq> set us'
        \<and> on_the_way prog opts n st0 expl us' c' visited'
    | Stops c' \<Rightarrow> \<exists>us'. length us' \<le> length us + length is \<and> set us \<subseteq> set us'
        \<and> on_the_way prog opts n st0 expl us' c' [] \<and> safely_stopped prog opts n cycleStart st0 c'"
  using assms(1,3)
proof (induction "is" arbitrary: c us visited)
  case Nil
  then show ?case by auto
next
  case (Cons i "is")
  from Cons.prems(1) obtain r1 where r1: "earlyStep prog opts es n cycleStart c visited = Inr r1"
    and rest: "(case r1 of GoesOn c' visited' \<Rightarrow> earlyLoop prog opts es n cycleStart is c' visited'
      | _ \<Rightarrow> Inr r1) = Inr r"
    by (auto simp: bindR_eq_Inr)
  note step = earlyStep_runs [OF r1 assms(2) Cons.prems(2)]
  show ?case
  proof (cases r1)
    case (Reports st)
    then show ?thesis using step rest Cons.prems(2) by (auto simp: on_the_way_def intro!: exI [of _ us])
  next
    case (Stops c1)
    then obtain ts where "length ts \<le> 1" "on_the_way prog opts n st0 expl (us @ ts) c1 []"
      "safely_stopped prog opts n cycleStart st0 c1" using step by auto
    then show ?thesis using rest Stops by (auto intro!: exI [of _ "us @ ts"])
  next
    case (GoesOn c1 visited1)
    then obtain ts where ts: "length ts \<le> 1" "on_the_way prog opts n st0 expl (us @ ts) c1 visited1"
      using step by auto
    have "earlyLoop prog opts es n cycleStart is c1 visited1 = Inr r" using rest GoesOn by simp
    note ih = Cons.IH [OF this ts(2)]
    have longer: "m \<le> length us + length (i # is)" if "m \<le> length (us @ ts) + length is" for m
      using that ts(1) by simp
    show ?thesis
    proof (cases r)
      case (Reports st')
      then show ?thesis using ih longer by auto
    next
      case (Stops c')
      then show ?thesis using ih longer by (auto intro: exI)
    next
      case (GoesOn c' v')
      then show ?thesis using ih longer by (auto intro: exI)
    qed
  qed
qed

lemma earlyCycle_cases:
  assumes cycle: "earlyCycle prog opts es n d t expl st = Inr r" and sound: "sound_state st"
    and t: "getNextTransitionForThread (programState st) q = Inr t" "transitionEnabledInState t"
    and "\<not> isProgressTransition t"
  obtains c visited where "on_the_way prog opts n st expl [t] c visited"
    and "earlyLoop prog opts es n (length (transitionStack (programState st))) [1..d - 1] c visited = Inr r"
proof -
  from cycle assms(5) obtain st1 b visited st2 where st1: "runTransition prog opts t st = Inr st1"
    and visit: "visitState opts es n [] (st1\<lparr>transitionId := transitionId st1 + 1\<rparr>) = Inr (b, visited, st2)"
    and loop: "earlyLoop prog opts es n (length (transitionStack (programState st2)) - 1) [1..d - 1]
       \<lparr>threadIsRelated = {getThreadId t}, threadIsExplored = insert (getThreadId t) expl,
        next_tid = getThreadId t, cycle_state = st2\<rparr> visited = Inr r"
    by (auto simp: earlyCycle_def bindR_eq_Inr)
  note kept = kept_after_visit [OF visit _ test_run_one(1) [OF t assms(5) st1]]
  from visit have same: "same_run (st1\<lparr>transitionId := transitionId st1 + 1\<rparr>) st2" by (rule visitState_cases)
  have "length (transitionStack (programState st2)) - 1 = length (transitionStack (programState st))"
    using same runTransition_sound(2) [OF st1 sound] by (simp add: same_run_def)
  then show thesis
    using loop kept by (intro that) (auto simp: on_the_way_def)
qed

lemma earlyCycle_runs:
  assumes "earlyCycle prog opts es n d t expl st = Inr r" and "sound_state st"
    and "getNextTransitionForThread (programState st) q = Inr t" and "transitionEnabledInState t"
  shows "case r of
      Reports st' \<Rightarrow> \<exists>us. test_run prog opts st us st' \<and> length us \<le> cycle_length d
    | GoesOn c visited \<Rightarrow> \<exists>us. length us \<le> cycle_length d \<and> t \<in> set us \<and> on_the_way prog opts n st expl us c visited
    | Stops c \<Rightarrow> \<exists>us. length us \<le> cycle_length d \<and> t \<in> set us \<and> on_the_way prog opts n st expl us c []
        \<and> safely_stopped prog opts n (length (transitionStack (programState st))) st c"
proof (cases "isProgressTransition t")
  case True
  then show ?thesis using assms(1) by (auto simp: earlyCycle_def intro!: exI [of _ "[]"] test_run.stay)
next
  case False
  from earlyCycle_cases [OF assms False] obtain c visited where way: "on_the_way prog opts n st expl [t] c visited"
    and loop: "earlyLoop prog opts es n (length (transitionStack (programState st))) [1..d - 1] c visited = Inr r" .
  have "length [t] + length [1..d - 1] \<le> cycle_length d" by (auto simp: cycle_length_def)
  then have len: "m \<le> cycle_length d" if "m \<le> length [t] + length [1..d - 1]" for m using that by linarith
  show ?thesis
    using earlyLoop_runs [OF loop assms(2) way] len
    by (cases r) (simp_all only: early_result.case list.set insert_subset, blast+)
qed

section \<open>The test comes to an end\<close>

lemma currentlyEnabled_no_hang: "currentlyEnabledThreads opts st \<noteq> Inl Hangs"
proof -
  have "getNextTraceSeqEntry opts i st' \<noteq> Inl Hangs" for i st'
    by (auto simp: getNextTraceSeqEntry_def guardR_def split: option.splits)
  then show ?thesis by (simp add: currentlyEnabledThreads_def bindR_eq_Inl)
qed

lemma visitState_no_hang: "visitState opts es n visited st \<noteq> Inl Hangs"
  using currentlyEnabled_no_hang by (auto simp: visitState_def bindR_eq_Inl)

lemma earlyStep_no_hang:
  assumes "sound_state (cycle_state c)"
  shows "earlyStep prog opts es n cycleStart c visited \<noteq> Inl Hangs"
  using runTransition_no_hang [OF sound_process [OF assms]] visitState_no_hang currentlyEnabled_no_hang
  by (auto simp: earlyStep_def Let_def bindR_eq_Inl split: if_splits)

lemma early_case_Inl:
  "(case r of Reports st \<Rightarrow> Inr r | Stops c \<Rightarrow> Inr r | GoesOn c v \<Rightarrow> g c v) = Inl e
     \<longleftrightarrow> (\<exists>c v. r = GoesOn c v \<and> g c v = Inl e)"
  by (cases r) simp_all

lemma earlyLoop_no_hang:
  "sound_state st0 \<Longrightarrow> on_the_way prog opts n st0 expl us c visited \<Longrightarrow>
     earlyLoop prog opts es n cycleStart is c visited \<noteq> Inl Hangs"
proof (induction "is" arbitrary: us c visited)
  case (Cons i "is")
  have "sound_state (cycle_state c)"
    using Cons.prems test_run_sound(1) by (auto simp: on_the_way_def)
  note step = earlyStep_no_hang [OF this]
  show ?case
  proof
    assume "earlyLoop prog opts es n cycleStart (i # is) c visited = Inl Hangs"
    then obtain c' v' where r: "earlyStep prog opts es n cycleStart c visited = Inr (GoesOn c' v')"
      and hang: "earlyLoop prog opts es n cycleStart is c' v' = Inl Hangs"
      using step by (auto simp: bindR_eq_Inl early_case_Inl)
    from earlyStep_runs [OF r Cons.prems] obtain ts where "on_the_way prog opts n st0 expl (us @ ts) c' v'" by auto
    from Cons.IH [OF Cons.prems(1) this] hang show False by simp
  qed
qed simp

lemma earlyCycle_no_hang:
  assumes "sound_state st" and "getNextTransitionForThread (programState st) q = Inr t" and "transitionEnabledInState t"
  shows "earlyCycle prog opts es n d t expl st \<noteq> Inl Hangs"
proof
  assume hang: "earlyCycle prog opts es n d t expl st = Inl Hangs"
  then obtain st1 b visited st2 where progress: "\<not> isProgressTransition t" and st1: "runTransition prog opts t st = Inr st1"
    and visit: "visitState opts es n [] (st1\<lparr>transitionId := transitionId st1 + 1\<rparr>) = Inr (b, visited, st2)"
    and loop: "earlyLoop prog opts es n (length (transitionStack (programState st2)) - 1) [1..d - 1]
       \<lparr>threadIsRelated = {getThreadId t}, threadIsExplored = insert (getThreadId t) expl,
        next_tid = getThreadId t, cycle_state = st2\<rparr> visited = Inl Hangs"
    using runTransition_no_hang [OF sound_process [OF assms(1)]] visitState_no_hang
    by (auto simp: earlyCycle_def bindR_eq_Inl split: if_splits)
  note kept = kept_after_visit [OF visit _ test_run_one(1) [OF assms(2,3) progress st1]]
  have "on_the_way prog opts n st expl [t] \<lparr>threadIsRelated = {getThreadId t},
     threadIsExplored = insert (getThreadId t) expl, next_tid = getThreadId t, cycle_state = st2\<rparr> visited"
    using kept by (auto simp: on_the_way_def)
  from earlyLoop_no_hang [OF assms(1) this] loop show False by blast
qed

text \<open>What the sequence of cycles does with the result of a cycle, stopped or not.\<close>

definition cycle_end :: "early_result \<Rightarrow> cycle_result" where
  "cycle_end r = (case r of Reports st \<Rightarrow> Progress st | Stops c \<Rightarrow> Cycle c | GoesOn c _ \<Rightarrow> Cycle c)"

definition endOfEarlyCycle where
  "endOfEarlyCycle prog opts es n d t expl st = bindR (earlyCycle prog opts es n d t expl st) (Inr \<circ> cycle_end)"

interpretation early: livelock_test prog opts n d "endOfEarlyCycle prog opts es n d" "earlyCycles prog opts es n d"
  for prog opts es n d
proof (unfold_locales, goal_cases)
  case (1 t expl st r q)
  then obtain r' where r': "earlyCycle prog opts es n d t expl st = Inr r'" "r = cycle_end r'"
    by (auto simp: endOfEarlyCycle_def bindR_eq_Inr)
  show ?case
    using earlyCycle_runs [OF r'(1) 1(2-4)] unfolding r'(2)
    by (cases r') (auto simp: cycle_end_def on_the_way_def)
next
  case (2 st q t expl)
  then show ?case using earlyCycle_no_hang by (simp add: endOfEarlyCycle_def bindR_eq_Inl)
next
  case (3 rounds t expl st)
  show ?case
    by (cases "earlyCycle prog opts es n d t expl st")
       (auto simp: earlyCycles.simps [of _ _ _ _ _ rounds] endOfEarlyCycle_def cycle_end_def Let_def
          split: early_result.splits)
qed

section \<open>Properties\<close>

lemma isInLivelockEarly_runs:
  assumes "isInLivelockEarly prog opts es d st = Inr (found, st')" and "sound_state st"
  shows "\<exists>ts. test_run prog opts st ts st' \<and> length ts \<le> getNumProgramThreads (programState st) * cycle_length d
    \<and> (found \<longrightarrow> ts \<noteq> [] \<and> (\<forall>p < getNumProgramThreads (programState st).
        \<exists>u. getNextTransitionForThread (programState st') p = Inr u
        \<and> (transitionEnabledInState u \<longrightarrow> p \<in> getThreadId ` set ts)))"
proof -
  let ?n = "getNumProgramThreads (programState st)"
  from assms(1) obtain t where t: "lastEnabledTransition ?n (programState st) = Inr (Some t)"
    and run: "earlyCycles prog opts es ?n d ?n t {} st = Inr (found, st')"
    by (auto simp: isInLivelockEarly_def Let_def bindR_eq_Inr liftR_eq_Inr split: option.splits)
  from foldR_reads_last [OF t] obtain q where "getNextTransitionForThread (programState st) q = Inr t"
    "transitionEnabledInState t" by blast
  from early.cycles_runs [OF run assms(2) this] show ?thesis by simp
qed

lemma isInLivelockEarly_no_hang:
  assumes "sound_state st"
  shows "isInLivelockEarly prog opts es d st \<noteq> Inl Hangs"
proof
  let ?n = "getNumProgramThreads (programState st)"
  assume "isInLivelockEarly prog opts es d st = Inl Hangs"
  then obtain t where t: "lastEnabledTransition ?n (programState st) = Inr (Some t)"
    and hang: "earlyCycles prog opts es ?n d ?n t {} st = Inl Hangs"
    by (auto simp: isInLivelockEarly_def Let_def bindR_eq_Inl liftR_eq_Inr split: option.splits)
  from foldR_reads_last [OF t] obtain q where "q < ?n" "getNextTransitionForThread (programState st) q = Inr t"
    "transitionEnabledInState t" by blast
  then show False using early.cycles_no_hang [OF assms, of q t ?n "{}" ?n] hang by simp
qed




end
