(* ===== verification/Launcher.thy ===== *)
theory Launcher
  imports Configuration
begin

text \<open>
  The command \<^verbatim>\<open>mcmini\<close> (\<^verbatim>\<open>src/launch.c\<close>): it turns its options into environment variables, puts the
  library of McMini in front of the target and executes the target.  Messages are left out.  A launch
  ends with an exit status, with the execution of the target in an environment, or in undefined
  behaviour of C (\<open>Undefined\<close>: a missing argument is passed to \<^verbatim>\<open>setenv\<close> or \<^verbatim>\<open>strtol\<close> as a null pointer, or
  \<^verbatim>\<open>value\<close> is read before it is set).
\<close>

datatype launch = ExitWith int | Undefined | Executes string "string list" environment

text \<open>One option: how many arguments it takes, and the environment after it.\<close>

type_synonym option_result = "launch + (nat \<times> environment)"

definition setenv :: "env_name \<Rightarrow> string \<Rightarrow> environment \<Rightarrow> environment" where
  "setenv x v env = env(x \<mapsto> v)"

definition unsetenv :: "env_name \<Rightarrow> environment \<Rightarrow> environment" where
  "unsetenv x env = env(x := None)"

section \<open>The options\<close>

text \<open>An option whose value is the next argument.  A value is refused only when the number read is
  0 and something follows it.\<close>

definition value_option :: "env_name \<Rightarrow> string list \<Rightarrow> environment \<Rightarrow> option_result" where
  "value_option x rest env =
     (case rest of
        [] \<Rightarrow> Inl Undefined
      | v # _ \<Rightarrow> if fst (strtol v) = 0 \<and> snd (strtol v) \<noteq> [] then Inl (ExitWith 1)
                 else Inr (2, setenv x v env))"

text \<open>The value of \<^verbatim>\<open>--trace\<close> and the number of arguments taken, if the code sets it at all.\<close>

definition trace_value :: "string \<Rightarrow> string list \<Rightarrow> (string option \<times> nat) option" where
  "trace_value arg rest =
     (if arg = ''--trace'' \<or> arg = ''-t'' then Some (case rest of [] \<Rightarrow> None | v # _ \<Rightarrow> Some v, 2)
      else if take 8 arg = ''--trace='' then Some (Some (drop 8 arg), 1)
      else if take 2 arg = ''-t'' then Some (Some (drop 2 arg), 1)
      else None)"

definition trace_option :: "string \<Rightarrow> string list \<Rightarrow> environment \<Rightarrow> option_result" where
  "trace_option arg rest env =
     (case trace_value arg rest of
        Some (Some v, n) \<Rightarrow>
          if snd (strtol v) = [] then Inr (n, setenv ENV_PRINT_AT_TRACE_ID v env)
          else if isdigit (char_at v 0) \<or> isspace (char_at v 0)
          then Inr (n, setenv ENV_PRINT_AT_TRACE_SEQ v env)
          else Inl (ExitWith 1)
      | _ \<Rightarrow> Inl Undefined)"

definition launch_option :: "string \<Rightarrow> string list \<Rightarrow> environment \<Rightarrow> option_result" where
  "launch_option arg rest env =
     (if arg = ''--max-transitions-total'' \<or> arg = ''-M'' then value_option ENV_MAX_TRANSITIONS_TOTAL rest env
      else if char_at arg 1 = CHR ''M'' \<and> isdigit (char_at arg 2)
      then Inr (1, setenv ENV_MAX_TRANSITIONS_TOTAL (drop 2 arg) env)
      else if arg = ''--max-transitions-per-thread'' \<or> arg = ''-m''
      then value_option ENV_MAX_TRANSITIONS_PER_THREAD rest env
      else if arg = ''--explore-round-robin'' \<or> arg = ''-r'' then Inr (1, setenv ENV_EXPLORE_ROUND_ROBIN ''1'' env)
      else if char_at arg 1 = CHR ''m'' \<and> isdigit (char_at arg 2)
      then Inr (1, setenv ENV_MAX_TRANSITIONS_PER_THREAD (drop 2 arg) env)
      else if char_at arg 1 = CHR ''d'' \<and> isdigit (char_at arg 2)
      then Inr (1, setenv ENV_DEBUG_AT_TRACE_ID (drop 2 arg) env)
      else if arg = ''--verbose'' \<or> arg = ''-v''
      then Inr (1, setenv ENV_VERBOSE (if is_set env ENV_VERBOSE then ''2'' else ''1'') env)
      else if arg = ''--all-deadlocks'' \<or> arg = ''--all'' \<or> arg = ''-a'' then Inr (1, unsetenv ENV_FIRST_DEADLOCK env)
      else if arg = ''--first-deadlock'' \<or> arg = ''--first'' \<or> arg = ''-f''
      then Inr (1, setenv ENV_FIRST_DEADLOCK ''1'' env)
      else if arg = ''--check-for-livelock'' \<or> arg = ''-l'' then Inr (1, setenv ENV_CHECK_FOR_LIVELOCK ''1'' env)
      else if arg = ''--continue-after-data-race'' then Inr (1, setenv ENV_CONTINUE_AFTER_DATA_RACE ''1'' env)
      else if arg = ''--max-livelock-cycle-limit'' \<or> arg = ''-lc''
      then value_option ENV_MAX_LIVELOCK_CYCLE_LIMIT rest env
      else if char_at arg 1 = CHR ''l'' \<and> char_at arg 2 = CHR ''c'' \<and> isdigit (char_at arg 3)
      then Inr (1, setenv ENV_MAX_LIVELOCK_CYCLE_LIMIT (drop 3 arg) env)
      else if arg = ''--check-forward-progress'' \<or> arg = ''-c'' then Inr (1, setenv ENV_CHECK_FORWARD_PROGRESS ''1'' env)
      else if arg = ''--long-test'' then Inr (1, setenv ENV_LONG_TEST ''1'' env)
      else if take 7 arg = ''--trace'' \<or> take 2 arg = ''-t'' then trace_option arg rest env
      else if arg = ''--quiet'' \<or> arg = ''-q'' then Inr (1, setenv ENV_QUIET ''1'' env)
      else Inl (ExitWith 1))"

text \<open>The loop over the arguments; it stops at the first that does not start with a dash.\<close>

fun launch_options :: "string list \<Rightarrow> environment \<Rightarrow> launch + (string list \<times> environment)" where
  "launch_options [] env = Inr ([], env)"
| "launch_options (arg # rest) env =
     (if char_at arg 0 = CHR ''-''
      then bindR (launch_option arg rest env) (\<lambda>(n, env'). launch_options (drop (n - 1) rest) env')
      else Inr (arg # rest, env))"

section \<open>Executing the target\<close>

text \<open>
  The world around the launcher: the files that exist, the directory of the launcher, and what memory
  holds at a distance from the start of the name of the target that leaves the string, where the test
  against \<^verbatim>\<open>mcmini\<close> may read: the distance is a signed byte.
\<close>

record surroundings =
  file_exists :: "string \<Rightarrow> bool"
  launcher_dirname :: string
  string_outside :: "string \<Rightarrow> int \<Rightarrow> string"

definition string_at :: "surroundings \<Rightarrow> string \<Rightarrow> int \<Rightarrow> string" where
  "string_at w s i = (if 0 \<le> i \<and> i \<le> int (length s) then drop (nat i) s else string_outside w s i)"

definition signed_char :: "int \<Rightarrow> int" where
  "signed_char n = signed_take_bit 7 n"

definition is_mcmini :: "surroundings \<Rightarrow> string \<Rightarrow> bool" where
  "is_mcmini w target \<longleftrightarrow> target = ''mcmini'' \<or>
     string_at w target (signed_char (int (length target) - int (length ''mcmini'') - 1)) = ''/mcmini''"

text \<open>\<^verbatim>\<open>snprintf\<close> into 1000 characters: the text is cut, and the assertion on the last one always holds.\<close>

definition preload :: "surroundings \<Rightarrow> environment \<Rightarrow> string" where
  "preload w env =
     take 999 ((case env ENV_LD_PRELOAD of None \<Rightarrow> '''' | Some v \<Rightarrow> v) @ '':'' @ launcher_dirname w @ ''/libmcmini.so'')"

definition execute_target :: "surroundings \<Rightarrow> string list \<Rightarrow> environment \<Rightarrow> launch" where
  "execute_target w args env =
     (case args of
        [] \<Rightarrow> ExitWith 101
      | target # rest \<Rightarrow>
          if \<not> file_exists w target then ExitWith 101
          else if is_mcmini w target then ExitWith 1
          else Executes target args (setenv ENV_LD_PRELOAD (preload w env) env))"

text \<open>\<^verbatim>\<open>main\<close>, with the arguments after the name of the command.\<close>

definition launch_main :: "surroundings \<Rightarrow> string list \<Rightarrow> environment \<Rightarrow> launch" where
  "launch_main w args env =
     (case launch_options (if args = [] then [''--help''] else args) (setenv ENV_FIRST_DEADLOCK ''1'' env) of
        Inl r \<Rightarrow> r
      | Inr (args', env') \<Rightarrow> execute_target w args' env')"

end
