(* ===== verification/CommandLine.thy ===== *)
theory CommandLine
  imports Launcher Demo
begin

text \<open>
  What the command line promises: the options a user gives are the options the search runs with,
  a printed schedule is the schedule that is read, and the limits on the length of a trace hold.
\<close>

section \<open>Options\<close>


definition schedule_text :: "tid list \<Rightarrow> string" where
  "schedule_text ts = concat (map (\<lambda>t. decimal t @ '', '') ts)"
















text \<open>What McMini reads from that environment.\<close>

lemma unset_setenv [simp]: "setenv x v env y = (if y = x then Some v else env y)"
  "unsetenv x env y = (if y = x then None else env y)"
  by (simp_all add: setenv_def unsetenv_def)


lemma schedule_text_read:
  "length ts < room \<Longrightarrow> \<forall>t \<in> set ts. t < 2 ^ 31 \<Longrightarrow>
     trace_string_to_int_array (schedule_text ts) room = Some (map int ts)"
  by (simp add: trace_string_to_int_array_def schedule_text_def commas_to_spaces trace_numbers_printed
      del: map_concat)




section \<open>The length of a trace\<close>








section \<open>A request to try\<close>






section \<open>Where the launcher is too generous\<close>

text \<open>A number followed by anything else is taken, and an unknown option that starts with the name of
  another one reads a variable that was never set.\<close>

lemma garbage_after_a_number_is_accepted:
  "launch_options [''-M'', ''12abc'', ''./a.out''] env =
     Inr ([''./a.out''], setenv ENV_MAX_TRANSITIONS_TOTAL ''12abc'' env)"
  "strtoul ''12abc'' = 12"
proof -
  have "strtol ''12abc'' = (12, ''abc'')" "char_at ''./a.out'' 0 \<noteq> CHR ''-''" by code_simp+
  then show "launch_options [''-M'', ''12abc'', ''./a.out''] env =
     Inr ([''./a.out''], setenv ENV_MAX_TRANSITIONS_TOTAL ''12abc'' env)"
    by (simp add: launch_option_def value_option_def char_at_def)
  show "strtoul ''12abc'' = 12" by code_simp
qed

lemma option_reads_an_unset_value: "launch_options (''--tracer'' # rest) env = Inl Undefined"
  by (simp add: launch_option_def trace_option_def trace_value_def char_at_def isdigit_def)

section \<open>The properties\<close>



text \<open>
  C30. A schedule McMini prints for a trace of fewer than 1000 transitions is read back, when it
  is given with the option for a schedule, as the list of the threads of the trace.
\<close>

theorem printed_schedule_is_read_back:
  assumes "length (transitionStack s) < traceSeq_buflen" and "\<forall>t \<in> set (getThreadIdBacktrace s). t < 2 ^ 31"
  shows "trace_string_to_int_array (printThreadSchedule s) traceSeq_buflen = Some (map int (getThreadIdBacktrace s))"
  using schedule_text_read [of "getThreadIdBacktrace s" traceSeq_buflen] assms
  by (simp add: printThreadSchedule_def schedule_text_def getThreadIdBacktrace_def del: map_map)

theorem printed_schedule_is_read_back_witness:
  "reaches default_options race_program 4 (\<lambda>nxt st.
     trace_string_to_int_array (printThreadSchedule (programState st)) traceSeq_buflen = Some [0, 0, 0, 1])"
proof -
  have "reaches default_options race_program 4 (\<lambda>nxt st. getThreadIdBacktrace (programState st) = [0, 0, 0, 1]
      \<and> length (transitionStack (programState st)) < traceSeq_buflen)"
    by code_simp
  then show ?thesis
    by (rule reaches_mono) (subst printed_schedule_is_read_back, simp_all)
qed



end
