(* ===== verification/Restarting.thy ===== *)
theory Restarting
  imports CommandLine
begin

text \<open>
  Going back to the start of the first trace, which the debugger's \<^verbatim>\<open>mcmini back\<close> asks for by setting
  \<^verbatim>\<open>mc_reset\<close>: \<^verbatim>\<open>restoreInitialTrace\<close> (\<^verbatim>\<open>src/MCStack.cpp\<close>), \<^verbatim>\<open>mc_restore_initial_trace\<close> and the block
  at the end of the search loop (\<^verbatim>\<open>src/mcmini_private.cpp\<close>).
\<close>

section \<open>Operations\<close>

definition restoreInitialTrace :: "sysid \<Rightarrow> mcstack \<Rightarrow> mcstack result" where
  "restoreInitialTrace self s =
     (let s1 = s\<lparr>nextThreadId := 0, objectStorage := newMCObjectStore, nextTransitions := (\<lambda>_. None),
                threadData := (\<lambda>_. MCThreadData_init)\<rparr> in
      bindR (createMainThread self s1) (\<lambda>(_, s2).
      bindR (getThreadWithId s2 TID_MAIN_THREAD) (\<lambda>mainThread.
      bindR (setNextTransitionForThread TID_MAIN_THREAD (createInitialTransitionForThread mainThread) s2) (\<lambda>s3.
        growStateStack (s3\<lparr>nextThreadId := 1, stateStack := [], transitionStack := [],
                           irreversibleStatesStack := []\<rparr>)))))"

definition mc_restore_initial_trace :: "target_program \<Rightarrow> search_state \<Rightarrow> search_state search" where
  "mc_restore_initial_trace prog st =
     bindR (liftR (restoreInitialTrace (main_pthread prog) (programState st))) (\<lambda>s.
       mc_fork_next_trace_at_current_state (mc_terminate_trace
         (st\<lparr>programState := s, traceSeqIdx := 0, lastEndOfTraceId := -1\<rparr>)))"

text \<open>The block of the search loop that finds \<^verbatim>\<open>mc_reset\<close> set.\<close>

definition resetSearch ::
  "target_program \<Rightarrow> search_options \<Rightarrow> search_state \<Rightarrow> (transition option \<times> search_state) search" where
  "resetSearch prog opts st =
     bindR (mc_restore_initial_trace prog st) (\<lambda>st1.
     bindR (getNextTraceSeqEntry opts (traceSeqIdx st1)
              (st1\<lparr>transitionId := 0, traceSeqIdx := traceSeqIdx st1 + 1\<rparr>)) (\<lambda>(entry, st2).
     bindR (liftR (getFirstEnabledTransition entry (programState st2))) (\<lambda>nxt.
       Inr (nxt, st2))))"

section \<open>The thread ids of all reachable states\<close>





section \<open>Back at the start\<close>








text \<open>The map of thread ids keeps what the last run put in: a thread that is created again does not get
  its new object.\<close>

lemma stale_thread:
  assumes "threadIdMap s (nextThreadId s) = Some i" and "createNewThread shadow s = Inr (t, s')"
  shows "t = nextThreadId s" and "threadIdMap s' t = Some i"
  using assms
  by (auto simp: createNewThread_def registerVisibleObjectWithSystemIdentity_def Let_def result_simps split: if_splits)

end
