(* ===== verification/StateSequence.thy ===== *)
theory StateSequence
  imports Prelude "HOL-Library.AList"
begin

text \<open>
  The states of the design prototype (\<^verbatim>\<open>docs/design\<close>): visible objects with the history of their
  states, detached states, sequences of states, the differences from the end of a sequence, and the
  transitions as functions on any of them (\<^verbatim>\<open>include/mcmini/model\<close>, \<^verbatim>\<open>src/mcmini/model\<close>).

  A visible object is its history, a list.  A pointer that an element of a sequence keeps to a state is
  the index of the state in the history of the object; histories only grow and states are constant.
  Maps from ids are association lists.  Indexing past the end and a cast to another class are
  \<open>OutOfBounds\<close>.
\<close>

section \<open>States of objects\<close>

datatype mutex_state_type = uninitialized | unlocked | locked | destroyed

datatype thread_state_type = thread_embryo | running | exited | killed

datatype visible_object_state = MutexState mutex_state_type | ThreadState thread_state_type

definition is_locked :: "mutex_state_type \<Rightarrow> bool" where
  "is_locked m \<longleftrightarrow> m = locked"

definition is_embryo :: "thread_state_type \<Rightarrow> bool" where
  "is_embryo t \<longleftrightarrow> t = thread_embryo"

type_synonym object_history = "visible_object_state list"

definition get_current_state :: "object_history \<Rightarrow> visible_object_state result" where
  "get_current_state h = guardR OutOfBounds (h \<noteq> []) (Inr (last h))"

definition push_state :: "visible_object_state \<Rightarrow> object_history \<Rightarrow> object_history" where
  "push_state v h = h @ [v]"

definition slice :: "nat \<Rightarrow> object_history \<Rightarrow> object_history result" where
  "slice num_states h = guardR OutOfBounds (num_states \<le> length h) (Inr (take num_states h))"

definition consume_into_current_state :: "object_history \<Rightarrow> visible_object_state option" where
  "consume_into_current_state h = (if h = [] then None else Some (last h))"

section \<open>Detached states\<close>

record detached_state =
  detached_objects :: "object_history list"

definition detached_contains :: "detached_state \<Rightarrow> objid \<Rightarrow> bool" where
  "detached_contains s i \<longleftrightarrow> i < length (detached_objects s)"

definition detached_count :: "detached_state \<Rightarrow> nat" where
  "detached_count s = length (detached_objects s)"

definition detached_get :: "detached_state \<Rightarrow> objid \<Rightarrow> visible_object_state result" where
  "detached_get s i =
     guardR OutOfBounds (i < length (detached_objects s)) (get_current_state (detached_objects s ! i))"

definition detached_add_object :: "visible_object_state \<Rightarrow> detached_state \<Rightarrow> objid \<times> detached_state" where
  "detached_add_object v s =
     (length (detached_objects s), s\<lparr>detached_objects := detached_objects s @ [[v]]\<rparr>)"

definition detached_add_state ::
  "objid \<Rightarrow> visible_object_state \<Rightarrow> detached_state \<Rightarrow> detached_state result" where
  "detached_add_state i v s = guardR OutOfBounds (i < length (detached_objects s))
     (Inr (s\<lparr>detached_objects := (detached_objects s)[i := push_state v (detached_objects s ! i)]\<rparr>))"

text \<open>The copy constructor of a visible object copies all states of its history.\<close>

definition copy_objects :: "object_history list \<Rightarrow> object_history list result" where
  "copy_objects objs = foldR (\<lambda>h copies. bindR (slice (length h) h) (\<lambda>h'. Inr (copies @ [h']))) objs []"

definition detached_clone :: "detached_state \<Rightarrow> detached_state result" where
  "detached_clone s = bindR (copy_objects (detached_objects s)) (\<lambda>objs. Inr \<lparr>detached_objects = objs\<rparr>)"

section \<open>Sequences of states\<close>

type_synonym element = "(objid \<times> nat) list"

record state_sequence =
  visible_objects :: "object_history list"
  states_in_sequence :: "element list"

text \<open>The state a pointer points to.\<close>

definition pointed_to :: "object_history list \<Rightarrow> objid \<Rightarrow> nat \<Rightarrow> visible_object_state result" where
  "pointed_to objs i k =
     guardR OutOfBounds (i < length objs \<and> k < length (objs ! i)) (Inr (objs ! i ! k))"

definition point_to_state_for :: "objid \<Rightarrow> nat \<Rightarrow> element \<Rightarrow> element" where
  "point_to_state_for i k e = AList.update i k e"

definition new_element :: "object_history list \<Rightarrow> element result" where
  "new_element objs = foldR (\<lambda>i e. guardR OutOfBounds (objs ! i \<noteq> [])
     (Inr (point_to_state_for i (length (objs ! i) - 1) e))) [0..<length objs] []"

definition element_count :: "element \<Rightarrow> nat" where
  "element_count e = length e"

definition element_contains :: "element \<Rightarrow> objid \<Rightarrow> bool" where
  "element_contains e i \<longleftrightarrow> i < length e"

definition element_get :: "object_history list \<Rightarrow> element \<Rightarrow> objid \<Rightarrow> visible_object_state result" where
  "element_get objs e i = (case map_of e i of None \<Rightarrow> Inl OutOfBounds | Some k \<Rightarrow> pointed_to objs i k)"

definition element_clone :: "object_history list \<Rightarrow> element \<Rightarrow> detached_state result" where
  "element_clone objs e = foldR (\<lambda>i s. bindR (element_get objs e i) (\<lambda>v.
     Inr (snd (detached_add_object v s)))) [0..<length e] \<lparr>detached_objects = []\<rparr>"

definition push_state_snapshot :: "state_sequence \<Rightarrow> state_sequence result" where
  "push_state_snapshot s = bindR (new_element (visible_objects s)) (\<lambda>e.
     Inr (s\<lparr>states_in_sequence := states_in_sequence s @ [e]\<rparr>))"

definition new_state_sequence :: "object_history list \<Rightarrow> state_sequence result" where
  "new_state_sequence objs = push_state_snapshot \<lparr>visible_objects = objs, states_in_sequence = []\<rparr>"

definition sequence_contains :: "state_sequence \<Rightarrow> objid \<Rightarrow> bool" where
  "sequence_contains s i \<longleftrightarrow> i < length (visible_objects s)"

definition sequence_count :: "state_sequence \<Rightarrow> nat" where
  "sequence_count s = length (visible_objects s)"

definition sequence_get :: "state_sequence \<Rightarrow> objid \<Rightarrow> visible_object_state result" where
  "sequence_get s i =
     guardR OutOfBounds (i < length (visible_objects s)) (get_current_state (visible_objects s ! i))"

definition point_last_to :: "objid \<Rightarrow> nat \<Rightarrow> state_sequence \<Rightarrow> state_sequence result" where
  "point_last_to i k s = guardR OutOfBounds (states_in_sequence s \<noteq> [])
     (Inr (s\<lparr>states_in_sequence := butlast (states_in_sequence s)
        @ [point_to_state_for i k (last (states_in_sequence s))]\<rparr>))"

definition sequence_add_object ::
  "visible_object_state \<Rightarrow> state_sequence \<Rightarrow> (objid \<times> state_sequence) result" where
  "sequence_add_object v s = (let i = length (visible_objects s) in
     bindR (point_last_to i 0 s) (\<lambda>s1. Inr (i, s1\<lparr>visible_objects := visible_objects s1 @ [[v]]\<rparr>)))"

definition sequence_add_state ::
  "objid \<Rightarrow> visible_object_state \<Rightarrow> state_sequence \<Rightarrow> state_sequence result" where
  "sequence_add_state i v s =
     guardR OutOfBounds (i < length (visible_objects s))
       (bindR (point_last_to i (length (visible_objects s ! i)) s) (\<lambda>s1.
          Inr (s1\<lparr>visible_objects := (visible_objects s1)[i := push_state v (visible_objects s1 ! i)]\<rparr>)))"

definition sequence_clone :: "state_sequence \<Rightarrow> detached_state result" where
  "sequence_clone s = foldR (\<lambda>h d. bindR (get_current_state h) (\<lambda>v.
     Inr (snd (detached_add_object v d)))) (visible_objects s) \<lparr>detached_objects = []\<rparr>"

definition state_count :: "state_sequence \<Rightarrow> nat" where
  "state_count s = length (states_in_sequence s)"

definition state_at :: "state_sequence \<Rightarrow> nat \<Rightarrow> element result" where
  "state_at s i = guardR OutOfBounds (i < length (states_in_sequence s)) (Inr (states_in_sequence s ! i))"

section \<open>Differences from the end of a sequence\<close>

record diff_state =
  base_state :: state_sequence
  new_object_states :: "(objid \<times> object_history) list"

definition new_diff_state :: "state_sequence \<Rightarrow> diff_state" where
  "new_diff_state s = \<lparr>base_state = s, new_object_states = []\<rparr>"

definition diff_contains :: "diff_state \<Rightarrow> objid \<Rightarrow> bool" where
  "diff_contains d i \<longleftrightarrow> map_of (new_object_states d) i \<noteq> None \<or> sequence_contains (base_state d) i"

definition diff_count :: "diff_state \<Rightarrow> nat" where
  "diff_count d = length (new_object_states d) + sequence_count (base_state d)
     - length (filter (\<lambda>p. sequence_contains (base_state d) (fst p)) (new_object_states d))"

definition diff_get :: "diff_state \<Rightarrow> objid \<Rightarrow> visible_object_state result" where
  "diff_get d i = (case map_of (new_object_states d) i of
      Some h \<Rightarrow> get_current_state h
    | None \<Rightarrow> sequence_get (base_state d) i)"

definition diff_add_object :: "visible_object_state \<Rightarrow> diff_state \<Rightarrow> objid \<times> diff_state" where
  "diff_add_object v d =
     (let next_id = length (visible_objects (base_state d)) + length (new_object_states d) in
      (next_id, d\<lparr>new_object_states := AList.update next_id [v] (new_object_states d)\<rparr>))"

definition diff_add_state :: "objid \<Rightarrow> visible_object_state \<Rightarrow> diff_state \<Rightarrow> diff_state result" where
  "diff_add_state i v d =
     (let h = (case map_of (new_object_states d) i of None \<Rightarrow> [] | Some h \<Rightarrow> h) in
      Inr (d\<lparr>new_object_states := AList.update i (push_state v h) (new_object_states d)\<rparr>))"

definition diff_clone :: "diff_state \<Rightarrow> diff_state result" where
  "diff_clone d = Inr (new_diff_state (base_state d))"

section \<open>Transitions\<close>

text \<open>
  A transition is given the operations of the state it modifies (the virtual methods of
  \<^verbatim>\<open>mutable_state\<close>), so it is the same function on all of them.
\<close>

datatype prototype_transition = mutex_init objid | mutex_lock objid | thread_start objid

datatype status = exists_here | disabled

definition get_mutex_state ::
  "('s \<Rightarrow> objid \<Rightarrow> visible_object_state result) \<Rightarrow> objid \<Rightarrow> 's \<Rightarrow> mutex_state_type result" where
  "get_mutex_state get i s =
     bindR (get s i) (\<lambda>v. case v of MutexState m \<Rightarrow> Inr m | ThreadState _ \<Rightarrow> Inl OutOfBounds)"

definition get_thread_state ::
  "('s \<Rightarrow> objid \<Rightarrow> visible_object_state result) \<Rightarrow> objid \<Rightarrow> 's \<Rightarrow> thread_state_type result" where
  "get_thread_state get i s =
     bindR (get s i) (\<lambda>v. case v of ThreadState t \<Rightarrow> Inr t | MutexState _ \<Rightarrow> Inl OutOfBounds)"

definition mutex_init_modify ::
  "(objid \<Rightarrow> visible_object_state \<Rightarrow> 's \<Rightarrow> 's result) \<Rightarrow> objid \<Rightarrow> 's \<Rightarrow> (status \<times> 's) result" where
  "mutex_init_modify add i s = bindR (add i (MutexState unlocked) s) (\<lambda>s1. Inr (exists_here, s1))"

definition mutex_lock_modify ::
  "('s \<Rightarrow> objid \<Rightarrow> visible_object_state result) \<Rightarrow> (objid \<Rightarrow> visible_object_state \<Rightarrow> 's \<Rightarrow> 's result) \<Rightarrow>
     objid \<Rightarrow> 's \<Rightarrow> (status \<times> 's) result" where
  "mutex_lock_modify get add i s = bindR (get_mutex_state get i s) (\<lambda>ms.
     if is_locked ms then Inr (disabled, s)
     else bindR (add i (MutexState locked) s) (\<lambda>s1. Inr (exists_here, s1)))"

definition thread_start_modify ::
  "('s \<Rightarrow> objid \<Rightarrow> visible_object_state result) \<Rightarrow> (objid \<Rightarrow> visible_object_state \<Rightarrow> 's \<Rightarrow> 's result) \<Rightarrow>
     objid \<Rightarrow> 's \<Rightarrow> (status \<times> 's) result" where
  "thread_start_modify get add i s = bindR (get_thread_state get i s) (\<lambda>ts.
     if \<not> is_embryo ts then Inr (disabled, s)
     else bindR (add i (ThreadState running) s) (\<lambda>s1. Inr (exists_here, s1)))"

definition modify ::
  "('s \<Rightarrow> objid \<Rightarrow> visible_object_state result) \<Rightarrow> (objid \<Rightarrow> visible_object_state \<Rightarrow> 's \<Rightarrow> 's result) \<Rightarrow>
     prototype_transition \<Rightarrow> 's \<Rightarrow> (status \<times> 's) result" where
  "modify get add t s = (case t of
      mutex_init i \<Rightarrow> mutex_init_modify add i s
    | mutex_lock i \<Rightarrow> mutex_lock_modify get add i s
    | thread_start i \<Rightarrow> thread_start_modify get add i s)"

definition apply_to ::
  "('c \<Rightarrow> 's result) \<Rightarrow> ('s \<Rightarrow> objid \<Rightarrow> visible_object_state result) \<Rightarrow>
     (objid \<Rightarrow> visible_object_state \<Rightarrow> 's \<Rightarrow> 's result) \<Rightarrow> prototype_transition \<Rightarrow> 'c \<Rightarrow> 's option result" where
  "apply_to clone get add t s = bindR (clone s) (\<lambda>s1. bindR (modify get add t s1) (\<lambda>(st, s2).
     Inr (if st = exists_here then Some s2 else None)))"

definition is_enabled_in :: "prototype_transition \<Rightarrow> state_sequence \<Rightarrow> bool result" where
  "is_enabled_in t s =
     bindR (apply_to sequence_clone detached_get detached_add_state t s) (\<lambda>r. Inr (r \<noteq> None))"

text \<open>The new states are pushed to objects that are all different, in whatever order.\<close>

definition push_new_state :: "objid \<times> object_history \<Rightarrow> state_sequence \<Rightarrow> state_sequence result" where
  "push_new_state p s = (case p of (i, h) \<Rightarrow> guardR OutOfBounds (i < length (visible_objects s))
     (case consume_into_current_state h of
        None \<Rightarrow> Inl NullDereference
      | Some v \<Rightarrow> Inr (s\<lparr>visible_objects := (visible_objects s)[i := push_state v (visible_objects s ! i)]\<rparr>)))"

definition follow :: "prototype_transition \<Rightarrow> state_sequence \<Rightarrow> (status \<times> state_sequence) result" where
  "follow t s =
     bindR (apply_to diff_clone diff_get diff_add_state t (new_diff_state s)) (\<lambda>r. case r of
        None \<Rightarrow> Inr (disabled, s)
      | Some d \<Rightarrow> bindR (foldR push_new_state (new_object_states d) s) (\<lambda>s1.
          bindR (push_state_snapshot s1) (\<lambda>s2. Inr (exists_here, s2))))"

definition consume_into_subsequence :: "nat \<Rightarrow> state_sequence \<Rightarrow> state_sequence result" where
  "consume_into_subsequence index s = guardR OutOfBounds (index < length (states_in_sequence s))
     (bindR (copy_objects (visible_objects s)) (\<lambda>objs. bindR (new_state_sequence objs) (\<lambda>ss.
        Inr (ss\<lparr>states_in_sequence := take (index + 1) (states_in_sequence s)\<rparr>))))"

end
