(* ===== verification/StateSequenceProperties.thy ===== *)
theory StateSequenceProperties
  imports StateSequence
begin

text \<open>
  The states of the design prototype are one abstract state, the map from ids to the current states of
  the objects (\<open>view\<close>), and a transition is a partial function on it (\<open>fire\<close>).  The contract of
  \<^verbatim>\<open>mutable_state\<close> is a locale; a sequence of states records the run that made it.
\<close>

section \<open>The contract of a mutable state\<close>

definition view :: "('s \<Rightarrow> objid \<Rightarrow> visible_object_state result) \<Rightarrow> 's \<Rightarrow> objid \<Rightarrow> visible_object_state option" where
  "view get s i = (case get s i of Inl e \<Rightarrow> None | Inr v \<Rightarrow> Some v)"

lemma view_Some: "view get s i = Some v \<longleftrightarrow> get s i = Inr v"
  by (simp add: view_def split: sum.splits)

definition fire :: "prototype_transition \<Rightarrow> (objid \<Rightarrow> visible_object_state option) \<Rightarrow>
    (objid \<Rightarrow> visible_object_state option) option" where
  "fire t m = (case t of
      mutex_init i \<Rightarrow> Some (m(i \<mapsto> MutexState unlocked))
    | mutex_lock i \<Rightarrow> if m i = Some (MutexState locked) then None else Some (m(i \<mapsto> MutexState locked))
    | thread_start i \<Rightarrow>
        if m i = Some (ThreadState thread_embryo) then Some (m(i \<mapsto> ThreadState running)) else None)"

text \<open>The object is there, and of the class the transition expects.\<close>

definition applicable :: "prototype_transition \<Rightarrow> (objid \<Rightarrow> visible_object_state option) \<Rightarrow> bool" where
  "applicable t m = (case t of
      mutex_init i \<Rightarrow> m i \<noteq> None
    | mutex_lock i \<Rightarrow> (\<exists>x. m i = Some (MutexState x))
    | thread_start i \<Rightarrow> (\<exists>x. m i = Some (ThreadState x)))"

locale object_states =
  fixes inv :: "'s \<Rightarrow> bool"
    and get :: "'s \<Rightarrow> objid \<Rightarrow> visible_object_state result"
    and add :: "objid \<Rightarrow> visible_object_state \<Rightarrow> 's \<Rightarrow> 's result"
  assumes add_state: "inv s \<Longrightarrow> view get s i \<noteq> None \<Longrightarrow>
    \<exists>s'. add i v s = Inr s' \<and> inv s' \<and> view get s' = (view get s)(i \<mapsto> v)"
begin

lemma modify_fires:
  assumes "inv s" and "applicable t (view get s)"
  shows "case fire t (view get s) of
      None \<Rightarrow> modify get add t s = Inr (disabled, s)
    | Some m \<Rightarrow> \<exists>s'. modify get add t s = Inr (exists_here, s') \<and> inv s' \<and> view get s' = m"
proof (cases t)
  case (mutex_init i)
  then show ?thesis
    using assms add_state [of s i "MutexState unlocked"]
    by (auto simp: applicable_def fire_def modify_def mutex_init_modify_def)
next
  case (mutex_lock i)
  then obtain x where "view get s i = Some (MutexState x)" using assms(2) by (auto simp: applicable_def)
  then show ?thesis
    using mutex_lock assms(1) add_state [of s i "MutexState locked"]
    by (auto simp: fire_def modify_def mutex_lock_modify_def get_mutex_state_def is_locked_def view_Some)
next
  case (thread_start i)
  then obtain x where "view get s i = Some (ThreadState x)" using assms(2) by (auto simp: applicable_def)
  then show ?thesis
    using thread_start assms(1) add_state [of s i "ThreadState running"]
    by (auto simp: fire_def modify_def thread_start_modify_def get_thread_state_def is_embryo_def view_Some)
qed

text \<open>What is tested on a state holds also of a copy with the same view.\<close>

lemma apply_to_fires:
  assumes "clone c = Inr s" and "inv s" and "applicable t (view get s)"
  shows "case fire t (view get s) of
      None \<Rightarrow> apply_to clone get add t c = Inr None
    | Some m \<Rightarrow> \<exists>s'. apply_to clone get add t c = Inr (Some s') \<and> inv s' \<and> view get s' = m"
  using modify_fires [OF assms(2,3)] assms(1) by (auto simp: apply_to_def split: option.splits)

end

text \<open>With objects that can be added: ids are consecutive.\<close>

locale mutable_state = object_states +
  fixes add_object :: "visible_object_state \<Rightarrow> 'a \<Rightarrow> (objid \<times> 'a) result"
    and count :: "'a \<Rightarrow> nat"
  assumes new_object: "inv s \<Longrightarrow> \<exists>s'. add_object v s = Inr (count s, s') \<and> inv s'
      \<and> count s' = Suc (count s) \<and> view get s' = (view get s)(count s \<mapsto> v)"
    and absent: "inv s \<Longrightarrow> count s \<le> i \<Longrightarrow> view get s i = None"
begin

lemma added_objects:
  assumes "inv s"
  shows "\<exists>s'. foldR (\<lambda>v s. bindR (add_object v s) (\<lambda>(i, s'). Inr s')) vs s = Inr s' \<and> inv s'
    \<and> count s' = count s + length vs
    \<and> view get s' = (\<lambda>i. if i < count s then view get s i
        else if i < count s + length vs then Some (vs ! (i - count s)) else None)"
  using assms
proof (induction vs arbitrary: s)
  case Nil
  then show ?case using absent by (auto simp: fun_eq_iff)
next
  case (Cons v vs)
  from new_object [OF Cons.prems, of v] obtain s1 where s1: "add_object v s = Inr (count s, s1)" "inv s1"
    "count s1 = Suc (count s)" "view get s1 = (view get s)(count s \<mapsto> v)" by blast
  from Cons.IH [OF s1(2)] obtain s' where
    "foldR (\<lambda>v s. bindR (add_object v s) (\<lambda>(i, s'). Inr s')) vs s1 = Inr s'" "inv s'"
    "count s' = count s1 + length vs"
    "view get s' = (\<lambda>i. if i < count s1 then view get s1 i
        else if i < count s1 + length vs then Some (vs ! (i - count s1)) else None)" by blast
  note s' = this
  have "view get s' i = (if i < count s then view get s i
      else if i < count s + length (v # vs) then Some ((v # vs) ! (i - count s)) else None)" for i
    using s1(3,4) s'(4) by (cases i "count s" rule: linorder_cases) (simp_all add: nth_Cons')
  then show ?case using s1(1,3) s'(1-3) by (intro exI [of _ s'] conjI ext) simp_all
qed

end

section \<open>Detached states\<close>

definition detached_wf :: "detached_state \<Rightarrow> bool" where
  "detached_wf s \<longleftrightarrow> [] \<notin> set (detached_objects s)"

lemma objects_view: "[] \<notin> set objs \<Longrightarrow> view (\<lambda>objs i. guardR OutOfBounds (i < length objs) (get_current_state (objs ! i))) objs i
    = (if i < length objs then Some (last (objs ! i)) else None)"
  by (auto simp: view_def get_current_state_def guardR_def in_set_conv_nth)

lemma detached_view: "detached_wf s \<Longrightarrow> view detached_get s i
    = (if i < length (detached_objects s) then Some (last (detached_objects s ! i)) else None)"
  using objects_view [of "detached_objects s" i] by (simp add: detached_wf_def view_def detached_get_def)

interpretation detached: mutable_state detached_wf detached_get detached_add_state
  "\<lambda>v s. Inr (detached_add_object v s)" detached_count
proof unfold_locales
  fix s i v
  assume s: "detached_wf s" and "view detached_get s i \<noteq> None"
  then have i: "i < length (detached_objects s)" by (simp add: detached_view split: if_splits)
  let ?s = "s\<lparr>detached_objects := (detached_objects s)[i := push_state v (detached_objects s ! i)]\<rparr>"
  have "detached_wf ?s" using s by (auto simp: detached_wf_def push_state_def dest!: subsetD [OF set_update_subset_insert])
  then show "\<exists>s'. detached_add_state i v s = Inr s' \<and> detached_wf s'
      \<and> view detached_get s' = (view detached_get s)(i \<mapsto> v)"
    using i s by (auto simp: detached_add_state_def fun_eq_iff detached_view push_state_def nth_list_update)
next
  fix s v
  assume s: "detached_wf s"
  then have "detached_wf (snd (detached_add_object v s))" by (auto simp: detached_wf_def detached_add_object_def)
  then show "\<exists>s'. Inr (detached_add_object v s) = Inr (detached_count s, s') \<and> detached_wf s'
      \<and> detached_count s' = Suc (detached_count s)
      \<and> view detached_get s' = (view detached_get s)(detached_count s \<mapsto> v)"
    using s by (auto simp: detached_add_object_def detached_count_def fun_eq_iff detached_view nth_append)
next
  fix s i
  assume "detached_wf s" and "detached_count s \<le> i"
  then show "view detached_get s i = None" by (simp add: detached_view detached_count_def)
qed

lemma copy_objects_same [simp]: "copy_objects objs = Inr objs"
proof -
  have "foldR (\<lambda>h copies. bindR (slice (length h) h) (\<lambda>h'. Inr (copies @ [h']))) objs copies = Inr (copies @ objs)"
    for copies by (induction objs arbitrary: copies) (simp_all add: slice_def)
  then show ?thesis by (simp add: copy_objects_def)
qed

section \<open>Sequences of states\<close>

definition element_wf :: "object_history list \<Rightarrow> element \<Rightarrow> bool" where
  "element_wf objs e \<longleftrightarrow> (\<forall>i k. map_of e i = Some k \<longrightarrow> i < length objs \<and> k < length (objs ! i))"

definition sequence_wf :: "state_sequence \<Rightarrow> bool" where
  "sequence_wf s \<longleftrightarrow> [] \<notin> set (visible_objects s) \<and> states_in_sequence s \<noteq> []
     \<and> (\<forall>e \<in> set (states_in_sequence s). element_wf (visible_objects s) e)
     \<and> view (element_get (visible_objects s)) (last (states_in_sequence s)) = view sequence_get s"

lemma sequence_view: "[] \<notin> set (visible_objects s) \<Longrightarrow> view sequence_get s i
    = (if i < length (visible_objects s) then Some (last (visible_objects s ! i)) else None)"
  using objects_view [of "visible_objects s" i] by (simp add: view_def sequence_get_def)

lemma element_view: "element_wf objs e \<Longrightarrow> view (element_get objs) e i = map_option (\<lambda>k. objs ! i ! k) (map_of e i)"
  by (auto simp: view_def element_get_def element_wf_def pointed_to_def split: option.splits)

text \<open>Histories grow: an element still shows the states it showed.\<close>

definition histories_grow :: "object_history list \<Rightarrow> object_history list \<Rightarrow> bool" where
  "histories_grow objs objs' \<longleftrightarrow> length objs \<le> length objs'
     \<and> (\<forall>i < length objs. \<exists>vs. objs' ! i = objs ! i @ vs)"

lemma histories_grow_refl [simp, intro]: "histories_grow objs objs"
  by (simp add: histories_grow_def)

lemma histories_grow_trans:
  "histories_grow objs objs' \<Longrightarrow> histories_grow objs' objs'' \<Longrightarrow> histories_grow objs objs''"
  unfolding histories_grow_def by (metis append.assoc le_trans order_less_le_trans)

lemma histories_grow_push: "histories_grow objs (objs[i := push_state v (objs ! i)])"
  by (cases "i < length objs") (auto simp: histories_grow_def push_state_def nth_list_update)

lemma element_grows:
  assumes "element_wf objs e" and "histories_grow objs objs'"
  shows "element_wf objs' e" and "view (element_get objs') e = view (element_get objs) e"
proof -
  show wf: "element_wf objs' e"
    using assms unfolding element_wf_def histories_grow_def
    by (metis length_append order_less_le_trans trans_less_add1)
  have "objs' ! i ! k = objs ! i ! k" if "map_of e i = Some k" for i k
  proof -
    have i: "i < length objs" "k < length (objs ! i)" using assms(1) that by (auto simp: element_wf_def)
    with assms(2) obtain vs where "objs' ! i = objs ! i @ vs" by (auto simp: histories_grow_def)
    with i show ?thesis by (simp add: nth_append)
  qed
  then show "view (element_get objs') e = view (element_get objs) e"
    using element_view [OF wf] element_view [OF assms(1)]
    by (intro ext) (simp add: option.map_comp cong: option.map_cong_simp)
qed

lemma new_element_spec:
  assumes "[] \<notin> set objs"
  shows "\<exists>e. new_element objs = Inr e
    \<and> map_of e = (\<lambda>i. if i < length objs then Some (length (objs ! i) - 1) else None)"
proof -
  have "\<exists>e. foldR (\<lambda>i e. guardR OutOfBounds (objs ! i \<noteq> [])
       (Inr (point_to_state_for i (length (objs ! i) - 1) e))) [0..<n] [] = Inr e
     \<and> map_of e = (\<lambda>i. if i < n then Some (length (objs ! i) - 1) else None)" if "n \<le> length objs" for n
    using that
  proof (induction n)
    case (Suc n)
    then have "objs ! n \<noteq> []" using assms by (auto simp: in_set_conv_nth)
    with Suc show ?case
      by (auto simp: foldR_append point_to_state_for_def update_conv' fun_eq_iff)
  qed (simp add: fun_eq_iff)
  then show ?thesis unfolding new_element_def by blast
qed

lemma snapshot_spec:
  assumes "[] \<notin> set (visible_objects s)" and "\<forall>e \<in> set (states_in_sequence s). element_wf (visible_objects s) e"
  shows "\<exists>e. push_state_snapshot s = Inr (s\<lparr>states_in_sequence := states_in_sequence s @ [e]\<rparr>)
    \<and> view (element_get (visible_objects s)) e = view sequence_get s
    \<and> sequence_wf (s\<lparr>states_in_sequence := states_in_sequence s @ [e]\<rparr>)"
proof -
  from new_element_spec [OF assms(1)] obtain e where e: "new_element (visible_objects s) = Inr e"
    "map_of e = (\<lambda>i. if i < length (visible_objects s) then Some (length (visible_objects s ! i) - 1) else None)"
    by blast
  have ne: "visible_objects s ! i \<noteq> []" if "i < length (visible_objects s)" for i
    using assms(1) that by (auto simp: in_set_conv_nth)
  have wf: "element_wf (visible_objects s) e" using e(2) ne by (auto simp: element_wf_def split: if_splits)
  have view: "view (element_get (visible_objects s)) e = view sequence_get s"
    using ne by (intro ext) (auto simp: element_view [OF wf] sequence_view [OF assms(1)] e(2) last_conv_nth)
  have same: "view sequence_get (s\<lparr>states_in_sequence := es\<rparr>) = view sequence_get s" for es
    by (intro ext) (simp add: view_def sequence_get_def)
  show ?thesis using e(1) wf view assms by (auto simp: push_state_snapshot_def sequence_wf_def same)
qed

lemma new_sequence_spec:
  assumes "[] \<notin> set objs"
  shows "\<exists>s. new_state_sequence objs = Inr s \<and> visible_objects s = objs \<and> state_count s = 1 \<and> sequence_wf s"
  using snapshot_spec [of "\<lparr>visible_objects = objs, states_in_sequence = []\<rparr>"] assms
  by (auto simp: new_state_sequence_def state_count_def)

lemma clone_spec:
  assumes "[] \<notin> set (visible_objects s)"
  shows "\<exists>d. sequence_clone s = Inr d \<and> detached_wf d \<and> view detached_get d = view sequence_get s"
proof -
  have clone: "sequence_clone s = foldR (\<lambda>v d. bindR (Inr (detached_add_object v d)) (\<lambda>(i, d'). Inr d'))
      (map last (visible_objects s)) \<lparr>detached_objects = []\<rparr>"
  proof -
    have "foldR (\<lambda>h d. bindR (get_current_state h) (\<lambda>v. Inr (snd (detached_add_object v d)))) objs d
      = foldR (\<lambda>v d. bindR (Inr (detached_add_object v d)) (\<lambda>(i, d'). Inr d')) (map last objs) d"
      if "[] \<notin> set objs" for objs d
      using that by (induction objs arbitrary: d) (auto simp: get_current_state_def case_prod_beta)
    then show ?thesis using assms by (simp add: sequence_clone_def)
  qed
  have empty: "detached_wf \<lparr>detached_objects = []\<rparr>" "detached_count \<lparr>detached_objects = []\<rparr> = 0"
    by (simp_all add: detached_wf_def detached_count_def)
  from detached.added_objects [OF empty(1), of "map last (visible_objects s)", unfolded empty(2) diff_zero add_0]
  obtain d where "sequence_clone s = Inr d" "detached_wf d"
    "view detached_get d = (\<lambda>i. if i < length (visible_objects s) then Some (map last (visible_objects s) ! i) else None)"
    unfolding clone by auto
  then show ?thesis using sequence_view [OF assms] by (intro exI [of _ d]) (auto simp: fun_eq_iff)
qed

text \<open>Objects and states may also be added to the sequence itself; its last element follows them.\<close>

lemma last_element_pointed:
  assumes "sequence_wf s" and "histories_grow (visible_objects s) objs" and "[] \<notin> set objs"
    and "i < length objs" and "objs ! i ! k = last (objs ! i)" and "k < length (objs ! i)"
    and "\<And>j. j \<noteq> i \<Longrightarrow> (if j < length objs then Some (last (objs ! j)) else None) = view sequence_get s j"
    and "s' = s\<lparr>visible_objects := objs, states_in_sequence := butlast (states_in_sequence s)
       @ [point_to_state_for i k (last (states_in_sequence s))]\<rparr>"
  shows "sequence_wf s' \<and> view sequence_get s' = (view sequence_get s)(i \<mapsto> last (objs ! i))"
proof -
  let ?e = "point_to_state_for i k (last (states_in_sequence s))"
  have ne: "states_in_sequence s \<noteq> []" and old: "element_wf (visible_objects s) e" if "e \<in> set (states_in_sequence s)" for e
    using assms(1) that by (auto simp: sequence_wf_def)
  have last: "last (states_in_sequence s) \<in> set (states_in_sequence s)" using assms(1) by (simp add: sequence_wf_def)
  have grown: "element_wf objs e" if "e \<in> set (states_in_sequence s)" for e
    using element_grows(1) [OF old [OF that] assms(2)] .
  have e: "element_wf objs ?e"
    using grown [OF last] assms(4,6) by (auto simp: element_wf_def point_to_state_for_def update_conv')
  have view: "view sequence_get s' = (view sequence_get s)(i \<mapsto> last (objs ! i))"
  proof
    fix j
    have "view sequence_get s' j = (if j < length objs then Some (last (objs ! j)) else None)"
      using sequence_view [of s' j] assms(3) by (simp add: assms(8))
    then show "view sequence_get s' j = ((view sequence_get s)(i \<mapsto> last (objs ! i))) j"
      using assms(4) assms(7) [of j] by (cases "j = i") simp_all
  qed
  have "view (element_get objs) ?e j = view sequence_get s' j" for j
  proof (cases "j = i")
    case True
    then show ?thesis using assms(5) view by (simp add: element_view [OF e]) (simp add: point_to_state_for_def update_conv')
  next
    case False
    then have "view (element_get objs) ?e j = view (element_get objs) (last (states_in_sequence s)) j"
      by (simp add: element_view [OF e] element_view [OF grown [OF last]])
         (simp add: point_to_state_for_def update_conv')
    also have "\<dots> = view sequence_get s j"
      using element_grows(2) [OF old [OF last] assms(2)] assms(1) by (simp add: sequence_wf_def)
    finally show ?thesis using view False by simp
  qed
  then show ?thesis
    using view assms(3) e grown by (auto simp: sequence_wf_def assms(8) fun_eq_iff dest: in_set_butlastD)
qed

interpretation sequence: mutable_state sequence_wf sequence_get sequence_add_state sequence_add_object sequence_count
proof unfold_locales
  fix s i v
  assume s: "sequence_wf s" and "view sequence_get s i \<noteq> None"
  then have i: "i < length (visible_objects s)" and ne: "[] \<notin> set (visible_objects s)" "states_in_sequence s \<noteq> []"
    using sequence_view [of s i] by (auto simp: sequence_wf_def split: if_splits)
  let ?objs = "(visible_objects s)[i := push_state v (visible_objects s ! i)]"
  let ?s = "s\<lparr>visible_objects := ?objs, states_in_sequence := butlast (states_in_sequence s)
     @ [point_to_state_for i (length (visible_objects s ! i)) (last (states_in_sequence s))]\<rparr>"
  have "sequence_wf ?s \<and> view sequence_get ?s = (view sequence_get s)(i \<mapsto> last (?objs ! i))"
  proof (rule last_element_pointed [OF s histories_grow_push])
    show "[] \<notin> set ?objs" using ne(1) by (auto simp: push_state_def dest!: subsetD [OF set_update_subset_insert])
  qed (use i sequence_view [OF ne(1)] in \<open>simp_all add: push_state_def\<close>)
  then show "\<exists>s'. sequence_add_state i v s = Inr s' \<and> sequence_wf s' \<and> view sequence_get s' = (view sequence_get s)(i \<mapsto> v)"
    using i ne by (intro exI [of _ ?s]) (simp add: sequence_add_state_def point_last_to_def push_state_def)
next
  fix s v
  assume s: "sequence_wf s"
  then have ne: "[] \<notin> set (visible_objects s)" "states_in_sequence s \<noteq> []" by (simp_all add: sequence_wf_def)
  let ?n = "length (visible_objects s)"
  let ?s = "s\<lparr>visible_objects := visible_objects s @ [[v]], states_in_sequence := butlast (states_in_sequence s)
     @ [point_to_state_for ?n 0 (last (states_in_sequence s))]\<rparr>"
  have "sequence_wf ?s \<and> view sequence_get ?s = (view sequence_get s)(?n \<mapsto> last ((visible_objects s @ [[v]]) ! ?n))"
    by (rule last_element_pointed [OF s])
       (use ne sequence_view [OF ne(1)] in \<open>auto simp: histories_grow_def nth_append\<close>)
  then show "\<exists>s'. sequence_add_object v s = Inr (sequence_count s, s') \<and> sequence_wf s'
      \<and> sequence_count s' = Suc (sequence_count s)
      \<and> view sequence_get s' = (view sequence_get s)(sequence_count s \<mapsto> v)"
    using ne by (intro exI [of _ ?s]) (simp add: sequence_add_object_def point_last_to_def sequence_count_def Let_def)
next
  fix s i
  assume "sequence_wf s" and "sequence_count s \<le> i"
  then show "view sequence_get s i = None" by (simp add: sequence_view sequence_wf_def sequence_count_def)
qed

section \<open>Differences from the end of a sequence\<close>

definition diff_wf :: "diff_state \<Rightarrow> bool" where
  "diff_wf d \<longleftrightarrow> sequence_wf (base_state d) \<and> distinct (map fst (new_object_states d))
     \<and> (\<forall>(i, h) \<in> set (new_object_states d). i < length (visible_objects (base_state d)) \<and> h \<noteq> [])"

lemma diff_view: "diff_wf d \<Longrightarrow> view diff_get d i = (case map_of (new_object_states d) i of
    Some h \<Rightarrow> Some (last h) | None \<Rightarrow> view sequence_get (base_state d) i)"
  by (auto simp: view_def diff_get_def get_current_state_def diff_wf_def dest!: map_of_SomeD split: option.splits)

interpretation diff: object_states diff_wf diff_get diff_add_state
proof unfold_locales
  fix d i v
  assume d: "diff_wf d" and "view diff_get d i \<noteq> None"
  then have i: "i < length (visible_objects (base_state d))"
    using sequence_view [of "base_state d" i]
    by (auto simp: diff_view diff_wf_def sequence_wf_def dest!: map_of_SomeD split: option.splits if_splits)
  let ?h = "push_state v (case map_of (new_object_states d) i of None \<Rightarrow> [] | Some h \<Rightarrow> h)"
  let ?d = "d\<lparr>new_object_states := AList.update i ?h (new_object_states d)\<rparr>"
  have wf: "diff_wf ?d"
  proof -
    have "j < length (visible_objects (base_state d)) \<and> h \<noteq> []"
      if "(j, h) \<in> set (AList.update i ?h (new_object_states d))" for j h
    proof -
      have dist: "distinct (map fst (new_object_states d))" using d by (simp add: diff_wf_def)
      then have "map_of (AList.update i ?h (new_object_states d)) j = Some h"
        using that by (simp add: distinct_update)
      then show ?thesis using i d
        by (auto simp: update_conv' push_state_def diff_wf_def dest!: map_of_SomeD split: if_splits)
    qed
    then show ?thesis using d by (auto simp: diff_wf_def distinct_update)
  qed
  have "view diff_get ?d = (view diff_get d)(i \<mapsto> v)"
    by (intro ext, simp only: fun_upd_apply diff_view [OF wf] diff_view [OF d],
        simp add: update_conv' push_state_def split: option.split)
  then show "\<exists>d'. diff_add_state i v d = Inr d' \<and> diff_wf d' \<and> view diff_get d' = (view diff_get d)(i \<mapsto> v)"
    using wf by (simp add: diff_add_state_def Let_def)
qed

lemma pushed_states:
  assumes "distinct (map fst news)" and "\<forall>(i, h) \<in> set news. i < length (visible_objects s) \<and> h \<noteq> []"
    and "[] \<notin> set (visible_objects s)"
  shows "\<exists>s'. foldR push_new_state news s = Inr s' \<and> states_in_sequence s' = states_in_sequence s
    \<and> [] \<notin> set (visible_objects s') \<and> histories_grow (visible_objects s) (visible_objects s')
    \<and> view sequence_get s' = (\<lambda>i. case map_of news i of Some h \<Rightarrow> Some (last h) | None \<Rightarrow> view sequence_get s i)"
  using assms
proof (induction news arbitrary: s)
  case (Cons p news)
  obtain i h where p: "p = (i, h)" by fastforce
  have i: "i < length (visible_objects s)" "h \<noteq> []" using Cons.prems(2) p by auto
  let ?s = "s\<lparr>visible_objects := (visible_objects s)[i := push_state (last h) (visible_objects s ! i)]\<rparr>"
  have step: "push_new_state p s = Inr ?s"
    using i by (simp add: p push_new_state_def consume_into_current_state_def)
  have ne: "[] \<notin> set (visible_objects ?s)"
    using Cons.prems(3) by (auto simp: push_state_def dest!: subsetD [OF set_update_subset_insert])
  have view: "view sequence_get ?s = (view sequence_get s)(i \<mapsto> last h)"
    using i by (intro ext, simp only: fun_upd_apply sequence_view [OF ne] sequence_view [OF Cons.prems(3)],
      simp add: push_state_def nth_list_update)
  have "distinct (map fst news)" "\<forall>(i, h) \<in> set news. i < length (visible_objects ?s) \<and> h \<noteq> []"
    using Cons.prems(1,2) by auto
  from Cons.IH [OF this ne] obtain s' where s': "foldR push_new_state news ?s = Inr s'"
    "states_in_sequence s' = states_in_sequence ?s" "[] \<notin> set (visible_objects s')"
    "histories_grow (visible_objects ?s) (visible_objects s')"
    "view sequence_get s' = (\<lambda>i. case map_of news i of Some h \<Rightarrow> Some (last h) | None \<Rightarrow> view sequence_get ?s i)"
    by blast
  have "histories_grow (visible_objects s) (visible_objects ?s)" using histories_grow_push by simp
  from histories_grow_trans [OF this s'(4)] have grow: "histories_grow (visible_objects s) (visible_objects s')" .
  have "map_of news i = None" using Cons.prems(1) p by (simp add: map_of_eq_None_iff)
  then have "view sequence_get s' j = (case map_of (p # news) j of
      Some h \<Rightarrow> Some (last h) | None \<Rightarrow> view sequence_get s j)" for j
    by (simp add: s'(5) view p split: option.split)
  then show ?case using step s'(1-3) grow by (intro exI [of _ s'] conjI ext) simp_all
qed auto

section \<open>Following a transition\<close>

lemma follow_spec:
  assumes "sequence_wf s" and "applicable t (view sequence_get s)"
  shows "case fire t (view sequence_get s) of
      None \<Rightarrow> follow t s = Inr (disabled, s)
    | Some m \<Rightarrow> \<exists>s' e. follow t s = Inr (exists_here, s') \<and> sequence_wf s'
        \<and> states_in_sequence s' = states_in_sequence s @ [e] \<and> view sequence_get s' = m
        \<and> histories_grow (visible_objects s) (visible_objects s')"
proof -
  let ?d = "new_diff_state s"
  have d: "diff_wf ?d" using assms(1) by (simp add: diff_wf_def new_diff_state_def)
  have vd: "view diff_get ?d = view sequence_get s"
    by (intro ext, simp only: diff_view [OF d], simp add: new_diff_state_def)
  have clone: "diff_clone ?d = Inr ?d" by (simp add: diff_clone_def new_diff_state_def)
  note applied = diff.apply_to_fires [where clone = diff_clone and c = ?d and s = ?d and t = t, OF clone d,
      unfolded vd, OF assms(2)]
  show ?thesis
  proof (cases "fire t (view sequence_get s)")
    case None
    then show ?thesis using applied by (simp add: follow_def)
  next
    case (Some m)
    with applied obtain d' where d': "apply_to diff_clone diff_get diff_add_state t ?d = Inr (Some d')"
      "diff_wf d'" "view diff_get d' = m" by auto
    have base: "base_state d' = s"
      using d'(1) by (cases t) (auto simp: apply_to_def diff_clone_def modify_def mutex_init_modify_def
          mutex_lock_modify_def thread_start_modify_def diff_add_state_def new_diff_state_def Let_def result_simps
          split: if_splits)
    have ne: "[] \<notin> set (visible_objects s)" and els: "\<forall>e \<in> set (states_in_sequence s). element_wf (visible_objects s) e"
      using assms(1) by (simp_all add: sequence_wf_def)
    from pushed_states [of "new_object_states d'" s] d'(2) ne base obtain s1 where
      s1: "foldR push_new_state (new_object_states d') s = Inr s1" "states_in_sequence s1 = states_in_sequence s"
      "[] \<notin> set (visible_objects s1)" "histories_grow (visible_objects s) (visible_objects s1)"
      "view sequence_get s1 = (\<lambda>i. case map_of (new_object_states d') i of
         Some h \<Rightarrow> Some (last h) | None \<Rightarrow> view sequence_get s i)"
      by (auto simp: diff_wf_def)
    have m: "view sequence_get s1 = m"
      using d'(3) base by (auto simp: s1(5) diff_view [OF d'(2)] fun_eq_iff)
    have "\<forall>e \<in> set (states_in_sequence s1). element_wf (visible_objects s1) e"
      using els element_grows(1) [OF _ s1(4)] s1(2) by auto
    from snapshot_spec [OF s1(3) this] obtain e where
      "push_state_snapshot s1 = Inr (s1\<lparr>states_in_sequence := states_in_sequence s1 @ [e]\<rparr>)"
      "sequence_wf (s1\<lparr>states_in_sequence := states_in_sequence s1 @ [e]\<rparr>)" by blast
    moreover have "view sequence_get (s1\<lparr>states_in_sequence := es\<rparr>) = m" for es
      unfolding m [symmetric] by (intro ext) (simp add: view_def sequence_get_def)
    ultimately show ?thesis using Some d'(1) s1(1,2,4) by (simp add: follow_def)
  qed
qed

lemma get_class_Inr:
  "get_mutex_state get i s = Inr m \<longleftrightarrow> get s i = Inr (MutexState m)"
  "get_thread_state get i s = Inr x \<longleftrightarrow> get s i = Inr (ThreadState x)"
  by (cases "get s i"; simp add: get_mutex_state_def get_thread_state_def; simp split: visible_object_state.split; blast)+

text \<open>A transition that is followed without an error is one the state has the objects for.\<close>

lemma follow_applicable:
  assumes "sequence_wf s" and "follow t s = Inr (st, s')"
  shows "applicable t (view sequence_get s)"
proof (cases t)
  case (mutex_init i)
  have "i < length (visible_objects s)"
    using assms(2)
    by (auto simp: mutex_init follow_def apply_to_def diff_clone_def modify_def mutex_init_modify_def
        diff_add_state_def new_diff_state_def push_new_state_def result_simps push_state_def)
  then show ?thesis
    using assms(1) sequence_view [of s i] by (simp add: mutex_init applicable_def sequence_wf_def)
next
  case (mutex_lock i)
  then show ?thesis
    using assms(2)
    by (auto simp: follow_def apply_to_def diff_clone_def modify_def mutex_lock_modify_def get_class_Inr
        diff_get_def new_diff_state_def applicable_def view_Some result_simps)
next
  case (thread_start i)
  then show ?thesis
    using assms(2)
    by (auto simp: follow_def apply_to_def diff_clone_def modify_def thread_start_modify_def get_class_Inr
        diff_get_def new_diff_state_def applicable_def view_Some result_simps)
qed

definition follow_step :: "prototype_transition \<Rightarrow> state_sequence \<Rightarrow> state_sequence result" where
  "follow_step t s = bindR (follow t s) (\<lambda>(st, s'). Inr s')"

text \<open>What an element shows, and that the states of a sequence follow from one another.\<close>

definition shown :: "state_sequence \<Rightarrow> nat \<Rightarrow> objid \<Rightarrow> visible_object_state option" where
  "shown s i = view (element_get (visible_objects s)) (states_in_sequence s ! i)"

definition linked :: "prototype_transition list \<Rightarrow> state_sequence \<Rightarrow> bool" where
  "linked ts s \<longleftrightarrow> (\<forall>i. Suc i < state_count s \<longrightarrow> (\<exists>t \<in> set ts. fire t (shown s i) = Some (shown s (Suc i))))"

lemma last_shown: "sequence_wf s \<Longrightarrow> shown s (state_count s - 1) = view sequence_get s"
  using last_conv_nth [of "states_in_sequence s"] by (simp add: shown_def sequence_wf_def state_count_def)

lemma follow_step_linked:
  assumes "sequence_wf s" and "linked ts s" and "follow_step t s = Inr s'"
  shows "sequence_wf s'" and "linked (ts @ [t]) s'" and "shown s' 0 = shown s 0" and "state_count s \<le> state_count s'"
proof -
  from assms(3) obtain st where f: "follow t s = Inr (st, s')" by (auto simp: follow_step_def bindR_eq_Inr)
  note spec = follow_spec [OF assms(1) follow_applicable [OF assms(1) f]]
  have "sequence_wf s' \<and> linked (ts @ [t]) s' \<and> shown s' 0 = shown s 0 \<and> state_count s \<le> state_count s'"
  proof (cases "fire t (view sequence_get s)")
    case None
    then have "s' = s" using spec f by simp
    then show ?thesis using assms(1,2) by (auto simp: linked_def)
  next
    case (Some m)
    with spec f obtain e where s': "sequence_wf s'" "states_in_sequence s' = states_in_sequence s @ [e]"
      "view sequence_get s' = m" "histories_grow (visible_objects s) (visible_objects s')" by auto
    have same: "shown s' i = shown s i" if "i < state_count s" for i
      using that element_grows(2) [OF _ s'(4)] assms(1)
      by (auto simp: shown_def s'(2) nth_append state_count_def sequence_wf_def)
    have n: "state_count s' = Suc (state_count s)" "0 < state_count s"
      using s'(2) assms(1) by (simp_all add: state_count_def sequence_wf_def)
    have "fire t (shown s' (state_count s - 1)) = Some (shown s' (state_count s))"
      using Some same n last_shown [OF assms(1)] last_shown [OF s'(1)] s'(3) by simp
    then have "linked (ts @ [t]) s'"
      using assms(2) same n unfolding linked_def
      by (metis Suc_lessD Suc_lessI Suc_pred diff_Suc_1 in_set_conv_decomp less_antisym list.set_intros(1) set_append UnI1 UnI2)
    then show ?thesis using s'(1) same n by auto
  qed
  then show "sequence_wf s'" and "linked (ts @ [t]) s'" and "shown s' 0 = shown s 0" and "state_count s \<le> state_count s'"
    by simp_all
qed

lemma run_linked:
  assumes "foldR follow_step ts s = Inr s'" and "sequence_wf s" and "linked us s"
  shows "sequence_wf s' \<and> linked (us @ ts) s' \<and> shown s' 0 = shown s 0"
  using assms
proof (induction ts arbitrary: s us)
  case (Cons t ts)
  then obtain s1 where s1: "follow_step t s = Inr s1" "foldR follow_step ts s1 = Inr s'" by (auto simp: bindR_eq_Inr)
  note step = follow_step_linked [OF Cons.prems(2,3) s1(1)]
  show ?case using Cons.IH [OF s1(2) step(1,2)] step(3) by simp
qed simp

lemma run_wf:
  assumes "[] \<notin> set objs" and "new_state_sequence objs = Inr s0" and "foldR follow_step ts s0 = Inr s"
  shows "sequence_wf s" and "linked ts s" and "shown s 0 = view sequence_get s0"
proof -
  from new_sequence_spec [OF assms(1)] assms(2) have s0: "sequence_wf s0" "state_count s0 = 1" by simp_all
  have "linked [] s0" using s0(2) by (simp add: linked_def)
  with run_linked [OF assms(3) s0(1), of "[]"] last_shown [OF s0(1)] s0(2)
  show "sequence_wf s" "linked ts s" "shown s 0 = view sequence_get s0" by auto
qed

text \<open>
  C39. In the design prototype a sequence of states made by following transitions is a run: the
  first state is the one it was made from, the last one is the current state of the objects, and
  every state follows from the one before by one of the transitions, as a function on the map
  from ids to object states, although a transition is applied to a difference and the states are
  views into the shared histories of the objects.
\<close>

theorem sequence_records_the_run:
  assumes "[] \<notin> set objs" and "new_state_sequence objs = Inr s0" and "foldR follow_step ts s0 = Inr s"
  shows "shown s 0 = view sequence_get s0 \<and> shown s (state_count s - 1) = view sequence_get s
    \<and> (\<forall>i. Suc i < state_count s \<longrightarrow> (\<exists>t \<in> set ts. fire t (shown s i) = Some (shown s (Suc i))))"
  using run_wf [OF assms] last_shown by (simp add: linked_def)

theorem sequence_records_the_run_witness:
  "\<exists>s0 s. new_state_sequence [[MutexState uninitialized], [ThreadState thread_embryo]] = Inr s0
     \<and> foldR follow_step [thread_start 1, mutex_init 0, mutex_lock 0, mutex_lock 0] s0 = Inr s \<and> state_count s = 4
     \<and> (\<forall>i. Suc i < state_count s \<longrightarrow> (\<exists>t \<in> set [thread_start 1, mutex_init 0, mutex_lock 0, mutex_lock 0].
          fire t (shown s i) = Some (shown s (Suc i))))"
proof -
  have "case new_state_sequence [[MutexState uninitialized], [ThreadState thread_embryo]] of Inl e \<Rightarrow> False
    | Inr s0 \<Rightarrow> (case foldR follow_step [thread_start 1, mutex_init 0, mutex_lock 0, mutex_lock 0] s0 of
        Inl e \<Rightarrow> False | Inr s \<Rightarrow> state_count s = 4)" by code_simp
  then obtain s0 s where "new_state_sequence [[MutexState uninitialized], [ThreadState thread_embryo]] = Inr s0"
    "foldR follow_step [thread_start 1, mutex_init 0, mutex_lock 0, mutex_lock 0] s0 = Inr s" "state_count s = 4"
    by (auto split: sum.splits)
  with sequence_records_the_run [OF _ this(1,2)] show ?thesis by auto
qed

text \<open>The test on a copy of the last state agrees with the difference that is followed.\<close>

lemma enabled_is_followed:
  assumes "[] \<notin> set objs" and "new_state_sequence objs = Inr s0" and "foldR follow_step ts s0 = Inr s"
    and "follow t s = Inr (st, s')"
  shows "is_enabled_in t s = Inr (st = exists_here)"
proof -
  have s: "sequence_wf s" by (rule run_wf(1) [OF assms(1-3)])
  note ap = follow_applicable [OF s assms(4)]
  from clone_spec [of s] s obtain d where d: "sequence_clone s = Inr d" "detached_wf d"
    "view detached_get d = view sequence_get s" by (auto simp: sequence_wf_def)
  show ?thesis
    using detached.apply_to_fires [where clone = sequence_clone and t = t, OF d(1,2), unfolded d(3), OF ap]
      follow_spec [OF s ap] assms(4)
    by (auto simp: is_enabled_in_def split: option.splits)
qed

section \<open>What the prototype does not keep\<close>

text \<open>
  A difference counts the objects with a new state among the new objects, so the id it gives to an object
  is too large; and a sequence cannot take over an object that was added to a difference.
\<close>

lemma diff_skips_an_id:
  assumes "new_object_states d = [(i, h)]" and "i < sequence_count (base_state d)"
  shows "fst (diff_add_object v d) = Suc (diff_count d)"
  using assms by (simp add: diff_add_object_def diff_count_def sequence_contains_def sequence_count_def Let_def)

lemma new_objects_are_not_taken_over:
  "foldR push_new_state (new_object_states (snd (diff_add_object v (new_diff_state s)))) s = Inl OutOfBounds"
  by (simp add: diff_add_object_def new_diff_state_def push_new_state_def Let_def guardR_def bindR_def)

text \<open>A subsequence shows the states up to the index, but its objects keep their last states.\<close>

lemma subsequence_keeps_the_last_states:
  assumes "sequence_wf s" and "index < state_count s"
  shows "\<exists>s'. consume_into_subsequence index s = Inr s' \<and> state_count s' = index + 1
    \<and> (\<forall>i \<le> index. shown s' i = shown s i) \<and> view sequence_get s' = view sequence_get s"
proof -
  from new_sequence_spec [of "visible_objects s"] assms(1) obtain ss where
    ss: "new_state_sequence (visible_objects s) = Inr ss" "visible_objects ss = visible_objects s"
    by (auto simp: sequence_wf_def)
  let ?s = "ss\<lparr>states_in_sequence := take (index + 1) (states_in_sequence s)\<rparr>"
  have "view sequence_get ?s = view sequence_get s"
    by (intro ext) (simp add: view_def sequence_get_def ss(2))
  then show ?thesis
    using ss assms(2) by (intro exI [of _ ?s]) (auto simp: consume_into_subsequence_def state_count_def shown_def)
qed
end
