(* ===== verification/PrototypeProgram.thy ===== *)
theory PrototypeProgram
  imports StateSequenceProperties
begin

text \<open>
  The program of the design prototype: a sequence of states with the next transition of every runner
  (\<^verbatim>\<open>include/mcmini/model/program.hpp\<close>, \<^verbatim>\<open>pending_transitions.hpp\<close>), the registry of transition types
  (\<^verbatim>\<open>transition_registry.hpp\<close>) and the coordinator, which runs a runner in the target and then in the model
  (\<^verbatim>\<open>src/mcmini/coordinator\<close>).  What the target writes is a parameter, and so are the functions that read
  it back.
\<close>

section \<open>The model\<close>

type_synonym runner_id = nat

type_synonym pending_transitions = "(runner_id \<times> prototype_transition) list"

definition get_transition_for_runner :: "runner_id \<Rightarrow> pending_transitions \<Rightarrow> prototype_transition option" where
  "get_transition_for_runner p m = map_of m p"

text \<open>The transition that was pending is given back.\<close>

definition displace_transition_for ::
  "runner_id \<Rightarrow> prototype_transition \<Rightarrow> pending_transitions \<Rightarrow>
     prototype_transition option \<times> pending_transitions" where
  "displace_transition_for p t m = (map_of m p, AList.update p t m)"

record prototype_program =
  state_seq :: state_sequence
  trace_seq :: "prototype_transition list"
  next_steps :: pending_transitions


definition model_executing_runner ::
  "runner_id \<Rightarrow> prototype_transition \<Rightarrow> prototype_program \<Rightarrow> prototype_program result" where
  "model_executing_runner p new_transition prog =
     (case get_transition_for_runner p (next_steps prog) of
        None \<Rightarrow> Inl RuntimeError
      | Some next_s_p \<Rightarrow> bindR (follow next_s_p (state_seq prog)) (\<lambda>(_, s).
          Inr (prog\<lparr>state_seq := s,
                    next_steps := snd (displace_transition_for p new_transition (next_steps prog))\<rparr>)))"

section \<open>The coordinator\<close>

definition register_transition :: "'cb \<Rightarrow> 'cb list \<Rightarrow> nat \<times> 'cb list" where
  "register_transition callback callbacks = (length callbacks, callbacks @ [callback])"







section \<open>Runs of the coordinator\<close>









text \<open>The status of \<^verbatim>\<open>follow\<close> is not looked at: a disabled transition is lost without an error.\<close>

lemma disabled_step_is_lost:
  assumes "get_transition_for_runner p (next_steps prog) = Some t" and "follow t (state_seq prog) = Inr (disabled, s)"
  shows "\<exists>prog'. model_executing_runner p u prog = Inr prog'
    \<and> get_transition_for_runner p (next_steps prog') = Some u \<and> trace_seq prog' = trace_seq prog"
  using assms by (simp add: model_executing_runner_def get_transition_for_runner_def displace_transition_for_def update_conv')

end
