(* ===== verification/Spec2Isabelle.thy ===== *)
theory Spec2Isabelle
  imports Selection ReplayObjects ObjectProperties MissedRaces TargetProperties LivelockProperties
    EarlyStoppingProperties Restarting PrototypeProgram
begin

text \<open>
  McMini is a model checker for multithreaded programs that use the POSIX thread interface.  The
  program under test (the target) is forked under the control of McMini; every thread of it stops
  in front of each visible operation (a call on a mutex, semaphore, condition variable, barrier,
  reader/writer lock, a thread or a marked global variable) and writes the operation into shared
  memory.  McMini runs one thread after the other, keeps a model of the state of all visible objects
  and explores the interleavings with dynamic partial-order reduction (DPOR).  This development models
  the model checker itself: the visible objects, the transitions on them, the state stack, the
  reduction, going back, and the search; the wrappers that stop the threads of the target and the
  semaphores with which the two processes take turns; and the launcher with the environment through
  which it passes its options on; and it proves what they promise.

  \<^bold>\<open>The program's parts and the theories.\<close>

  \<^item> Constants and identifiers (\<^verbatim>\<open>include/MCShared.h\<close>, \<^verbatim>\<open>include/MCConstants.h\<close>): \<open>Prelude\<close>, with the
    result type of the whole model (\<open>mc_error + 'a\<close>; a failed assertion, a thrown exception, an access
    out of bounds, a null pointer or a reported misuse is a value of \<open>mc_error\<close>) and its operators.
  \<^item> Visible objects, a record each, with one definition per method: \<open>MutexObj\<close> (\<^verbatim>\<open>MCMutex\<close>),
    \<open>ThreadObj\<close> (\<^verbatim>\<open>MCThread\<close>, \<^verbatim>\<open>MCGlobalVariable\<close>), \<open>SemaphoreObj\<close> (\<^verbatim>\<open>MCSemaphore\<close>), \<open>BarrierObj\<close>
    (\<^verbatim>\<open>MCBarrier\<close>), \<open>RWLockObj\<close> and \<open>RWWLockObj\<close> (\<^verbatim>\<open>MCRWLock\<close>, \<^verbatim>\<open>MCRWWLock\<close>; the contract both share is the
    locale of \<open>QueuedLock\<close>), \<open>CondPolicy\<close> (the classes of \<^verbatim>\<open>src/misc/cond\<close>; their contract is a locale
    there) and \<open>CondVar\<close> (\<^verbatim>\<open>MCConditionVariable\<close>).  \<open>ObjectStore\<close> is \<^verbatim>\<open>MCObjectStore\<close>; a
    \<^verbatim>\<open>shared_ptr\<close> to a live object is its object id.
  \<^item> Transitions (\<^verbatim>\<open>include/MCTransition.h\<close>, \<^verbatim>\<open>src/MCTransition.cpp\<close>, \<^verbatim>\<open>src/transitions\<close>):
    \<open>TransitionBase\<close> has the datatype of transitions and the table of virtual methods,
    \<open>TransitionClasses\<close> one table per class, \<open>Transitions\<close> the dispatch and the tests of dependence,
    co-enabledness, data races and enabledness.  \<open>ReadHandlers\<close> holds the handlers \<^verbatim>\<open>MCRead<X>\<close>
    that turn what a thread wrote to shared memory into a transition.
  \<^item> The stack items, clock vectors and per-thread data: \<open>StackItem\<close>, \<open>ClockVector\<close>,
    \<open>ThreadData\<close> (\<^verbatim>\<open>MCStackItem\<close>, \<^verbatim>\<open>MCClockVector\<close>, \<^verbatim>\<open>MCThreadData\<close>, \<^verbatim>\<open>MCSortedStack\<close>).
  \<^item> \<^verbatim>\<open>MCStack\<close> (\<^verbatim>\<open>src/MCStack.cpp\<close>), the record \<open>mcstack\<close>: \<open>StateStack\<close> (threads, pending transitions,
    choice of the next transition, tests, growth of the stacks, happens-before), \<open>Backtracking\<close>
    (\<^verbatim>\<open>dynamicallyUpdateBacktrackSets\<close>), \<open>Replay\<close> (\<^verbatim>\<open>reflectStateAtTransitionIndex\<close>).
  \<^item> The search (\<^verbatim>\<open>src/mcmini_private.cpp\<close>), the record \<open>search_state\<close>: \<open>Search\<close>.  An iteration
    (\<open>searchIteration\<close>) runs the thread in the target, grows the stacks, reads the thread's next
    operation, updates the backtrack sets, reports data races, chooses the next transition and ends the
    trace when there is none; \<open>mc_explore_branch\<close> goes back to a branch point, replays, and runs
    iterations to the end of the trace; \<open>exploreBranches\<close> is the outer loop.
  \<^item> The livelock test (\<^verbatim>\<open>MCStack::isInLivelock\<close>) and the end of a trace with it: \<open>Livelock\<close>, where
    \<open>checkedIteration\<close> is the iteration of a search with the test.  The unique representations of
    transitions (\<^verbatim>\<open>toUniqueRep\<close>) and the test for states that were visited (\<^verbatim>\<open>stateIsRevisited\<close>,
    \<^verbatim>\<open>canStopSafely\<close>): \<open>UniqueRep\<close>.  The livelock test compiled with them
    (\<^verbatim>\<open>LIVELOCK_EARLY_STOPPING\<close>): \<open>EarlyStopping\<close>.
  \<^item> Going back to the start (\<^verbatim>\<open>restoreInitialTrace\<close>, \<^verbatim>\<open>mc_reset\<close>): \<open>Restarting\<close>.
  \<^item> The target (\<^verbatim>\<open>src/transitions/wrappers\<close>): \<open>Wrappers\<close> has every wrapper \<^verbatim>\<open>mc_<call>\<close> as the
    list of its effects on shared memory, on the semaphores and on the C library.
  \<^item> The turns of the two processes (\<^verbatim>\<open>src/mc_shared_sem.c\<close>, \<^verbatim>\<open>mc_run_thread_to_next_visible_operation\<close>,
    forking and \<^verbatim>\<open>SIGCHLD\<close>): \<open>Handshake\<close>, the record \<open>handshake\<close> and the step relation
    \<open>handshake_step\<close> of the scheduler and the threads.  \<open>TurnTaking\<close> has the invariants of its
    reachable states, \<open>TargetRuns\<close> runs it along a schedule (\<open>stops_at_of\<close>), which computes the
    operation that the search takes from its parameter \<open>stops_at\<close>.
  \<^item> The launcher (\<^verbatim>\<open>src/launch.c\<close>), \<open>Launcher\<close>, and the reading of the environment in the search
    process (\<open>Configuration\<close>), over \<open>CStrings\<close>: the functions of the C library that read and
    print numbers, strings being lists of characters.

  \<^item> The prototype of a later version (\<^verbatim>\<open>docs/design\<close>), which shares no code with the program:
    \<open>StateSequence\<close> has the histories of objects, sequences of states, differences and transitions,
    \<open>PrototypeProgram\<close> the program with its pending transitions, the registry and the coordinator.

  \<^bold>\<open>What the lemmas show.\<close>  \<open>HappensBefore\<close>: the clock vectors decide the happens-before relation
  of the trace (a locale generic in the dependence, interpreted on \<open>dependentTransitions\<close>).
  \<open>Independence\<close>: transitions the dependence test declares independent commute, up to a list of pairs the
  test overlooks; \<open>MissedRaces\<close> has a program whose deadlock the search misses because of one of them.
  \<open>Typing\<close>, \<open>ReaderTyping\<close> and \<open>TypedSearch\<close>: objects keep class, id and address, references are
  never dangling, so reading a pending transition never fails, carried through the search.
  \<open>Exploration\<close>: the invariants of all reachable search states (stack heights, irreversible states, sets
  of stack items, clocks, agreement with the target process), the termination of the search and what its
  end means.  \<open>Selection\<close>: what the loops over threads and the end of a trace compute.
  \<open>ReplayObjects\<close> and \<open>StoreRuns\<close>: going back as a run of the trace on the object store, resets and
  undoing.  \<open>ObjectProperties\<close> states the properties of objects and transitions; the properties of
  the search are below.  \<open>TurnTaking\<close>: in every reachable state of the two processes at most one of
  the agents can move (the phases of a turn), and no post of a semaphore is lost.  \<open>TargetProperties\<close>:
  whatever the interleaving, the target follows the schedule, and the operation it stops at is the
  computed one.  \<open>CommandLine\<close>: the options of the command line arrive in the record that the search
  reads, and a printed schedule is read back unchanged.  \<open>LivelockRuns\<close> and \<open>CheckedSearch\<close>: the invariants of the search carried
  through the livelock test, whose sequence of cycles is a locale that is interpreted on the cycles with
  and without early stopping; \<open>LivelockProperties\<close>: the test ends, what it means, that the branches
  of the search are as before, and what happens at a deadlock.  \<open>UniqueRepProperties\<close>: the representations
  tell the pending transitions of a trace apart.  \<open>EarlyStoppingProperties\<close>: a cycle that stops early has
  come back to a state that waits for the same operations.  \<open>Restarting\<close>: going back to the start gives the state
  the search began with, except for the map of thread ids.  \<open>StateSequenceProperties\<close>: the kinds
  of states of the prototype refine one map from ids to states (a locale, interpreted on each), and a
  sequence records the run that made it.  \<open>Demo\<close> has small target programs, run by
  evaluation, on which the theorems are instantiated.

  \<^bold>\<open>Loops and bounds.\<close>  The loop over transitions counts down the depth limit
  (1500 transitions, \<open>MC_STATE_CONFIG_MAX_TRANSITIONS_DEPTH_LIMIT_DEFAULT\<close>) minus the current depth: at zero
  the code exits, so the counter cuts nothing off.  The outer loop has no bound and is a
  \<open>partial_function\<close>; that it returns is the theorem \<open>model_checking_terminates\<close>.  The run of the target
  along a schedule has fuel (\<open>run_handshake\<close>); \<open>run_handshake_enough\<close> says that the fuel
  \<open>stops_at_of\<close> is given suffices whenever it yields a state at rest, and the states at rest of a schedule
  are unique.  The cycles of the livelock test have the number of threads as fuel; \<open>livelock_test_ends\<close> says
  that it is never used up.  Arrays of the
  code are functions or lists with an explicit \<open>OutOfBounds\<close> where the code would index past the end (20
  threads, 10000 objects, 1000 entries of a schedule).  Machine integers are words where wrapping
  matters (semaphore counts, execution depths, values of variables) and naturals for indices and ids.

  \<^bold>\<open>Parameters.\<close>  \<open>target_program\<close>: \<open>stops_at sched\<close> is the operation the last thread of the
  schedule stops at in a fresh process that has run the schedule; \<open>static_initializers\<close> answers
  whether the memory of an object equals its static initialiser; \<open>main_pthread\<close> is the handle of the
  main thread; \<open>set_order\<close> is the order in which an unordered set is iterated over, of which
  \<open>iteration_order\<close> says only that the elements of the set are listed once each.
  \<open>search_options\<close> and \<open>stack_configuration\<close> hold what \<open>read_environment\<close> reads from the environment.
  \<open>user_program\<close> is the code of the target between its visible operations: what a thread calls next after
  the calls it has made.

  \<^bold>\<open>Not modelled.\<close>  Printing of states, transitions and traces; the commands of the debugger other than
  \<^verbatim>\<open>mcmini back\<close>, and when they set \<^verbatim>\<open>mc_reset\<close>; the mapping of the shared memory, the alarm and the texts
  of signals (\<^verbatim>\<open>src/signals.cpp\<close>): input and output around the search.
  Of the prototype in \<^verbatim>\<open>docs/design\<close>: the processes and their shared memory, plugins, the two third-party
  headers, and the algorithm, which so far runs one thread twice.
\<close>

section \<open>The search\<close>



text \<open>
  C2. After an iteration of the search loop, every other thread whose pending transition is
  dependent and co-enabled with the transition just run, and not ordered after it by the clocks,
  has been scheduled for at the state that transition ran from: one of the candidate threads is
  in its backtrack set, or, when there is no candidate, every enabled thread that is neither
  searched nor asleep.
\<close>

theorem races_are_scheduled:
  assumes "reachable prog opts cfg (Some t, st)" and "iteration_order (set_order prog)"
    and "searchIteration prog opts t st = Inr (nxt, st')"
    and "n = length (transitionStack (programState st))"
    and "p < getNumProgramThreads (programState st')" and "p \<noteq> getThreadId t"
    and "getNextTransitionForThread (programState st') p = Inr nextSP"
    and "shouldProcess (programState st') nextSP n p"
  shows "race_scheduled (programState st') (programState st') n p"
  by (rule iteration_schedules_races [OF assms(1-4,7,8,5,6)])

theorem races_are_scheduled_witness:
  "iterates round_robin_options race_program 3
     (\<lambda>t st nxt st'. race_scheduled (programState st') (programState st') 3 1)"
  using robin_runs
  by (rule iterates_mono) (auto intro!: races_are_scheduled split: sum.splits)

text \<open>
  C3. After an iteration, the thread that has just run is scheduled for at the highest state
  below where its next transition races with the transition run from there.
\<close>

theorem last_thread_highest_race_scheduled:
  assumes "reachable prog opts cfg (Some t, st)" and "iteration_order (set_order prog)"
    and "searchIteration prog opts t st = Inr (nxt, st')"
    and "getNextTransitionForThread (programState st') (getThreadId t) = Inr nextSP"
    and "shouldProcess (programState st') nextSP i (getThreadId t)"
    and "i < length (transitionStack (programState st))"
    and "\<forall>j. i < j \<and> j < length (transitionStack (programState st)) \<longrightarrow>
      \<not> shouldProcess (programState st') nextSP j (getThreadId t)"
  shows "race_scheduled (programState st') (programState st') i (getThreadId t)"
  by (rule iteration_schedules_last [OF assms])

theorem last_thread_highest_race_scheduled_witness:
  "iterates default_options race_program 3
     (\<lambda>t st nxt st'. race_scheduled (programState st') (programState st') 2 (getThreadId t))"
  using race_last
  by (rule iterates_mono) (auto intro!: last_thread_highest_race_scheduled split: sum.splits)



text \<open>
  C5. In every reachable state, when the pending transitions of two threads are enabled and the
  dependence test declares them independent, running the second after the first and the first
  after the second gives the same state; the only exceptions are the listed pairs the test
  overlooks.
\<close>

theorem independent_transitions_commute:
  assumes "reachable prog opts cfg (nxt, st)" and "iteration_order (set_order prog)"
    and "s = programState st" and "p < getNumProgramThreads s" and "q < getNumProgramThreads s"
    and "getNextTransitionForThread s p = Inr t" and "getNextTransitionForThread s q = Inr u"
    and "transitionEnabledInState t" and "transitionEnabledInState u"
    and "\<not> dependentTransitions t u" and "\<not> overlooked t u"
    and "run_pending p s = Inr s1" and "run_pending q s1 = Inr s2"
  shows "\<exists>s1'. run_pending q s = Inr s1' \<and> run_pending p s1' = Inr s2"
  using independent_runs_commute [OF _ _ _ assms(6-13)] reachable_typed [OF assms(1,2)] assms(3-5)
  by (simp add: getNumProgramThreads_def)

theorem independent_transitions_commute_witness:
  "reaches default_options race_program 2 (\<lambda>nxt st. \<exists>s1 s2 s1'.
     run_pending 0 (programState st) = Inr s1 \<and> run_pending 1 s1 = Inr s2 \<and>
     run_pending 1 (programState st) = Inr s1' \<and> run_pending 0 s1' = Inr s2)"
  using race_commutes
proof (rule reaches_mono)
  fix nxt st
  assume r: "reachable race_program default_options default_config (nxt, st)"
    and run: "getNumProgramThreads (programState st) = 2 \<and>
    (case getNextTransitionForThread (programState st) 0 of Inl e \<Rightarrow> False
     | Inr t \<Rightarrow> transitionEnabledInState t \<and>
    (case getNextTransitionForThread (programState st) 1 of Inl e \<Rightarrow> False
     | Inr u \<Rightarrow> transitionEnabledInState u \<and> \<not> dependentTransitions t u \<and> \<not> overlooked t u \<and>
    (case run_pending 0 (programState st) of Inl e \<Rightarrow> False
     | Inr s1 \<Rightarrow> (case run_pending 1 s1 of Inl e \<Rightarrow> False | Inr s2 \<Rightarrow> True))))"
  then obtain t u s1 s2 where "getNextTransitionForThread (programState st) 0 = Inr t"
    "getNextTransitionForThread (programState st) 1 = Inr u" "transitionEnabledInState t"
    "transitionEnabledInState u" "\<not> dependentTransitions t u" "\<not> overlooked t u"
    "run_pending 0 (programState st) = Inr s1" "run_pending 1 s1 = Inr s2"
    by (auto split: sum.splits)
  from independent_transitions_commute [OF r race_order refl _ _ this] run this(7,8)
  show "\<exists>s1 s2 s1'. run_pending 0 (programState st) = Inr s1 \<and> run_pending 1 s1 = Inr s2 \<and>
     run_pending 1 (programState st) = Inr s1' \<and> run_pending 0 s1' = Inr s2" by auto
qed

text \<open>
  C6. When the search comes to its own end, no state on the stack has a thread left to search.
\<close>

theorem search_exhausts_schedule:
  assumes "mc_do_model_checking prog opts cfg = Some (Inr st)" and "iteration_order (set_order prog)"
    and "item \<in> set (stateStack (programState st))"
  shows "backtrackSet item = {}"
  using deepest_spec [of "programState st" FIRST_BRANCH] model_checking_exhausts [OF assms(1,2)] assms(3)
  by (simp add: FIRST_BRANCH_def)

theorem search_exhausts_schedule_witness:
  "\<exists>st item. mc_do_model_checking race_program default_options default_config = Some (Inr st) \<and>
     item \<in> set (stateStack (programState st)) \<and> backtrackSet item = {}"
  using race_search search_exhausts_schedule [of race_program default_options default_config]
  by (auto split: option.splits sum.splits) (meson last_in_set race_order)

text \<open>
  C7. Whenever a transition is about to run, the target process has run exactly the schedule of
  the transition stack of the model; between traces there is no target process.
\<close>

theorem model_follows_target:
  assumes "reachable prog opts cfg (nxt, st)" and "iteration_order (set_order prog)"
  shows "trace_process st =
    (if nxt = None then None else Some (map getThreadId (transitionStack (programState st))))"
  using reachable_ok [OF assms] by (auto simp: in_step_def getThreadIdBacktrace_def split: if_splits)

theorem model_follows_target_witness:
  "iterates round_robin_options race_program 3 (\<lambda>t st nxt st'.
     trace_process st = Some (map getThreadId (transitionStack (programState st))))"
  using robin_runs by (rule iterates_mono) (simp add: model_follows_target [where nxt = "Some _"])

text \<open>
  The transition the search is about to run is the pending transition of its thread, read from
  the current state of the objects.
\<close>

theorem runs_only_pending_transitions:
  assumes "reachable prog opts cfg (Some t, st)" and "iteration_order (set_order prog)"
  shows "getNextTransitionForThread (programState st) (getThreadId t) = Inr t"
  by (rule runs_pending [OF assms])

theorem runs_only_pending_transitions_witness:
  "iterates round_robin_options race_program 3 (\<lambda>t st nxt st'.
     getNextTransitionForThread (programState st) (getThreadId t) = Inr t)"
  using robin_runs by (rule iterates_mono) (rule runs_only_pending_transitions, assumption, rule race_order)

text \<open>
  C8. In every reachable state the pending transition of every thread can be read without
  following a null pointer or a wrong cast; it belongs to that thread, and the threads and
  objects it refers to exist and have the classes it expects.
\<close>

theorem pending_transitions_are_readable:
  assumes "reachable prog opts cfg (nxt, st)" and "iteration_order (set_order prog)"
    and "q < getNumProgramThreads (programState st)"
  shows "\<exists>t. getNextTransitionForThread (programState st) q = Inr t \<and> getThreadId t = q \<and>
    refs_ok (programState st) t"
  using pending_readable reachable_typed [OF assms(1,2)] assms(3) by (simp add: getNumProgramThreads_def)

theorem pending_transitions_are_readable_witness:
  "iterates round_robin_options race_program 3 (\<lambda>t st nxt st'.
     \<exists>u. getNextTransitionForThread (programState st') 1 = Inr u \<and> getThreadId u = 1 \<and>
       refs_ok (programState st') u)"
  using robin_runs
  by (rule iterates_mono) (metis pending_transitions_are_readable race_order reachable.iterate one_less_numeral_iff semiring_norm(76))





text \<open>
  Two threads that wait for different condition variables with the same mutex: their transitions
  are declared independent and co-enabled, although running one disables the other.
\<close>

theorem waits_race_unnoticed:
  assumes "reachable prog opts cfg (nxt, st)" and "iteration_order (set_order prog)"
    and "s = programState st" and "q < getNumProgramThreads s"
    and "getNextTransitionForThread s p = Inr (MCCondTransition th (CondWait (Some m)) x)"
    and "getNextTransitionForThread s q = Inr (MCCondTransition th' (CondWait (Some m)) y)"
    and "cond_sys x \<noteq> cond_sys y" and "run_pending p s = Inr s1"
    and "t = MCCondTransition th (CondWait (Some m)) x" and "u = MCCondTransition th' (CondWait (Some m)) y"
  shows "\<not> dependentTransitions t u \<and> coenabledTransitions t u
    \<and> (\<exists>u'. getNextTransitionForThread s1 q = Inr u' \<and> \<not> transitionEnabledInState u')"
proof -
  have wt: "well_typed s" and q: "q < nextThreadId s"
    using reachable_typed [OF assms(1,2)] assms(3,4) by (simp_all add: getNumProgramThreads_def)
  have "p \<noteq> q" using assms(5-7) by auto
  then have "thread_tid th \<noteq> thread_tid th'"
    using pending_read(1) [OF wt assms(5)] pending_read(1) [OF wt assms(6)]
    by (simp add: getThreadId_def transition_thread_def)
  moreover obtain u' where "getNextTransitionForThread s1 q = Inr u'"
    using pending_readable [of s1 q] run_pending_typed [OF wt assms(8)] q by (metis mcstack.simps(3) mcstack.surjective mcstack.update_convs(1))
  ultimately show ?thesis
    using waits_declared_independent [of th th' x y] wait_disables_wait [OF wt q assms(5-8)] assms(7,9,10) by auto
qed

theorem waits_race_unnoticed_witness:
  "reaches waits_schedule waits_program 11 (\<lambda>nxt st. \<exists>t u s1 u'.
     getNextTransitionForThread (programState st) 0 = Inr t \<and> getNextTransitionForThread (programState st) 1 = Inr u
     \<and> transitionEnabledInState t \<and> transitionEnabledInState u
     \<and> \<not> dependentTransitions t u \<and> coenabledTransitions t u
     \<and> run_pending 0 (programState st) = Inr s1
     \<and> getNextTransitionForThread s1 1 = Inr u' \<and> \<not> transitionEnabledInState u')"
  using waits_run
proof (rule reaches_mono)
  fix nxt st
  assume r: "reachable waits_program waits_schedule default_config (nxt, st)"
    and run: "getNumProgramThreads (programState st) = 3 \<and>
    (case getNextTransitionForThread (programState st) 0 of Inl e \<Rightarrow> False
     | Inr t \<Rightarrow> transitionEnabledInState t \<and>
    (case getNextTransitionForThread (programState st) 1 of Inl e \<Rightarrow> False
     | Inr u \<Rightarrow> share_mutex t u \<and> transitionEnabledInState u \<and>
    (case run_pending 0 (programState st) of Inl e \<Rightarrow> False | Inr s1 \<Rightarrow> True)))"
  then obtain t u s1 where n: "getNextTransitionForThread (programState st) 0 = Inr t"
    "getNextTransitionForThread (programState st) 1 = Inr u" and e: "transitionEnabledInState t"
    "transitionEnabledInState u" and sh: "share_mutex t u" and s1: "run_pending 0 (programState st) = Inr s1"
    by (auto split: sum.splits)
  from sh obtain th m x th' y where t: "t = MCCondTransition th (CondWait (Some m)) x"
    and u: "u = MCCondTransition th' (CondWait (Some m)) y" and "cond_sys x \<noteq> cond_sys y"
    by (rule share_mutex_cases)
  from waits_race_unnoticed [OF r waits_order refl _ n [unfolded t u] this(3) s1 t u] n e s1 run
  show "\<exists>t u s1 u'.
     getNextTransitionForThread (programState st) 0 = Inr t \<and> getNextTransitionForThread (programState st) 1 = Inr u
     \<and> transitionEnabledInState t \<and> transitionEnabledInState u
     \<and> \<not> dependentTransitions t u \<and> coenabledTransitions t u
     \<and> run_pending 0 (programState st) = Inr s1
     \<and> getNextTransitionForThread s1 1 = Inr u' \<and> \<not> transitionEnabledInState u'" by auto
qed


text \<open>
  C17. In every reachable state below the depth limit, and when no schedule was given,
  getFirstEnabledTransition returns the pending transition of the least thread that is enabled,
  within its execution depth and not asleep, and a null pointer when there is none.
\<close>

theorem first_thread_that_can_run:
  assumes "reachable prog opts cfg (nxt, st)" and "iteration_order (set_order prog)"
    and "entry < 0" and "\<not> depthLimitReached (programState st)"
  shows "getFirstEnabledTransition entry (programState st) =
    Inr (if \<exists>q < getNumProgramThreads (programState st). can_run (programState st) q
         then Some (pending (programState st) (LEAST q. can_run (programState st) q)) else None)"
proof (rule first_enabled_spec [OF well_typed_readable [OF reachable_typed [OF assms(1,2)]] _ assms(3,4)])
  show "stateStack (programState st) \<noteq> []"
    using reachable_ok [OF assms(1,2)] by (auto simp: search_ok_def clocks_ok_def)
qed

theorem first_thread_that_can_run_witness:
  "reaches default_options race_program 4 (\<lambda>nxt st. getFirstEnabledTransition (-2) (programState st) =
    Inr (if \<exists>q < getNumProgramThreads (programState st). can_run (programState st) q
         then Some (pending (programState st) (LEAST q. can_run (programState st) q)) else None))"
  using race_limit
  by (rule reaches_mono) (rule first_thread_that_can_run, assumption, rule race_order, simp_all)

text \<open>
  C18. In every reachable state the threads in the backtrack set of a stack item were enabled in
  its state, have not been searched from it and do not sleep there.
\<close>

theorem scheduled_threads_can_run:
  assumes "reachable prog opts cfg (nxt, st)" and "iteration_order (set_order prog)"
    and "item \<in> set (stateStack (programState st))"
  shows "backtrackSet item \<subseteq> enabledThreads item - doneSet item - sleepSet item"
  using reachable_ok [OF assms(1,2)] assms(3) by (auto simp: search_ok_def items_ok_def item_wf_def)

theorem scheduled_threads_can_run_witness:
  "reaches default_options race_program 4 (\<lambda>nxt st. \<forall>item \<in> set (stateStack (programState st)).
     backtrackSet item \<subseteq> enabledThreads item - doneSet item - sleepSet item)"
  using race_runs
  by (rule reaches_mono) (rule ballI, rule scheduled_threads_can_run [OF _ race_order])

text \<open>
  In every reachable state, below the top of the stack, a thread that has been searched from a
  state is in the sleep set of that state.
\<close>

theorem searched_threads_sleep:
  assumes "reachable prog opts cfg (nxt, st)" and "iteration_order (set_order prog)"
    and "Suc j < length (stateStack (programState st))"
  shows "doneSet (stateStack (programState st) ! j) \<subseteq> sleepSet (stateStack (programState st) ! j)"
proof -
  let ?items = "stateStack (programState st)"
  have "doneSet (?items ! j) \<subseteq> sleepSet (?items ! j) \<union> (if Suc j = length ?items
      then (case nxt of None \<Rightarrow> {} | Some t \<Rightarrow> {getThreadId t}) else {})"
    using reachable_asleep [OF assms(1,2)] assms(3) unfolding searched_asleep_def by (meson Suc_lessD)
  then show ?thesis using assms(3) by simp
qed

theorem searched_threads_sleep_witness:
  "reaches default_options race_program 4 (\<lambda>nxt st.
     doneSet (stateStack (programState st) ! 2) \<subseteq> sleepSet (stateStack (programState st) ! 2))"
  using race_items
  by (rule reaches_mono) (rule searched_threads_sleep, assumption, rule race_order, simp)

text \<open>
  The branch point the search goes on with is the deepest state with a thread scheduled, and the
  end of the search exactly when no thread is scheduled anywhere. It is never state 0, from
  which there is no transition to go back to.
\<close>

theorem next_branch_is_the_deepest:
  assumes "reachable prog opts cfg (None, st)" and "iteration_order (set_order prog)"
    and "finishBranch opts st = Inr (b, st')"
  shows "deepest_scheduled (stateStack (programState st')) b"
  using deepest_branch_scheduled reachable_ok [OF assms(1,2)] finishBranch_keeps [OF assms(3)] by auto

theorem next_branch_is_the_deepest_witness:
  "reaches default_options race_program 4 (\<lambda>nxt st. \<exists>b st'. finishBranch default_options st = Inr (b, st') \<and>
     deepest_scheduled (stateStack (programState st')) b)"
  using race_branch
  by (rule reaches_mono)
     (auto split: sum.splits intro: next_branch_is_the_deepest [OF _ race_order])

text \<open>
  C19. Going to a branch point chooses a scheduled thread that has not been searched from there,
  marks it searched, and starts a target process that has run the transitions below the branch
  point.
\<close>

theorem branch_runs_a_new_thread:
  assumes "reachable prog opts cfg (None, st)" and "iteration_order (set_order prog)"
    and "finishBranch opts st = Inr (b, st1)" and "prepareBranch b st1 = Inr (p, st')" and "b \<noteq> FIRST_BRANCH"
  shows "p \<in> backtrackSet (stateStack (programState st) ! nat b)
    \<and> p \<notin> doneSet (stateStack (programState st) ! nat b)
    \<and> doneSet (stateStack (programState st') ! nat b) = insert p (doneSet (stateStack (programState st) ! nat b))
    \<and> trace_process st' = Some (map getThreadId (take (nat b) (transitionStack (programState st))))"
proof -
  have ps: "programState st1 = programState st" using finishBranch_keeps(1) [OF assms(3)] .
  have ok: "search_ok (programState st1)" using reachable_ok [OF assms(1,2)] ps by simp
  show ?thesis
    using branch_ok [OF assms(4,5) ok] branch_transitions [OF assms(4,5)] ps
    by (simp add: in_step_def getThreadIdBacktrace_def)
qed

theorem branch_runs_a_new_thread_witness:
  "reaches default_options race_program 4 (\<lambda>nxt st. \<exists>st1 st'. finishBranch default_options st = Inr (2, st1) \<and>
    prepareBranch 2 st1 = Inr (1, st') \<and> 1 \<in> backtrackSet (stateStack (programState st) ! nat 2)
    \<and> 1 \<notin> doneSet (stateStack (programState st) ! nat 2)
    \<and> doneSet (stateStack (programState st') ! nat 2) = insert 1 (doneSet (stateStack (programState st) ! nat 2))
    \<and> trace_process st' = Some (map getThreadId (take (nat 2) (transitionStack (programState st)))))"
  using race_next_branch
proof (rule reaches_mono)
  fix nxt st
  assume r: "reachable race_program default_options default_config (nxt, st)"
    and run: "nxt = None \<and> (\<exists>st1 st'. finishBranch default_options st = Inr (2, st1) \<and>
      prepareBranch 2 st1 = Inr (1, st'))"
  then obtain st1 st' where f: "finishBranch default_options st = Inr (2, st1)"
    and b: "prepareBranch 2 st1 = Inr (1, st')" by blast
  have "reachable race_program default_options default_config (None, st)" using r run by simp
  from branch_runs_a_new_thread [OF this race_order f b] f b
  show "\<exists>st1 st'. finishBranch default_options st = Inr (2, st1) \<and>
    prepareBranch 2 st1 = Inr (1, st') \<and> 1 \<in> backtrackSet (stateStack (programState st) ! nat 2)
    \<and> 1 \<notin> doneSet (stateStack (programState st) ! nat 2)
    \<and> doneSet (stateStack (programState st') ! nat 2) = insert 1 (doneSet (stateStack (programState st) ! nat 2))
    \<and> trace_process st' = Some (map getThreadId (take (nat 2) (transitionStack (programState st))))"
    by (auto simp: FIRST_BRANCH_def)
qed

text \<open>
  In every reachable state the test for going back in reverse holds exactly when every
  transition that would have to be undone is reversible.
\<close>

theorem reverse_only_over_reversible_transitions:
  assumes "reachable prog opts cfg (nxt, st)" and "iteration_order (set_order prog)"
  shows "canRunInReverseToStateAtIndex (index + 1) (programState st) \<longleftrightarrow>
    (\<forall>t \<in> set (drop (index + 1) (transitionStack (programState st))). isReversibleInState (methods_of t))"
proof -
  have "canRunInReverseToStateAtIndex (index + 1) (programState st) \<longleftrightarrow>
      (\<forall>k. index < k \<and> k < length (transitionStack (programState st)) \<longrightarrow>
         isReversibleInState (methods_of (transitionStack (programState st) ! k)))"
    using reverse_iff reachable_ok [OF assms] by (simp add: search_ok_def)
  then show ?thesis by (simp add: all_drop_nth Suc_le_eq)
qed

theorem reverse_only_over_reversible_transitions_witness:
  "reaches default_options race_program 4 (\<lambda>nxt st.
    canRunInReverseToStateAtIndex (1 + 1) (programState st) \<longleftrightarrow>
    (\<forall>t \<in> set (drop (1 + 1) (transitionStack (programState st))). isReversibleInState (methods_of t)))"
  using race_runs
  by (rule reaches_mono) (rule reverse_only_over_reversible_transitions [OF _ race_order])

text \<open>
  Going back to the state after the transition at an index keeps the transitions up to the
  index, the states up to the one after it, and the irreversible states among them.
\<close>

theorem going_back_cuts_the_stacks:
  assumes "reflectStateAtTransitionIndex index s = Inr s'" and "search_ok s"
  shows "transitionStack s' = take (index + 1) (transitionStack s)
    \<and> stateStack s' = take (index + 2) (stateStack s)
    \<and> irreversibleStatesStack s' = filter (\<lambda>x. x \<le> index + 1) (irreversibleStatesStack s)"
  using reflect_stacks [OF assms(1)] assms(2) popGreaterThan_filter irreversible_sorted
  by (simp add: search_ok_def)

theorem going_back_cuts_the_stacks_witness:
  "reaches default_options race_program 4 (\<lambda>nxt st. \<exists>s'.
    reflectStateAtTransitionIndex 1 (programState st) = Inr s' \<and>
    transitionStack s' = take (1 + 1) (transitionStack (programState st))
    \<and> stateStack s' = take (1 + 2) (stateStack (programState st))
    \<and> irreversibleStatesStack s' = filter (\<lambda>x. x \<le> 1 + 1) (irreversibleStatesStack (programState st)))"
  using race_reflects
  by (rule reaches_mono)
     (elim exE, rule exI, rule conjI, assumption, rule going_back_cuts_the_stacks,
      assumption, use reachable_ok [OF _ race_order] in blast)



end
